theory Spec2Isabelle
  imports Main
begin

section \<open>Types (types.ts)\<close>

text \<open>
  The monotypes of \<^verbatim>\<open>types.ts\<close>: \<^verbatim>\<open>TConstant\<close>, \<^verbatim>\<open>TApplication\<close>,
  \<^verbatim>\<open>TVar\<close> (with its \<^verbatim>\<open>userSpecified\<close> flag), \<^verbatim>\<open>REmpty\<close> and \<^verbatim>\<open>RExtension\<close>
  (label, labelType, extends).
\<close>

datatype ty =
    TConstant string
  | TApplication ty "ty list"
  | TVar string bool
  | REmpty
  | RExtension string ty ty

datatype TypeSchema = TypeSchema (tvars: "string list") (mono: ty)

definition tcArrow :: ty where "tcArrow = TConstant ''->''"
definition tcVector :: ty where "tcVector = TConstant ''vector''"
definition tcRecord :: ty where "tcRecord = TConstant ''record''"
definition tVoid :: ty where "tVoid = TConstant ''void''"
definition tBoolean :: ty where "tBoolean = TConstant ''boolean''"
definition tNumber :: ty where "tNumber = TConstant ''number''"
definition tString :: ty where "tString = TConstant ''string''"

definition tVar :: "string \<Rightarrow> bool \<Rightarrow> ty" where
  "tVar nm userSpecified = TVar nm userSpecified"

definition tApp :: "ty \<Rightarrow> ty list \<Rightarrow> ty" where
  "tApp op args = TApplication op args"

definition tVector :: "ty \<Rightarrow> ty" where
  "tVector t = tApp tcVector [t]"

text \<open>
  \<^verbatim>\<open>infer.ts\<close> calls \<^verbatim>\<open>tFn(args, effect, out)\<close>: the arrow is applied to the
  argument types, then the effect, then the result.
\<close>

definition tFn :: "ty list \<Rightarrow> ty \<Rightarrow> ty \<Rightarrow> ty" where
  "tFn args eff out = tApp tcArrow (args @ [eff, out])"

definition emptyRow :: ty where "emptyRow = REmpty"

definition tRowExtension :: "string \<Rightarrow> ty \<Rightarrow> ty \<Rightarrow> ty" where
  "tRowExtension label labelType row = RExtension label labelType row"

definition tRow :: "(string \<times> ty) list \<Rightarrow> ty \<Rightarrow> ty" where
  "tRow fields extending = foldr (\<lambda>(label, t) row. tRowExtension label t row) fields extending"

definition tRecord :: "(string \<times> ty) list \<Rightarrow> ty \<Rightarrow> ty" where
  "tRecord fields extending = tApp tcRecord [tRow fields extending]"

text \<open>
  Modelled from the spec: \<^verbatim>\<open>tEffect\<close> and \<^verbatim>\<open>tVariant\<close> are imported by
  \<^verbatim>\<open>infer.ts\<close> from a \<^verbatim>\<open>types.ts\<close> that declares them; the file at hand does
  not. The spec gives effect types as the application of \<^verbatim>\<open>effect\<close> to a row and
  variants as the application of \<^verbatim>\<open>variant\<close> to a row; both are built like
  \<^verbatim>\<open>tRecord\<close>, closed by the empty row.
\<close>

definition tcEffect :: ty where "tcEffect = TConstant ''effect''"
definition tcVariant :: ty where "tcVariant = TConstant ''variant''"

definition tEffect :: "string list \<Rightarrow> ty" where
  "tEffect labels = tApp tcEffect [tRow (map (\<lambda>label. (label, tVoid)) labels) emptyRow]"

definition tVariant :: "(string \<times> ty) list \<Rightarrow> ty" where
  "tVariant fields = tApp tcVariant [tRow fields emptyRow]"

section \<open>Errors\<close>

type_synonym location = "nat \<times> nat"

text \<open>
  The exceptions the inference module can raise: \<^verbatim>\<open>new Error(msg)\<close>;
  \<^verbatim>\<open>new Error(printHighlightedExpr(msg, location))\<close>, kept as the message and the
  location it highlights (the rendering of the source excerpt is left out);
  \<^verbatim>\<open>new InvariantViolation(msg)\<close>; the \<^verbatim>\<open>TypeError\<close> of reading a property of
  \<^verbatim>\<open>undefined\<close>; and the \<^verbatim>\<open>RangeError\<close> of a recursion that never returns.
\<close>

datatype error =
    Error string
  | ErrorAt string location
  | InvariantViolation string
  | TypeError string
  | RangeError string

section \<open>Fresh type variables\<close>

text \<open>Decimal rendering of the counter, as string concatenation does in the source.\<close>

definition digit_char :: "nat \<Rightarrow> char" where
  "digit_char d = ''0123456789'' ! d"

fun string_of_nat :: "nat \<Rightarrow> string" where
  "string_of_nat n =
     (if n < 10 then [digit_char n]
      else string_of_nat (n div 10) @ [digit_char (n mod 10)])"

declare string_of_nat.simps [simp del]

text \<open>
  Modelled from the spec: \<^verbatim>\<open>generateUniqueTVar\<close> (\<^verbatim>\<open>type-generate.ts\<close> is not at
  hand). A single monotonic counter names the variables; the counter is passed
  explicitly and returned incremented. A generated variable is not user specified.
\<close>

definition tvarName :: "nat \<Rightarrow> string" where
  "tvarName k = ''t'' @ string_of_nat k"

definition generateUniqueTVar :: "nat \<Rightarrow> ty \<times> nat" where
  "generateUniqueTVar n = (tVar (tvarName (Suc n)) False, Suc n)"

fun generateUniqueTVars :: "nat \<Rightarrow> nat \<Rightarrow> ty list \<times> nat" where
  "generateUniqueTVars 0 n = ([], n)"
| "generateUniqueTVars (Suc k) n =
     (let (t, n1) = generateUniqueTVar n;
          (ts, n2) = generateUniqueTVars k n1
      in (t # ts, n2))"

fun tvar_name :: "ty \<Rightarrow> string" where
  "tvar_name (TVar nm userSpecified) = nm"

section \<open>Syntax\<close>

datatype Identifier = Identifier (name: string) (id_location: location)

text \<open>
  Modelled from the spec: the annotation of \<^verbatim>\<open>(the T e)\<close> is an object whose
  \<^verbatim>\<open>instantiate()\<close> replaces wildcards by fresh variables. Named identifiers stay as
  they are; a variable named \<^verbatim>\<open>_\<close> gets an independent fresh variable at each
  occurrence; a variable named \<^verbatim>\<open>_name\<close> gets one fresh variable shared by all its
  occurrences in the annotation.
\<close>

datatype TypeWithWildcards = TypeWithWildcards (wildcardBody: ty)

definition isWildcardTypeVarName :: "string \<Rightarrow> bool" where
  "isWildcardTypeVarName nm = (case nm of [] \<Rightarrow> False | c # cs \<Rightarrow> c = CHR ''_'')"

fun instantiateType :: "ty \<Rightarrow> (string \<times> ty) list \<Rightarrow> nat \<Rightarrow> ty \<times> (string \<times> ty) list \<times> nat"
and instantiateTypes :: "ty list \<Rightarrow> (string \<times> ty) list \<Rightarrow> nat \<Rightarrow> ty list \<times> (string \<times> ty) list \<times> nat"
where
  "instantiateType (TConstant c) ws n = (TConstant c, ws, n)"
| "instantiateType (TVar nm us) ws n =
     (if nm = ''_'' then (let (t, n1) = generateUniqueTVar n in (t, ws, n1))
      else if isWildcardTypeVarName nm then
        (case map_of ws nm of
           Some t \<Rightarrow> (t, ws, n)
         | None \<Rightarrow> (let (t, n1) = generateUniqueTVar n in (t, ws @ [(nm, t)], n1)))
      else (TVar nm us, ws, n))"
| "instantiateType REmpty ws n = (REmpty, ws, n)"
| "instantiateType (RExtension label t r) ws n =
     (let (t', ws1, n1) = instantiateType t ws n;
          (r', ws2, n2) = instantiateType r ws1 n1
      in (RExtension label t' r', ws2, n2))"
| "instantiateType (TApplication op args) ws n =
     (let (op', ws1, n1) = instantiateType op ws n;
          (args', ws2, n2) = instantiateTypes args ws1 n1
      in (TApplication op' args', ws2, n2))"
| "instantiateTypes [] ws n = ([], ws, n)"
| "instantiateTypes (t # ts) ws n =
     (let (t', ws1, n1) = instantiateType t ws n;
          (ts', ws2, n2) = instantiateTypes ts ws1 n1
      in (t' # ts', ws2, n2))"

definition instantiate :: "TypeWithWildcards \<Rightarrow> nat \<Rightarrow> ty \<times> nat" where
  "instantiate tw n = (let (t, ws, n1) = instantiateType (wildcardBody tw) [] n in (t, n1))"

text \<open>
  Expressions, one constructor for each \<^verbatim>\<open>node.tag\<close> that \<^verbatim>\<open>infer\<close> dispatches
  on. Every node carries its location and an \<^verbatim>\<open>info\<close> field: \<^verbatim>\<open>unit\<close> before
  inference, \<^verbatim>\<open>Typed\<close> after.
\<close>

datatype 'i expr =
    EUnknown location 'i
  | ENumber int location 'i
  | EString string location 'i
  | EVector "'i expr list" location 'i
  | ERecord "(Identifier \<times> 'i expr) list" "'i expr option" location 'i
  | EVariableReference string location 'i
  | EConditional "'i expr" "'i expr" "'i expr" location 'i
  | EFunction "Identifier list" "'i expr list" location 'i
  | EFunctionCall "'i expr" "'i expr list" location 'i
  | ELetBindings "(Identifier \<times> 'i expr) list" "'i expr list" location 'i
  | ETypeAnnotation TypeWithWildcards "'i expr" location 'i
  | EDoBlock "'i expr list" "'i expr" location 'i
  | EMatch "'i expr" "(string \<times> Identifier \<times> 'i expr list) list" location 'i

datatype Typed = Typed (type: ty) (effect: ty)

fun info :: "'i expr \<Rightarrow> 'i" where
  "info (EUnknown l i) = i"
| "info (ENumber v l i) = i"
| "info (EString v l i) = i"
| "info (EVector vs l i) = i"
| "info (ERecord fs ext l i) = i"
| "info (EVariableReference x l i) = i"
| "info (EConditional c t e l i) = i"
| "info (EFunction args b l i) = i"
| "info (EFunctionCall f args l i) = i"
| "info (ELetBindings bs b l i) = i"
| "info (ETypeAnnotation tw v l i) = i"
| "info (EDoBlock b r l i) = i"
| "info (EMatch v cs l i) = i"

text \<open>\<^verbatim>\<open>v.node.name\<close> of a variable reference.\<close>

fun node_name :: "'i expr \<Rightarrow> string" where
  "node_name (EVariableReference x l i) = x"

text \<open>A \<^verbatim>\<open>TAssumption\<close> is a typed variable reference.\<close>

type_synonym TAssumption = "Typed expr"

section \<open>Plain objects as dictionaries\<close>

text \<open>
  The environments of \<^verbatim>\<open>infer.ts\<close> are plain JavaScript objects used as
  dictionaries: they are object literals, or start from \<^verbatim>\<open>{}\<close> and grow by
  spreading. The own properties of such an object are a map here. Reading
  \<^verbatim>\<open>obj[key]\<close> and testing \<^verbatim>\<open>key in obj\<close> also find, for a key that is not an
  own property, the member of that name that every plain object inherits from
  \<^verbatim>\<open>Object.prototype\<close>.
\<close>

definition objectPrototypeMembers :: "string list" where
  "objectPrototypeMembers =
     [''constructor'', ''__defineGetter__'', ''__defineSetter__'', ''hasOwnProperty'',
      ''__lookupGetter__'', ''__lookupSetter__'', ''isPrototypeOf'', ''propertyIsEnumerable'',
      ''toString'', ''valueOf'', ''__proto__'', ''toLocaleString'']"

text \<open>
  What a place declared to hold a type holds at run time once it has been read from a
  dictionary: a value of the declared kind, or the member of \<^verbatim>\<open>Object.prototype\<close>
  found under an inherited name (a function, or the prototype itself for
  \<^verbatim>\<open>__proto__\<close>). Such a member is truthy, and it is no type: it has no \<^verbatim>\<open>node\<close>.
\<close>

datatype 'a slot = Value 'a | PrototypeMember string

text \<open>\<^verbatim>\<open>obj[key]\<close>; \<^verbatim>\<open>None\<close> stands for \<^verbatim>\<open>undefined\<close>.\<close>

definition getProperty :: "(string \<rightharpoonup> 'a) \<Rightarrow> string \<Rightarrow> 'a slot option" where
  "getProperty obj key =
     (case obj key of
        Some v \<Rightarrow> Some (Value v)
      | None \<Rightarrow> if key \<in> set objectPrototypeMembers then Some (PrototypeMember key) else None)"

text \<open>\<^verbatim>\<open>key in obj\<close>.\<close>

definition hasProperty :: "(string \<rightharpoonup> 'a) \<Rightarrow> string \<Rightarrow> bool" where
  "hasProperty obj key \<longleftrightarrow> key \<in> dom obj \<or> key \<in> set objectPrototypeMembers"

section \<open>Constraints\<close>

text \<open>
  Modelled from the spec: the four constraint kinds built by \<^verbatim>\<open>constEqual\<close>,
  \<^verbatim>\<open>constEffect\<close>, \<^verbatim>\<open>constImplicitInstance\<close> and \<^verbatim>\<open>constExplicitInstance\<close>
  (\<^verbatim>\<open>infer-solver.ts\<close> is not at hand); each keeps the typed node it is about.
  The type of an instance constraint is, in \<^verbatim>\<open>inferModule\<close> and in
  \<^verbatim>\<open>assumptionsToConstraints\<close>, whatever the lookup in an environment gave.
\<close>

datatype TConstraint =
    constEqual "Typed expr" ty
  | constEffect "Typed expr" ty
  | constImplicitInstance "Typed expr" "string list" "ty slot"
  | constExplicitInstance "Typed expr" "TypeSchema slot"

datatype 'a InferResult =
  InferResult (result: 'a) (constraints: "TConstraint list") (assumptions: "TAssumption list")

section \<open>Type aliases\<close>

type_synonym InternalTypeEnvironment = "string \<rightharpoonup> ty"

text \<open>
  A computation that may throw and may fail to return: \<^verbatim>\<open>None\<close> is a recursion
  that never returns, \<^verbatim>\<open>Some (Inl e)\<close> the exception \<^verbatim>\<open>e\<close>, \<^verbatim>\<open>Some (Inr x)\<close>
  the result \<^verbatim>\<open>x\<close>. Sequencing stops at the first of the two failures.
\<close>

definition bindO :: "(error + 'a) option \<Rightarrow> ('a \<Rightarrow> (error + 'b) option) \<Rightarrow> (error + 'b) option" where
  "bindO m f = (case m of None \<Rightarrow> None | Some (Inl e) \<Rightarrow> Some (Inl e) | Some (Inr x) \<Rightarrow> f x)"

fun mapO :: "('a \<Rightarrow> (error + 'b) option) \<Rightarrow> 'a list \<Rightarrow> (error + 'b list) option" where
  "mapO f [] = Some (Inr [])"
| "mapO f (x # xs) = bindO (f x) (\<lambda>y. bindO (mapO f xs) (\<lambda>ys. Some (Inr (y # ys))))"

lemma mapO_cong [fundef_cong]:
  "xs = ys \<Longrightarrow> (\<And>x. x \<in> set ys \<Longrightarrow> f x = g x) \<Longrightarrow> mapO f xs = mapO g ys"
  by (induction ys arbitrary: xs) auto

text \<open>
  Modelled from the spec: \<^verbatim>\<open>transformRecurType\<close> (\<^verbatim>\<open>type-utils.ts\<close> is not at
  hand) rebuilds a type bottom-up, applying the function to every node after its
  children have been transformed, the operator of an application before its
  arguments and these from left to right.
\<close>

fun transformRecurType :: "ty \<Rightarrow> (ty \<Rightarrow> (error + ty) option) \<Rightarrow> (error + ty) option" where
  "transformRecurType (TConstant c) fn = fn (TConstant c)"
| "transformRecurType (TApplication op args) fn =
     bindO (transformRecurType op fn) (\<lambda>op'.
     bindO (mapO (\<lambda>a. transformRecurType a fn) args) (\<lambda>args'.
       fn (TApplication op' args')))"
| "transformRecurType (TVar nm us) fn = fn (TVar nm us)"
| "transformRecurType REmpty fn = fn REmpty"
| "transformRecurType (RExtension label t r) fn =
     bindO (transformRecurType t fn) (\<lambda>t'.
     bindO (transformRecurType r fn) (\<lambda>r'.
       fn (RExtension label t' r')))"

lemma bindO_ord:
  "flat_ord None m m' \<Longrightarrow> (\<And>x. flat_ord None (f x) (f' x))
   \<Longrightarrow> flat_ord None (bindO m f) (bindO m' f')"
  by (auto simp: flat_ord_def bindO_def split: option.splits sum.splits)

lemma mapO_ord:
  "(\<And>x. x \<in> set xs \<Longrightarrow> flat_ord None (f x) (g x)) \<Longrightarrow> flat_ord None (mapO f xs) (mapO g xs)"
proof (induction xs)
  case Nil
  show ?case by (simp add: flat_ord_def)
next
  case (Cons x xs)
  have 1: "flat_ord None (f x) (g x)" using Cons.prems by simp
  have 2: "flat_ord None (mapO f xs) (mapO g xs)" using Cons by simp
  show ?case
    unfolding mapO.simps
    by (rule bindO_ord [OF 1], rule bindO_ord [OF 2]) (simp add: flat_ord_def)
qed

lemma transformRecurType_ord:
  "\<forall>x. flat_ord None (f x) (g x) \<Longrightarrow>
   flat_ord None (transformRecurType t f) (transformRecurType t g)"
proof (induction t)
  case (TApplication op args)
  have a: "flat_ord None (transformRecurType op f) (transformRecurType op g)"
    using TApplication by blast
  have b: "flat_ord None (mapO (\<lambda>a. transformRecurType a f) args)
             (mapO (\<lambda>a. transformRecurType a g) args)"
    by (rule mapO_ord) (use TApplication in blast)
  show ?case
    unfolding transformRecurType.simps
    by (rule bindO_ord [OF a], rule bindO_ord [OF b]) (use TApplication.prems in blast)
next
  case (RExtension l t r)
  have a: "flat_ord None (transformRecurType t f) (transformRecurType t g)"
    using RExtension by blast
  have b: "flat_ord None (transformRecurType r f) (transformRecurType r g)"
    using RExtension by blast
  show ?case
    unfolding transformRecurType.simps
    by (rule bindO_ord [OF a], rule bindO_ord [OF b]) (use RExtension.prems in blast)
qed (auto)

lemma transformRecurType_mono [partial_function_mono]:
  assumes "\<And>x. mono_option (\<lambda>f. F f x)"
  shows "mono_option (\<lambda>f. transformRecurType t (F f))"
  using assms unfolding monotone_def
  by (auto intro!: transformRecurType_ord)

text \<open>
  \<^verbatim>\<open>expandTypeAliases(type, env)\<close>. The recursion on the definition of an alias is
  not structural: on a cyclic environment the source never returns, which is the
  value \<^verbatim>\<open>None\<close> here. For a constant whose name is not an alias but a member of
  \<^verbatim>\<open>Object.prototype\<close>, \<^verbatim>\<open>env[t.node.name]\<close> is that member and is truthy, so
  the source calls itself on it; the traversal then reads the \<^verbatim>\<open>tag\<close> of its
  \<^verbatim>\<open>node\<close>, which is \<^verbatim>\<open>undefined\<close>, and a \<^verbatim>\<open>TypeError\<close> is thrown.
\<close>

partial_function (option) expandTypeAliases ::
  "ty \<Rightarrow> InternalTypeEnvironment \<Rightarrow> (error + ty) option" where
  "expandTypeAliases t env =
     transformRecurType t (\<lambda>t'.
       case t' of
         TConstant nm \<Rightarrow>
           (case getProperty env nm of
              None \<Rightarrow> Some (Inr t')
            | Some d \<Rightarrow>
                (case d of
                   Value def \<Rightarrow> expandTypeAliases def env
                 | PrototypeMember member \<Rightarrow>
                     Some (Inl (TypeError ''Cannot read property 'tag' of undefined''))))
       | _ \<Rightarrow> Some (Inr t'))"

declare expandTypeAliases.simps [code]

section \<open>Constraint generation (infer)\<close>

text \<open>
  \<^verbatim>\<open>xs.map(f)\<close> where \<^verbatim>\<open>f\<close> draws fresh variables and may throw: the counter is
  threaded left to right and the first exception aborts the traversal.
\<close>

fun mapS :: "('a \<Rightarrow> nat \<Rightarrow> error + ('b \<times> nat)) \<Rightarrow> 'a list \<Rightarrow> nat \<Rightarrow> error + ('b list \<times> nat)" where
  "mapS f [] n = Inr ([], n)"
| "mapS f (x # xs) n =
     (case f x n of
        Inl e \<Rightarrow> Inl e
      | Inr (y, n1) \<Rightarrow>
          (case mapS f xs n1 of
             Inl e \<Rightarrow> Inl e
           | Inr (ys, n2) \<Rightarrow> Inr (y # ys, n2)))"

lemma mapS_cong [fundef_cong]:
  "xs = ys \<Longrightarrow> n = m \<Longrightarrow> (\<And>x k. x \<in> set ys \<Longrightarrow> f x k = g x k) \<Longrightarrow> mapS f xs n = mapS g ys m"
  by (induction ys arbitrary: xs n m) (auto split: sum.splits)

text \<open>\<^verbatim>\<open>flatMap(f, xs)\<close> where \<^verbatim>\<open>f\<close> may throw.\<close>

fun mapE :: "('a \<Rightarrow> error + 'b) \<Rightarrow> 'a list \<Rightarrow> error + 'b list" where
  "mapE f [] = Inr []"
| "mapE f (x # xs) =
     (case f x of
        Inl e \<Rightarrow> Inl e
      | Inr y \<Rightarrow> (case mapE f xs of Inl e \<Rightarrow> Inl e | Inr ys \<Rightarrow> Inr (y # ys)))"

text \<open>\<^verbatim>\<open>last(xs)\<close> of \<^verbatim>\<open>utils.ts\<close>: \<^verbatim>\<open>undefined\<close> on the empty array.\<close>

definition last_opt :: "'a list \<Rightarrow> 'a option" where
  "last_opt xs = (if xs = [] then None else Some (last xs))"

text \<open>\<^verbatim>\<open>xs.indexOf(x)\<close>; \<^verbatim>\<open>None\<close> stands for \<^verbatim>\<open>-1\<close>.\<close>

fun indexOf :: "'a list \<Rightarrow> 'a \<Rightarrow> nat option" where
  "indexOf [] x = None"
| "indexOf (y # ys) x = (if y = x then Some 0 else map_option Suc (indexOf ys x))"

text \<open>
  \<^verbatim>\<open>infer(expr, monovars, internalTypes)\<close> and \<^verbatim>\<open>inferMany\<close>. The fresh-variable
  counter is the last argument and is returned with the result; the calls of
  \<^verbatim>\<open>generateUniqueTVar\<close> are in the order in which the source evaluates them. An
  exception is the value \<^verbatim>\<open>Inl\<close>. In the lambda and let cases
  \<^verbatim>\<open>last(body)!.info.type\<close> reads a property of \<^verbatim>\<open>undefined\<close> when the body is
  empty, which raises a \<^verbatim>\<open>TypeError\<close>.
\<close>

fun infer :: "unit expr \<Rightarrow> string list \<Rightarrow> InternalTypeEnvironment \<Rightarrow> nat
                \<Rightarrow> error + (Typed expr InferResult \<times> nat)"
and inferMany :: "unit expr list \<Rightarrow> string list \<Rightarrow> InternalTypeEnvironment \<Rightarrow> nat
                \<Rightarrow> error + (Typed expr list InferResult \<times> nat)"
where
  "infer (EUnknown l i) monovars internalTypes n =
     (let (t, n1) = generateUniqueTVar n;
          (eff, n2) = generateUniqueTVar n1
      in Inr (InferResult (EUnknown l (Typed t eff)) [] [], n2))"
| "infer (ENumber v l i) monovars internalTypes n =
     (let (eff, n1) = generateUniqueTVar n
      in Inr (InferResult (ENumber v l (Typed tNumber eff)) [] [], n1))"
| "infer (EString v l i) monovars internalTypes n =
     (let (eff, n1) = generateUniqueTVar n
      in Inr (InferResult (EString v l (Typed tString eff)) [] [], n1))"
| "infer (EVector vals l i) monovars internalTypes n =
     (case inferMany vals monovars internalTypes n of
        Inl e \<Rightarrow> Inl e
      | Inr (inferredValues, n1) \<Rightarrow>
          (let (t, n2) = generateUniqueTVar n1;
               (eff, n3) = generateUniqueTVar n2
           in Inr (InferResult
                (EVector (result inferredValues) l (Typed (tVector t) eff))
                (constraints inferredValues
                  @ map (\<lambda>e. constEqual e t) (result inferredValues)
                  @ map (\<lambda>e. constEffect e eff) (result inferredValues))
                (assumptions inferredValues), n3)))"
| "infer (ERecord fields ext l i) monovars internalTypes n =
     (case mapS (\<lambda>(label, v) k.
              case infer v monovars internalTypes k of
                Inl e \<Rightarrow> Inl e
              | Inr (r, k1) \<Rightarrow> Inr ((label, r), k1)) fields n of
        Inl e \<Rightarrow> Inl e
      | Inr (inferred, n1) \<Rightarrow>
          (case (case ext of
                   None \<Rightarrow> Inr (None, n1)
                 | Some x \<Rightarrow>
                     (case infer x monovars internalTypes n1 of
                        Inl e \<Rightarrow> Inl e
                      | Inr (r, k) \<Rightarrow> Inr (Some r, k))) of
             Inl e \<Rightarrow> Inl e
           | Inr (tailInferred, n2) \<Rightarrow>
               (let (tailRowType, n3) = generateUniqueTVar n2;
                    (eff, n4) = generateUniqueTVar n3;
                    (fresh, n5) = (case tailInferred of
                                     None \<Rightarrow> ([], n4)
                                   | Some ti \<Rightarrow> generateUniqueTVars (length inferred) n4)
                in Inr (InferResult
                     (ERecord (map (\<lambda>(label, r). (label, result r)) inferred)
                        (map_option result tailInferred) l
                        (Typed
                           (tRecord
                              (map (\<lambda>(label, r). (name label, type (info (result r)))) inferred)
                              (case tailInferred of None \<Rightarrow> emptyRow | Some ti \<Rightarrow> tailRowType))
                           eff))
                     (concat (map (\<lambda>(label, r). constraints r) inferred)
                       @ (case tailInferred of None \<Rightarrow> [] | Some ti \<Rightarrow> constraints ti)
                       @ (case tailInferred of
                            None \<Rightarrow> []
                          | Some ti \<Rightarrow>
                              [constEqual (result ti)
                                 (tRecord (zip (map (\<lambda>(label, r). name label) inferred) fresh)
                                    tailRowType)])
                       @ map (\<lambda>(label, r). constEffect (result r) eff) inferred
                       @ (case tailInferred of
                            None \<Rightarrow> []
                          | Some ti \<Rightarrow> [constEffect (result ti) eff]))
                     (concat (map (\<lambda>(label, r). assumptions r) inferred)
                       @ (case tailInferred of None \<Rightarrow> [] | Some ti \<Rightarrow> assumptions ti)),
                   n5))))"
| "infer (EVariableReference x l i) monovars internalTypes n =
     (let (t, n1) = generateUniqueTVar n;
          (eff, n2) = generateUniqueTVar n1;
          typedVar = EVariableReference x l (Typed t eff)
      in Inr (InferResult typedVar [] [typedVar], n2))"
| "infer (EConditional c t e l i) monovars internalTypes n =
     (case infer c monovars internalTypes n of
        Inl err \<Rightarrow> Inl err
      | Inr (condition, n1) \<Rightarrow>
     (case infer t monovars internalTypes n1 of
        Inl err \<Rightarrow> Inl err
      | Inr (consequent, n2) \<Rightarrow>
     (case infer e monovars internalTypes n2 of
        Inl err \<Rightarrow> Inl err
      | Inr (alternative, n3) \<Rightarrow>
          (let (tv, n4) = generateUniqueTVar n3;
               (eff, n5) = generateUniqueTVar n4
           in Inr (InferResult
                (EConditional (result condition) (result consequent) (result alternative) l
                   (Typed tv eff))
                (constraints condition @ constraints consequent @ constraints alternative
                  @ [constEqual (result condition) tBoolean,
                     constEqual (result consequent) tv,
                     constEqual (result alternative) tv,
                     constEffect (result condition) eff,
                     constEffect (result consequent) eff,
                     constEffect (result alternative) eff])
                (assumptions condition @ assumptions consequent @ assumptions alternative),
              n5)))))"
| "infer (EFunction positionalArgs body l i) monovars internalTypes n =
     (let fnargs = map name positionalArgs;
          (argtypes, n1) = generateUniqueTVars (length fnargs) n
      in case inferMany body (monovars @ map tvar_name argtypes) internalTypes n1 of
           Inl err \<Rightarrow> Inl err
         | Inr (b, n2) \<Rightarrow>
             (let (bodyEffect, n3) = generateUniqueTVar n2;
                  newConstraints =
                    map (\<lambda>v. case indexOf fnargs (node_name v) of
                                Some varIndex \<Rightarrow> constEqual v (argtypes ! varIndex))
                      (filter (\<lambda>v. node_name v \<in> set fnargs) (assumptions b))
                    @ map (\<lambda>form. constEffect form bodyEffect) (result b)
              in case last_opt (result b) of
                   None \<Rightarrow> Inl (TypeError ''Cannot read property 'info' of undefined'')
                 | Some lastForm \<Rightarrow>
                     (let (eff, n4) = generateUniqueTVar n3
                      in Inr (InferResult
                           (EFunction positionalArgs (result b) l
                              (Typed (tFn argtypes bodyEffect (type (info lastForm))) eff))
                           (constraints b @ newConstraints)
                           (filter (\<lambda>v. node_name v \<notin> set fnargs) (assumptions b)),
                         n4))))"
| "infer (EFunctionCall fn args l i) monovars internalTypes n =
     (case infer fn monovars internalTypes n of
        Inl err \<Rightarrow> Inl err
      | Inr (ifn, n1) \<Rightarrow>
     (case inferMany args monovars internalTypes n1 of
        Inl err \<Rightarrow> Inl err
      | Inr (iargs, n2) \<Rightarrow>
          (let (tTo, n3) = generateUniqueTVar n2;
               (eff, n4) = generateUniqueTVar n3;
               tfn = tFn (map (\<lambda>a. type (info a)) (result iargs)) eff tTo
           in Inr (InferResult
                (EFunctionCall (result ifn) (result iargs) l (Typed tTo eff))
                (constEqual (result ifn) tfn
                  # constraints ifn
                  @ constraints iargs
                  @ [constEffect (result ifn) eff]
                  @ map (\<lambda>a. constEffect a eff) (result iargs))
                (assumptions ifn @ assumptions iargs),
              n4))))"
| "infer (ELetBindings bindings body l i) monovars internalTypes n =
     (let vars = set (map (\<lambda>(variable, v). name variable) bindings);
          toBeBound = (\<lambda>vname. vname \<in> vars)
      in case mapS (\<lambda>(variable, v) k.
                 case infer v monovars internalTypes k of
                   Inl err \<Rightarrow> Inl err
                 | Inr (r, k1) \<Rightarrow> Inr ((variable, r), k1)) bindings n of
           Inl err \<Rightarrow> Inl err
         | Inr (bindingsInfo, n1) \<Rightarrow>
        (case inferMany body monovars internalTypes n1 of
           Inl err \<Rightarrow> Inl err
         | Inr (bodyInference, n2) \<Rightarrow>
             (let (eff, n3) = generateUniqueTVar n2
              in case last_opt (result bodyInference) of
                   None \<Rightarrow> Inl (TypeError ''Cannot read property 'info' of undefined'')
                 | Some lastForm \<Rightarrow>
                     Inr (InferResult
                       (ELetBindings (map (\<lambda>(variable, r). (variable, result r)) bindingsInfo)
                          (result bodyInference) l
                          (Typed (type (info lastForm)) eff))
                       (constraints bodyInference
                         @ concat (map (\<lambda>(variable, r). constraints r) bindingsInfo)
                         @ map (\<lambda>v. case find (\<lambda>(variable, r). name variable = node_name v)
                                             bindingsInfo of
                                       Some (variable, r) \<Rightarrow>
                                         constImplicitInstance v monovars
                                           (Value (type (info (result r)))))
                             (filter (\<lambda>v. toBeBound (node_name v)) (assumptions bodyInference))
                         @ map (\<lambda>(variable, r). constEffect (result r) (tEffect [])) bindingsInfo
                         @ map (\<lambda>form. constEffect form eff) (result bodyInference))
                       (filter (\<lambda>v. \<not> toBeBound (node_name v)) (assumptions bodyInference)
                         @ concat (map (\<lambda>(variable, r). assumptions r) bindingsInfo)),
                     n3))))"
| "infer (ETypeAnnotation typeWithWildcards v l i) monovars internalTypes n =
     (case infer v monovars internalTypes n of
        Inl err \<Rightarrow> Inl err
      | Inr (inferred, n1) \<Rightarrow>
          (let (t0, n2) = instantiate typeWithWildcards n1
           in case expandTypeAliases t0 internalTypes of
                None \<Rightarrow> Inl (RangeError ''Maximum call stack size exceeded'')
              | Some (Inl err) \<Rightarrow> Inl err
              | Some (Inr t) \<Rightarrow>
                  Inr (InferResult
                    (ETypeAnnotation typeWithWildcards (result inferred) l
                       (Typed t (effect (info (result inferred)))))
                    (constraints inferred @ [constEqual (result inferred) t])
                    (assumptions inferred),
                  n2)))"
| "infer (EDoBlock body returning l i) monovars internalTypes n =
     (case inferMany body monovars internalTypes n of
        Inl err \<Rightarrow> Inl err
      | Inr (b, n1) \<Rightarrow>
     (case infer returning monovars internalTypes n1 of
        Inl err \<Rightarrow> Inl err
      | Inr (ret, n2) \<Rightarrow>
          (let (eff, n3) = generateUniqueTVar n2
           in Inr (InferResult
                (EDoBlock (result b) (result ret) l (Typed (type (info (result ret))) eff))
                (constraints b @ constraints ret
                  @ map (\<lambda>form. constEffect form eff) (result b)
                  @ [constEffect (result ret) eff])
                (assumptions b @ assumptions ret),
              n3))))"
| "infer (EMatch v cases l i) monovars internalTypes n =
     (case infer v monovars internalTypes n of
        Inl err \<Rightarrow> Inl err
      | Inr (val, n1) \<Rightarrow>
     (case mapS (\<lambda>(label, variable, body) k.
              case inferMany body (monovars @ [name variable]) internalTypes k of
                Inl err \<Rightarrow> Inl err
              | Inr (r, k1) \<Rightarrow> Inr ((label, variable, r), k1)) cases n1 of
        Inl err \<Rightarrow> Inl err
      | Inr (cs, n2) \<Rightarrow>
          (let (t, n3) = generateUniqueTVar n2;
               (eff, n4) = generateUniqueTVar n3;
               (fresh, n5) = generateUniqueTVars (length cases) n4;
               variantTypes = zip (map (\<lambda>(label, variable, body). label) cases) fresh
           in case mapE (\<lambda>(label, variable, r).
                     case last_opt (result r) of
                       None \<Rightarrow> Inl (InvariantViolation ''Missing returning form!'')
                     | Some returningForm \<Rightarrow>
                         (case mapE (\<lambda>a.
                                  if node_name a = name variable then
                                    (case find (\<lambda>(lab, vt). lab = label) variantTypes of
                                       None \<Rightarrow> Inl (InvariantViolation
                                                  (''Unknown invariant case '' @ label))
                                     | Some (lab, vt) \<Rightarrow> Inr [constEqual a vt])
                                  else Inr []) (assumptions r) of
                            Inl err \<Rightarrow> Inl err
                          | Inr css \<Rightarrow> Inr (constEqual returningForm t # concat css))) cs of
                Inl err \<Rightarrow> Inl err
              | Inr caseConstraints \<Rightarrow>
                  Inr (InferResult
                    (EMatch (result val)
                       (map (\<lambda>(label, variable, r). (label, variable, result r)) cs) l
                       (Typed t eff))
                    (constraints val
                      @ concat (map (\<lambda>(label, variable, r). constraints r) cs)
                      @ [constEqual (result val) (tVariant variantTypes)]
                      @ concat caseConstraints)
                    (assumptions val
                      @ concat (map (\<lambda>(label, variable, r).
                                  filter (\<lambda>a. node_name a \<noteq> name variable) (assumptions r)) cs)),
                  n5))))"
| "inferMany exprs monovars internalTypes n =
     (case mapS (\<lambda>e k. infer e monovars internalTypes k) exprs n of
        Inl err \<Rightarrow> Inl err
      | Inr (results, n1) \<Rightarrow>
          Inr (InferResult (map result results)
                 (concat (map constraints results))
                 (concat (map assumptions results)), n1))"

declare inferMany.simps [simp del]

section \<open>Module forms\<close>

text \<open>
  A module form is an expression, a definition, an export or a type alias
  (\<^verbatim>\<open>node.alias\<close>, \<^verbatim>\<open>node.definition\<close>).
\<close>

datatype STypeAlias =
  STypeAlias (aliasId: Identifier) (aliasDefinition: ty) (aliasLocation: location)

datatype 'i Syntax =
    SExpression "'i expr"
  | SDefinition Identifier "'i expr" location
  | SExport "Identifier list" location
  | STypeAliasDecl STypeAlias

datatype 'i Module = Module (moduleBody: "'i Syntax list")

fun inferSyntax :: "unit Syntax \<Rightarrow> InternalTypeEnvironment \<Rightarrow> nat
                      \<Rightarrow> error + (Typed Syntax InferResult \<times> nat)" where
  "inferSyntax (SExpression e) internalTypes n =
     (case infer e [] internalTypes n of
        Inl err \<Rightarrow> Inl err
      | Inr (r, n1) \<Rightarrow>
          Inr (InferResult (SExpression (result r)) (constraints r) (assumptions r), n1))"
| "inferSyntax (SDefinition variable v l) internalTypes n =
     (case infer v [] internalTypes n of
        Inl err \<Rightarrow> Inl err
      | Inr (r, n1) \<Rightarrow>
          Inr (InferResult (SDefinition variable (result r) l) (constraints r) (assumptions r), n1))"
| "inferSyntax (SExport identifiers l) internalTypes n =
     Inr (InferResult (SExport identifiers l) [] [], n)"
| "inferSyntax (STypeAliasDecl a) internalTypes n =
     Inr (InferResult (STypeAliasDecl a) [] [], n)"

section \<open>Environments and leftover assumptions\<close>

datatype ExternalEnvironment =
  ExternalEnvironment (ext_variables: "string \<rightharpoonup> TypeSchema") (ext_types: "string \<rightharpoonup> ty")

datatype InternalEnvironment =
  InternalEnvironment (int_variables: "string \<rightharpoonup> ty") (int_types: InternalTypeEnvironment)

text \<open>
  The table of inline primitives (\<^verbatim>\<open>compiler/inline-primitives.ts\<close>) is not at
  hand: it is a parameter, mapping the name of each inline primitive to its type.
  \<^verbatim>\<open>isInlinePrimitive\<close> is membership in its domain and \<^verbatim>\<open>findInlinePrimitive\<close>
  its lookup.
\<close>

type_synonym InlinePrimitives = "string \<rightharpoonup> TypeSchema"

text \<open>
  \<^verbatim>\<open>lookupVariableType\<close> returns \<^verbatim>\<open>env.variables[varName]\<close> whenever that is
  truthy, which it also is for a name inherited from \<^verbatim>\<open>Object.prototype\<close>;
  \<^verbatim>\<open>None\<close> stands for \<^verbatim>\<open>null\<close>.
\<close>

definition lookupVariableType ::
  "InlinePrimitives \<Rightarrow> string \<Rightarrow> ExternalEnvironment \<Rightarrow> TypeSchema slot option" where
  "lookupVariableType inlinePrimitives varName env =
     (case getProperty (ext_variables env) varName of
        Some t \<Rightarrow> Some t
      | None \<Rightarrow>
          (case inlinePrimitives varName of
             Some prim \<Rightarrow> Some (Value prim)
           | None \<Rightarrow> None))"

text \<open>\<^verbatim>\<open>maybeMap(f, xs)\<close> of \<^verbatim>\<open>utils.ts\<close>: map and drop the null results.\<close>

definition maybeMap :: "('a \<Rightarrow> 'b option) \<Rightarrow> 'a list \<Rightarrow> 'b list" where
  "maybeMap f xs = List.map_filter f xs"

definition assumptionsToConstraints ::
  "InlinePrimitives \<Rightarrow> TAssumption list \<Rightarrow> ExternalEnvironment \<Rightarrow> TConstraint list" where
  "assumptionsToConstraints inlinePrimitives assumps env =
     maybeMap (\<lambda>a. case lookupVariableType inlinePrimitives (node_name a) env of
                     None \<Rightarrow> None
                   | Some t \<Rightarrow> Some (constExplicitInstance a t)) assumps"

text \<open>
  The solver (\<^verbatim>\<open>solve\<close> of \<^verbatim>\<open>infer-solver.ts\<close>) and
  \<^verbatim>\<open>applySubstitutionToExpr\<close> (\<^verbatim>\<open>infer-subst.ts\<close>) are not at hand; the functions
  that call them take them as parameters. The solver returns a substitution or
  throws.
\<close>

type_synonym Substitution = "string \<rightharpoonup> ty"

fun applySubstitutionToSyntax ::
  "(Typed expr \<Rightarrow> Substitution \<Rightarrow> Typed expr) \<Rightarrow> Typed Syntax \<Rightarrow> Substitution \<Rightarrow> Typed Syntax" where
  "applySubstitutionToSyntax applySubstitutionToExpr (SExpression e) env =
     SExpression (applySubstitutionToExpr e env)"
| "applySubstitutionToSyntax applySubstitutionToExpr (SDefinition variable v l) env =
     SDefinition variable (applySubstitutionToExpr v env) l"
| "applySubstitutionToSyntax applySubstitutionToExpr (SExport identifiers l) env =
     SExport identifiers l"
| "applySubstitutionToSyntax applySubstitutionToExpr (STypeAliasDecl a) env =
     STypeAliasDecl a"

definition inferType ::
  "(TConstraint list \<Rightarrow> Substitution \<Rightarrow> error + Substitution)
   \<Rightarrow> (Typed expr \<Rightarrow> Substitution \<Rightarrow> Typed expr)
   \<Rightarrow> InlinePrimitives
   \<Rightarrow> unit expr \<Rightarrow> ExternalEnvironment \<Rightarrow> InternalTypeEnvironment \<Rightarrow> nat
   \<Rightarrow> error + Typed expr" where
  "inferType solve applySubstitutionToExpr inlinePrimitives e env internalTypes n =
     (case infer e [] internalTypes n of
        Inl err \<Rightarrow> Inl err
      | Inr (r, n1) \<Rightarrow>
          (case solve (constraints r @ assumptionsToConstraints inlinePrimitives (assumptions r) env)
                  Map.empty of
             Inl err \<Rightarrow> Inl err
           | Inr s \<Rightarrow> Inr (applySubstitutionToExpr (result r) s)))"

text \<open>
  Modelled from the spec: \<^verbatim>\<open>difference(xs, ys)\<close> of \<^verbatim>\<open>utils.ts\<close> keeps the
  elements of \<^verbatim>\<open>xs\<close> that are not in \<^verbatim>\<open>ys\<close> ("everything else").
\<close>

definition difference :: "'a list \<Rightarrow> 'a list \<Rightarrow> 'a list" where
  "difference xs ys = filter (\<lambda>x. x \<notin> set ys) xs"

datatype GroupedAssumptions =
  GroupedAssumptions (internals: "TAssumption list") (externals: "TAssumption list")
    (unknowns: "TAssumption list")

definition groupAssumptions ::
  "InlinePrimitives \<Rightarrow> TAssumption list \<Rightarrow> InternalEnvironment \<Rightarrow> ExternalEnvironment
   \<Rightarrow> GroupedAssumptions" where
  "groupAssumptions inlinePrimitives assumps internalEnv externalEnv =
     (let ints = filter (\<lambda>v. hasProperty (int_variables internalEnv) (node_name v)) assumps;
          exts = filter (\<lambda>v. lookupVariableType inlinePrimitives (node_name v) externalEnv \<noteq> None)
                   assumps
      in GroupedAssumptions ints exts (difference assumps (ints @ exts)))"

section \<open>Cycle check on type aliases\<close>

text \<open>
  Modelled from the spec: \<^verbatim>\<open>listTypeConstants\<close> (\<^verbatim>\<open>type-utils.ts\<close> is not at hand)
  lists the constants mentioned in a type, by name.
\<close>

fun listTypeConstants :: "ty \<Rightarrow> string list" where
  "listTypeConstants (TConstant c) = [c]"
| "listTypeConstants (TApplication op args) =
     listTypeConstants op @ concat (map listTypeConstants args)"
| "listTypeConstants (TVar nm us) = []"
| "listTypeConstants REmpty = []"
| "listTypeConstants (RExtension label t r) = listTypeConstants t @ listTypeConstants r"

text \<open>\<^verbatim>\<open>xs.forEach(f)\<close> where \<^verbatim>\<open>f\<close> may throw.\<close>

fun forEachE :: "('a \<Rightarrow> error + unit) \<Rightarrow> 'a list \<Rightarrow> error + unit" where
  "forEachE f [] = Inr ()"
| "forEachE f (x # xs) = (case f x of Inl e \<Rightarrow> Inl e | Inr u \<Rightarrow> forEachE f xs)"

lemma forEachE_cong [fundef_cong]:
  "xs = ys \<Longrightarrow> (\<And>x. x \<in> set ys \<Longrightarrow> f x = g x) \<Longrightarrow> forEachE f xs = forEachE g ys"
  by (induction ys arbitrary: xs) (auto split: sum.splits)

fun join :: "string \<Rightarrow> string list \<Rightarrow> string" where
  "join sep [] = []"
| "join sep [x] = x"
| "join sep (x # y # ys) = x @ sep @ join sep (y # ys)"

lemma indexOf_None: "indexOf xs x = None \<longleftrightarrow> x \<notin> set xs"
  by (induction xs) auto

lemma find_SomeD: "find P xs = Some x \<Longrightarrow> x \<in> set xs \<and> P x"
  by (induction xs) (auto split: if_splits)

text \<open>
  The depth-first search \<^verbatim>\<open>visit(typeAlias, path)\<close> of \<^verbatim>\<open>checkCircularTypes\<close>,
  with the list of all aliases it closes over as first argument.
\<close>

function visit :: "STypeAlias list \<Rightarrow> STypeAlias \<Rightarrow> STypeAlias list \<Rightarrow> error + unit" where
  "visit allTypeAliases typeAlias path =
     (case indexOf path typeAlias of
        None \<Rightarrow>
          forEachE (\<lambda>dep. case dep of
                            None \<Rightarrow> Inr ()
                          | Some d \<Rightarrow> visit allTypeAliases d (path @ [typeAlias]))
            (map (\<lambda>ud. find (\<lambda>x. name (aliasId x) = ud) allTypeAliases)
               (listTypeConstants (aliasDefinition typeAlias)))
      | Some index \<Rightarrow>
          (let cycle = drop index path @ [typeAlias]
           in if length cycle = 1 then
                Inl (ErrorAt ''Recursive type aliases are not allowed.'' (aliasLocation typeAlias))
              else
                Inl (ErrorAt (''Cicular dependency in type aliases found'' @ [CHR 0x0A] @ ''  ''
                               @ join '' -> '' (map (\<lambda>s. name (aliasId s)) cycle) @ [CHR 0x0A])
                       (aliasLocation typeAlias))))"
  by pat_completeness auto

termination
proof (relation "measure (\<lambda>(allTypeAliases, typeAlias, path).
          2 * card (set allTypeAliases - set path)
          + (if typeAlias \<in> set allTypeAliases then 0 else 1))", goal_cases)
  case 1
  show ?case by simp
next
  case (2 allTypeAliases typeAlias path x d)
  then have notin: "typeAlias \<notin> set path" and din: "d \<in> set allTypeAliases"
    by (auto simp: indexOf_None dest: find_SomeD [OF sym])
  show ?case
  proof (cases "typeAlias \<in> set allTypeAliases")
    case True
    then have "set allTypeAliases - set (path @ [typeAlias]) \<subset> set allTypeAliases - set path"
      using notin by auto
    then have "card (set allTypeAliases - set (path @ [typeAlias])) < card (set allTypeAliases - set path)"
      by (intro psubset_card_mono) auto
    then show ?thesis using din True by simp
  next
    case False
    then have "set allTypeAliases - set (path @ [typeAlias]) = set allTypeAliases - set path"
      by auto
    then show ?thesis using din False by simp
  qed
qed

declare visit.simps [simp del]

definition checkCircularTypes :: "STypeAlias list \<Rightarrow> error + unit" where
  "checkCircularTypes allTypeAliases =
     forEachE (\<lambda>tAlias. visit allTypeAliases tAlias []) allTypeAliases"

section \<open>Module driver\<close>

datatype InferModuleResult =
  InferModuleResult (typedModule: "Typed Module") (moduleUnknowns: "TAssumption list")

definition typeAliasesOf :: "'i Syntax list \<Rightarrow> STypeAlias list" where
  "typeAliasesOf forms =
     List.map_filter (\<lambda>s. case s of STypeAliasDecl a \<Rightarrow> Some a | _ \<Rightarrow> None) forms"

definition internalTypesOf :: "'i Syntax list \<Rightarrow> InternalTypeEnvironment" where
  "internalTypesOf forms =
     foldl (\<lambda>env s. case s of
                      STypeAliasDecl a \<Rightarrow> env(name (aliasId a) \<mapsto> aliasDefinition a)
                    | _ \<Rightarrow> env) Map.empty forms"

definition internalVariablesOf :: "Typed Syntax list \<Rightarrow> (string \<rightharpoonup> ty)" where
  "internalVariablesOf forms =
     foldl (\<lambda>env s. case s of
                      SDefinition variable v l \<Rightarrow> env(name variable \<mapsto> type (info v))
                    | _ \<Rightarrow> env) Map.empty forms"

definition inferModule ::
  "(TConstraint list \<Rightarrow> Substitution \<Rightarrow> error + Substitution)
   \<Rightarrow> (Typed expr \<Rightarrow> Substitution \<Rightarrow> Typed expr)
   \<Rightarrow> InlinePrimitives
   \<Rightarrow> unit Module \<Rightarrow> ExternalEnvironment \<Rightarrow> nat
   \<Rightarrow> error + InferModuleResult" where
  "inferModule solve applySubstitutionToExpr inlinePrimitives m externalEnv n =
     (case checkCircularTypes (typeAliasesOf (moduleBody m)) of
        Inl err \<Rightarrow> Inl err
      | Inr u \<Rightarrow>
          (let internalTypes = internalTypesOf (moduleBody m)
           in case mapS (\<lambda>form k. inferSyntax form internalTypes k) (moduleBody m) n of
                Inl err \<Rightarrow> Inl err
              | Inr (bodyInferences, n1) \<Rightarrow>
                  (let body = map result bodyInferences;
                       internalEnv = InternalEnvironment (internalVariablesOf body) internalTypes;
                       assumps = groupAssumptions inlinePrimitives
                                   (concat (map assumptions bodyInferences)) internalEnv externalEnv;
                       cs = concat (map constraints bodyInferences)
                            @ assumptionsToConstraints inlinePrimitives (externals assumps) externalEnv
                            @ map (\<lambda>v. case getProperty (int_variables internalEnv) (node_name v) of
                                          Some t \<Rightarrow> constImplicitInstance v [] t)
                                (internals assumps)
                   in case solve cs Map.empty of
                        Inl err \<Rightarrow> Inl err
                      | Inr solution \<Rightarrow>
                          Inr (InferModuleResult
                                 (Module (map (\<lambda>s. applySubstitutionToSyntax
                                                       applySubstitutionToExpr s solution) body))
                                 (map (\<lambda>v. applySubstitutionToExpr v solution)
                                    (unknowns assumps))))))"

text \<open>
  The list bound to \<^verbatim>\<open>constraints\<close> in \<^verbatim>\<open>inferModule\<close>, which is handed to the
  solver.
\<close>

definition moduleConstraints ::
  "InlinePrimitives \<Rightarrow> Typed Syntax InferResult list \<Rightarrow> InternalEnvironment
   \<Rightarrow> ExternalEnvironment \<Rightarrow> TConstraint list" where
  "moduleConstraints inlinePrimitives bodyInferences internalEnv externalEnv =
     (let assumps = groupAssumptions inlinePrimitives
                      (concat (map assumptions bodyInferences)) internalEnv externalEnv
      in concat (map constraints bodyInferences)
         @ assumptionsToConstraints inlinePrimitives (externals assumps) externalEnv
         @ map (\<lambda>v. case getProperty (int_variables internalEnv) (node_name v) of
                       Some t \<Rightarrow> constImplicitInstance v [] t)
             (internals assumps))"

section \<open>Well-formed bodies\<close>

text \<open>
  The bodies of all lambdas, lets and match cases of an expression are non-empty.
\<close>

fun nonEmptyBodies :: "'i expr \<Rightarrow> bool" where
  "nonEmptyBodies (EUnknown l i) = True"
| "nonEmptyBodies (ENumber v l i) = True"
| "nonEmptyBodies (EString v l i) = True"
| "nonEmptyBodies (EVector vals l i) = list_all nonEmptyBodies vals"
| "nonEmptyBodies (ERecord fields ext l i) =
     (list_all (\<lambda>(label, v). nonEmptyBodies v) fields
      \<and> (case ext of None \<Rightarrow> True | Some x \<Rightarrow> nonEmptyBodies x))"
| "nonEmptyBodies (EVariableReference x l i) = True"
| "nonEmptyBodies (EConditional c t e l i) =
     (nonEmptyBodies c \<and> nonEmptyBodies t \<and> nonEmptyBodies e)"
| "nonEmptyBodies (EFunction positionalArgs b l i) = (b \<noteq> [] \<and> list_all nonEmptyBodies b)"
| "nonEmptyBodies (EFunctionCall fn args l i) = (nonEmptyBodies fn \<and> list_all nonEmptyBodies args)"
| "nonEmptyBodies (ELetBindings bindings b l i) =
     (list_all (\<lambda>(variable, v). nonEmptyBodies v) bindings
      \<and> b \<noteq> [] \<and> list_all nonEmptyBodies b)"
| "nonEmptyBodies (ETypeAnnotation typeWithWildcards v l i) = nonEmptyBodies v"
| "nonEmptyBodies (EDoBlock b returning l i) = (list_all nonEmptyBodies b \<and> nonEmptyBodies returning)"
| "nonEmptyBodies (EMatch v cases l i) =
     (nonEmptyBodies v
      \<and> list_all (\<lambda>(label, variable, b). b \<noteq> [] \<and> list_all nonEmptyBodies b) cases)"

fun nonEmptyBodiesSyntax :: "'i Syntax \<Rightarrow> bool" where
  "nonEmptyBodiesSyntax (SExpression e) = nonEmptyBodies e"
| "nonEmptyBodiesSyntax (SDefinition variable v l) = nonEmptyBodies v"
| "nonEmptyBodiesSyntax (SExport identifiers l) = True"
| "nonEmptyBodiesSyntax (STypeAliasDecl a) = True"

section \<open>Specification of alias expansion\<close>

text \<open>
  The graph of alias references of an environment: an edge from the alias \<^verbatim>\<open>a\<close> to
  every declared alias that the definition of \<^verbatim>\<open>a\<close> mentions (stored as the pair
  of the mentioned alias and \<^verbatim>\<open>a\<close>).
\<close>

definition aliasReferences :: "InternalTypeEnvironment \<Rightarrow> (string \<times> string) set" where
  "aliasReferences env =
     {(b, a). \<exists>d. env a = Some d \<and> b \<in> set (listTypeConstants d) \<and> b \<in> dom env}"

text \<open>
  The expansion as the spec words it: a constant declared in the environment is
  replaced by the expansion of its definition, a constant outside the environment
  stays as it is, and the other forms are expanded componentwise.
\<close>

inductive expandsTo :: "InternalTypeEnvironment \<Rightarrow> ty \<Rightarrow> ty \<Rightarrow> bool" for env where
  opaque: "env nm = None \<Longrightarrow> expandsTo env (TConstant nm) (TConstant nm)"
| declared: "env nm = Some d \<Longrightarrow> expandsTo env d d' \<Longrightarrow> expandsTo env (TConstant nm) d'"
| variable: "expandsTo env (TVar nm us) (TVar nm us)"
| empty_row: "expandsTo env REmpty REmpty"
| row_extension: "expandsTo env t t' \<Longrightarrow> expandsTo env r r'
     \<Longrightarrow> expandsTo env (RExtension label t r) (RExtension label t' r')"
| application: "expandsTo env op op' \<Longrightarrow> list_all2 (expandsTo env) args args'
     \<Longrightarrow> expandsTo env (TApplication op args) (TApplication op' args')"

text \<open>The function that \<^verbatim>\<open>expandTypeAliases\<close> passes to \<^verbatim>\<open>transformRecurType\<close>.\<close>

definition expandStep :: "InternalTypeEnvironment \<Rightarrow> ty \<Rightarrow> (error + ty) option" where
  "expandStep env t' =
     (case t' of
         TConstant nm \<Rightarrow>
           (case getProperty env nm of
              None \<Rightarrow> Some (Inr t')
            | Some d \<Rightarrow>
                (case d of
                   Value def \<Rightarrow> expandTypeAliases def env
                 | PrototypeMember member \<Rightarrow>
                     Some (Inl (TypeError ''Cannot read property 'tag' of undefined''))))
       | _ \<Rightarrow> Some (Inr t'))"

text \<open>
  A type is free of inherited names for an environment when every constant in it that
  bears the name of a member of \<^verbatim>\<open>Object.prototype\<close> is declared in the
  environment, where the own property hides the inherited one.
\<close>

definition prototypeFree :: "InternalTypeEnvironment \<Rightarrow> ty \<Rightarrow> bool" where
  "prototypeFree env t =
     list_all (\<lambda>c. c \<notin> set objectPrototypeMembers \<or> env c \<noteq> None) (listTypeConstants t)"

text \<open>
  The annotations of an expression are free of inherited names: every type written in
  a \<^verbatim>\<open>(the T e)\<close> of the expression is.
\<close>

fun annotationsPrototypeFree :: "InternalTypeEnvironment \<Rightarrow> 'i expr \<Rightarrow> bool" where
  "annotationsPrototypeFree env (EUnknown l i) = True"
| "annotationsPrototypeFree env (ENumber v l i) = True"
| "annotationsPrototypeFree env (EString v l i) = True"
| "annotationsPrototypeFree env (EVector vals l i) = list_all (annotationsPrototypeFree env) vals"
| "annotationsPrototypeFree env (ERecord fields ext l i) =
     (list_all (\<lambda>(label, v). annotationsPrototypeFree env v) fields
      \<and> (case ext of None \<Rightarrow> True | Some x \<Rightarrow> annotationsPrototypeFree env x))"
| "annotationsPrototypeFree env (EVariableReference x l i) = True"
| "annotationsPrototypeFree env (EConditional c t e l i) =
     (annotationsPrototypeFree env c \<and> annotationsPrototypeFree env t
      \<and> annotationsPrototypeFree env e)"
| "annotationsPrototypeFree env (EFunction positionalArgs b l i) =
     list_all (annotationsPrototypeFree env) b"
| "annotationsPrototypeFree env (EFunctionCall fn args l i) =
     (annotationsPrototypeFree env fn \<and> list_all (annotationsPrototypeFree env) args)"
| "annotationsPrototypeFree env (ELetBindings bindings b l i) =
     (list_all (\<lambda>(variable, v). annotationsPrototypeFree env v) bindings
      \<and> list_all (annotationsPrototypeFree env) b)"
| "annotationsPrototypeFree env (ETypeAnnotation typeWithWildcards v l i) =
     (prototypeFree env (wildcardBody typeWithWildcards) \<and> annotationsPrototypeFree env v)"
| "annotationsPrototypeFree env (EDoBlock b returning l i) =
     (list_all (annotationsPrototypeFree env) b \<and> annotationsPrototypeFree env returning)"
| "annotationsPrototypeFree env (EMatch v cases l i) =
     (annotationsPrototypeFree env v
      \<and> list_all (\<lambda>(label, variable, b). list_all (annotationsPrototypeFree env) b) cases)"

fun annotationsPrototypeFreeSyntax :: "InternalTypeEnvironment \<Rightarrow> 'i Syntax \<Rightarrow> bool" where
  "annotationsPrototypeFreeSyntax env (SExpression e) = annotationsPrototypeFree env e"
| "annotationsPrototypeFreeSyntax env (SDefinition variable v l) = annotationsPrototypeFree env v"
| "annotationsPrototypeFreeSyntax env (SExport identifiers l) = True"
| "annotationsPrototypeFreeSyntax env (STypeAliasDecl a) = True"

text \<open>
  The graph that \<^verbatim>\<open>checkCircularTypes\<close> walks: an edge from an alias declaration
  to the declaration that \<^verbatim>\<open>find\<close> gives for a constant of its definition.
\<close>

definition declEdges :: "STypeAlias list \<Rightarrow> (STypeAlias \<times> STypeAlias) set" where
  "declEdges allTypeAliases =
     {(a, d). \<exists>ud \<in> set (listTypeConstants (aliasDefinition a)).
                find (\<lambda>x. name (aliasId x) = ud) allTypeAliases = Some d}"

text \<open>The environment that a list of alias declarations builds, the last one winning.\<close>

definition aliasTable :: "STypeAlias list \<Rightarrow> InternalTypeEnvironment" where
  "aliasTable aliases =
     foldl (\<lambda>env a. env(name (aliasId a) \<mapsto> aliasDefinition a)) Map.empty aliases"

section \<open>Occurrences of type variables\<close>

text \<open>
  The names of the type variables of a type, of the annotations of a typed tree, and
  of a constraint (the typed node it carries, its type or scheme, and the monovars of
  an implicit instance).
\<close>

fun typeVariables :: "ty \<Rightarrow> string set" where
  "typeVariables (TConstant c) = {}"
| "typeVariables (TApplication op args) = typeVariables op \<union> (\<Union>a \<in> set args. typeVariables a)"
| "typeVariables (TVar nm us) = {nm}"
| "typeVariables REmpty = {}"
| "typeVariables (RExtension label t r) = typeVariables t \<union> typeVariables r"

definition infoVars :: "Typed \<Rightarrow> string set" where
  "infoVars i = typeVariables (type i) \<union> typeVariables (effect i)"

definition exprVars :: "Typed expr \<Rightarrow> string set" where
  "exprVars e = (\<Union>i \<in> set_expr e. infoVars i)"

fun constraintVars :: "TConstraint \<Rightarrow> string set" where
  "constraintVars (constEqual e t) = exprVars e \<union> typeVariables t"
| "constraintVars (constEffect e t) = exprVars e \<union> typeVariables t"
| "constraintVars (constImplicitInstance e monovars (Value t)) =
     exprVars e \<union> set monovars \<union> typeVariables t"
| "constraintVars (constImplicitInstance e monovars (PrototypeMember member)) =
     exprVars e \<union> set monovars"
| "constraintVars (constExplicitInstance e (Value s)) =
     exprVars e \<union> set (tvars s) \<union> typeVariables (mono s)"
| "constraintVars (constExplicitInstance e (PrototypeMember member)) = exprVars e"

text \<open>
  The names an expression brings into inference: the type variables written in its
  annotations and the names of its match variables, which \<^verbatim>\<open>infer\<close> adds to the
  monovars.
\<close>

fun inputNames :: "'i expr \<Rightarrow> string set" where
  "inputNames (EUnknown l i) = {}"
| "inputNames (ENumber v l i) = {}"
| "inputNames (EString v l i) = {}"
| "inputNames (EVector vals l i) = (\<Union>v \<in> set vals. inputNames v)"
| "inputNames (ERecord fields ext l i) =
     (\<Union>(label, v) \<in> set fields. inputNames v)
     \<union> (case ext of None \<Rightarrow> {} | Some x \<Rightarrow> inputNames x)"
| "inputNames (EVariableReference x l i) = {}"
| "inputNames (EConditional c t e l i) = inputNames c \<union> inputNames t \<union> inputNames e"
| "inputNames (EFunction positionalArgs b l i) = (\<Union>e \<in> set b. inputNames e)"
| "inputNames (EFunctionCall fn args l i) = inputNames fn \<union> (\<Union>a \<in> set args. inputNames a)"
| "inputNames (ELetBindings bindings b l i) =
     (\<Union>(variable, v) \<in> set bindings. inputNames v) \<union> (\<Union>e \<in> set b. inputNames e)"
| "inputNames (ETypeAnnotation typeWithWildcards v l i) =
     typeVariables (wildcardBody typeWithWildcards) \<union> inputNames v"
| "inputNames (EDoBlock b returning l i) = (\<Union>e \<in> set b. inputNames e) \<union> inputNames returning"
| "inputNames (EMatch v cases l i) =
     inputNames v
     \<union> (\<Union>(label, variable, b) \<in> set cases. {name variable} \<union> (\<Union>e \<in> set b. inputNames e))"

definition envVars :: "InternalTypeEnvironment \<Rightarrow> string set" where
  "envVars env = (\<Union>t \<in> ran env. typeVariables t)"

definition below :: "nat \<Rightarrow> string set \<Rightarrow> bool" where
  "below n X \<longleftrightarrow> (\<forall>k. tvarName k \<in> X \<longrightarrow> k \<le> n)"

text \<open>
  \<^verbatim>\<open>below n X\<close>: the set of names holds no name that the counter generates after
  \<^verbatim>\<open>n\<close>.
\<close>

definition outVars :: "Typed expr InferResult \<Rightarrow> string set" where
  "outVars r = exprVars (result r)
               \<union> (\<Union>c \<in> set (constraints r). constraintVars c)
               \<union> (\<Union>a \<in> set (assumptions r). exprVars a)"

definition outVarsMany :: "Typed expr list InferResult \<Rightarrow> string set" where
  "outVarsMany r = (\<Union>e \<in> set (result r). exprVars e)
               \<union> (\<Union>c \<in> set (constraints r). constraintVars c)
               \<union> (\<Union>a \<in> set (assumptions r). exprVars a)"

definition wsVars :: "(string \<times> ty) list \<Rightarrow> string set" where
  "wsVars ws = (\<Union>p \<in> set ws. typeVariables (snd p))"

section \<open>Auxiliary lemmas\<close>

definition expandsWell :: "InternalTypeEnvironment \<Rightarrow> ty \<Rightarrow> ty \<Rightarrow> bool" where
  "expandsWell env t t' \<longleftrightarrow> expandsTo env t t' \<and> set (listTypeConstants t') \<inter> dom env = {}"

lemma getProperty_own: "obj key = Some v \<Longrightarrow> getProperty obj key = Some (Value v)"
  by (simp add: getProperty_def)

lemma getProperty_absent:
  "obj key = None \<Longrightarrow> key \<notin> set objectPrototypeMembers \<Longrightarrow> getProperty obj key = None"
  by (simp add: getProperty_def)

lemma getProperty_inherited:
  "obj key = None \<Longrightarrow> key \<in> set objectPrototypeMembers
   \<Longrightarrow> getProperty obj key = Some (PrototypeMember key)"
  by (simp add: getProperty_def)

lemma expandStep_simps:
  "expandStep env (TConstant nm) =
     (case getProperty env nm of
        None \<Rightarrow> Some (Inr (TConstant nm))
      | Some d \<Rightarrow>
          (case d of
             Value def \<Rightarrow> expandTypeAliases def env
           | PrototypeMember member \<Rightarrow>
               Some (Inl (TypeError ''Cannot read property 'tag' of undefined''))))"
  "expandStep env (TApplication op args) = Some (Inr (TApplication op args))"
  "expandStep env (TVar v us) = Some (Inr (TVar v us))"
  "expandStep env REmpty = Some (Inr REmpty)"
  "expandStep env (RExtension label t r) = Some (Inr (RExtension label t r))"
  by (simp_all add: expandStep_def)

lemma expandTypeAliases_unfold:
  "expandTypeAliases t env = transformRecurType t (expandStep env)"
  by (subst expandTypeAliases.simps) (simp add: expandStep_def [abs_def])

lemma bindO_simps [simp]:
  "bindO None f = None"
  "bindO (Some (Inl e)) f = Some (Inl e)"
  "bindO (Some (Inr x)) f = f x"
  by (simp_all add: bindO_def)

lemma mapO_Some:
  assumes "\<forall>x \<in> set xs. \<exists>y. f x = Some (Inr y) \<and> P x y"
  shows "\<exists>ys. mapO f xs = Some (Inr ys) \<and> list_all2 P xs ys"
  using assms
proof (induction xs)
  case Nil
  then show ?case by simp
next
  case (Cons x xs)
  then obtain y ys where "f x = Some (Inr y)" "P x y" "mapO f xs = Some (Inr ys)"
    "list_all2 P xs ys"
    by auto
  then show ?case by auto
qed

lemma transformRecurType_expands_gen:
  assumes "\<forall>c \<in> set (listTypeConstants t). Q c"
    and q: "\<And>c d. Q c \<Longrightarrow> env c = Some d \<Longrightarrow>
              \<exists>d'. expandTypeAliases d env = Some (Inr d') \<and> expandsWell env d d'"
    and p: "\<And>c. Q c \<Longrightarrow> env c = None \<Longrightarrow> c \<notin> set objectPrototypeMembers"
  shows "\<exists>t'. transformRecurType t (expandStep env) = Some (Inr t') \<and> expandsWell env t t'"
  using assms(1)
proof (induction t)
  case (TConstant c)
  from TConstant have qc: "Q c" by simp
  show ?case
  proof (cases "env c")
    case None
    from p [OF qc None] None have "getProperty env c = None" by (simp add: getProperty_absent)
    with None show ?thesis
      by (auto simp: expandStep_simps expandsWell_def intro: expandsTo.intros)
  next
    case (Some d)
    from q [OF qc Some] obtain d' where
      "expandTypeAliases d env = Some (Inr d')" "expandsWell env d d'"
      by blast
    with Some show ?thesis
      by (auto simp: expandStep_simps getProperty_own expandsWell_def intro: expandsTo.intros)
  qed
next
  case (TApplication op args)
  have hop: "\<forall>c \<in> set (listTypeConstants op). Q c"
    using TApplication.prems by simp
  from TApplication.IH(1) [OF hop] obtain op' where
    op: "transformRecurType op (expandStep env) = Some (Inr op')" "expandsWell env op op'"
    by blast
  have "\<forall>a \<in> set args. \<exists>a'. transformRecurType a (expandStep env) = Some (Inr a')
          \<and> expandsWell env a a'"
  proof
    fix a assume a: "a \<in> set args"
    have "\<forall>c \<in> set (listTypeConstants a). Q c"
      using TApplication.prems a by auto
    from TApplication.IH(2) [OF a this]
    show "\<exists>a'. transformRecurType a (expandStep env) = Some (Inr a') \<and> expandsWell env a a'" .
  qed
  from mapO_Some [OF this] obtain args' where
    args: "mapO (\<lambda>a. transformRecurType a (expandStep env)) args = Some (Inr args')"
      "list_all2 (expandsWell env) args args'"
    by blast
  have l2: "list_all2 (expandsTo env) args args'"
    using args(2) by (rule list_all2_mono) (simp add: expandsWell_def)
  have cs: "\<forall>a' \<in> set args'. set (listTypeConstants a') \<inter> dom env = {}"
  proof
    fix a' assume "a' \<in> set args'"
    then obtain i where i: "i < length args'" "args' ! i = a'"
      by (auto simp: in_set_conv_nth)
    with args(2) have "expandsWell env (args ! i) a'"
      by (auto simp: list_all2_conv_all_nth)
    then show "set (listTypeConstants a') \<inter> dom env = {}"
      by (simp add: expandsWell_def)
  qed
  show ?case
    using op args(1) l2 cs
    by (auto simp: expandStep_simps expandsWell_def intro: expandsTo.intros)
next
  case (TVar nm us)
  show ?case by (auto simp: expandStep_simps expandsWell_def intro: expandsTo.intros)
next
  case REmpty
  show ?case by (auto simp: expandStep_simps expandsWell_def intro: expandsTo.intros)
next
  case (RExtension label t r)
  have ht: "\<forall>c \<in> set (listTypeConstants t). Q c"
    and hr: "\<forall>c \<in> set (listTypeConstants r). Q c"
    using RExtension.prems by simp_all
  from RExtension.IH(1) [OF ht] RExtension.IH(2) [OF hr] obtain t' r' where
    "transformRecurType t (expandStep env) = Some (Inr t')" "expandsWell env t t'"
    "transformRecurType r (expandStep env) = Some (Inr r')" "expandsWell env r r'"
    by blast
  then show ?case
    by (auto simp: expandStep_simps expandsWell_def intro: expandsTo.intros)
qed

lemma transformRecurType_expands:
  assumes "\<forall>c \<in> set (listTypeConstants t).
             (env c = None \<longrightarrow> c \<notin> set objectPrototypeMembers)
             \<and> (\<forall>d. env c = Some d \<longrightarrow>
                  (\<exists>d'. expandTypeAliases d env = Some (Inr d') \<and> expandsWell env d d'))"
  shows "\<exists>t'. transformRecurType t (expandStep env) = Some (Inr t') \<and> expandsWell env t t'"
  by (rule transformRecurType_expands_gen
        [where Q = "\<lambda>c. (env c = None \<longrightarrow> c \<notin> set objectPrototypeMembers)
             \<and> (\<forall>d. env c = Some d \<longrightarrow>
                  (\<exists>d'. expandTypeAliases d env = Some (Inr d') \<and> expandsWell env d d'))"])
     (use assms in blast)+

lemma aliasReferences_finite: "finite (dom env) \<Longrightarrow> finite (aliasReferences env)"
  by (rule finite_subset [of _ "dom env \<times> dom env"]) (auto simp: aliasReferences_def)

lemma prototypeFree_iff:
  "prototypeFree env t \<longleftrightarrow>
     (\<forall>c \<in> set (listTypeConstants t). env c = None \<longrightarrow> c \<notin> set objectPrototypeMembers)"
  by (auto simp: prototypeFree_def list_all_iff)

lemma alias_definitions_expand:
  assumes fin: "finite (dom env)" and acyc: "acyclic (aliasReferences env)"
    and pf: "\<forall>d \<in> ran env. prototypeFree env d"
  shows "env a = Some d \<Longrightarrow> \<exists>d'. expandTypeAliases d env = Some (Inr d') \<and> expandsWell env d d'"
proof -
  have wf: "wf (aliasReferences env)"
    using aliasReferences_finite [OF fin] acyc by (rule finite_acyclic_wf)
  have "\<forall>d. env a = Some d \<longrightarrow>
          (\<exists>d'. expandTypeAliases d env = Some (Inr d') \<and> expandsWell env d d')"
    using wf
  proof (induction a rule: wf_induct_rule)
    case (less a)
    show ?case
    proof (intro allI impI)
      fix d assume d: "env a = Some d"
      then have "prototypeFree env d" using pf by (auto simp: ran_def)
      then have plain: "\<forall>c \<in> set (listTypeConstants d).
                          env c = None \<longrightarrow> c \<notin> set objectPrototypeMembers"
        by (simp add: prototypeFree_iff)
      have "\<forall>c \<in> set (listTypeConstants d).
             (env c = None \<longrightarrow> c \<notin> set objectPrototypeMembers)
             \<and> (\<forall>dc. env c = Some dc \<longrightarrow>
                  (\<exists>d'. expandTypeAliases dc env = Some (Inr d') \<and> expandsWell env dc d'))"
      proof (intro ballI conjI allI impI)
        fix c assume "c \<in> set (listTypeConstants d)" "env c = None"
        with plain show "c \<notin> set objectPrototypeMembers" by blast
      next
        fix c dc assume c: "c \<in> set (listTypeConstants d)" and dc: "env c = Some dc"
        then have "(c, a) \<in> aliasReferences env" using d by (auto simp: aliasReferences_def)
        from less [OF this] dc
        show "\<exists>d'. expandTypeAliases dc env = Some (Inr d') \<and> expandsWell env dc d'" by blast
      qed
      from transformRecurType_expands [OF this]
      show "\<exists>d'. expandTypeAliases d env = Some (Inr d') \<and> expandsWell env d d'"
        by (simp add: expandTypeAliases_unfold)
    qed
  qed
  then show "env a = Some d \<Longrightarrow>
               \<exists>d'. expandTypeAliases d env = Some (Inr d') \<and> expandsWell env d d'"
    by blast
qed

lemma expandTypeAliases_total:
  assumes "finite (dom env)" and "acyclic (aliasReferences env)"
    and "\<forall>d \<in> ran env. prototypeFree env d" and "prototypeFree env t"
  shows "\<exists>t'. expandTypeAliases t env = Some (Inr t') \<and> expandsWell env t t'"
proof -
  have "\<forall>c \<in> set (listTypeConstants t).
             (env c = None \<longrightarrow> c \<notin> set objectPrototypeMembers)
             \<and> (\<forall>d. env c = Some d \<longrightarrow>
                  (\<exists>d'. expandTypeAliases d env = Some (Inr d') \<and> expandsWell env d d'))"
    using alias_definitions_expand [OF assms(1-3)] assms(4) by (simp add: prototypeFree_iff)
  from transformRecurType_expands [OF this] show ?thesis
    by (simp add: expandTypeAliases_unfold)
qed


lemma mapS_length: "mapS f xs n = Inr (ys, n') \<Longrightarrow> length ys = length xs"
  by (induction xs arbitrary: n ys) (auto split: sum.splits prod.splits)

lemma mapS_nth:
  "mapS f xs n = Inr (ys, n') \<Longrightarrow> j < length xs \<Longrightarrow> \<exists>k k'. f (xs ! j) k = Inr (ys ! j, k')"
proof (induction xs arbitrary: n ys j)
  case Nil
  then show ?case by simp
next
  case (Cons x xs)
  from Cons.prems(1) obtain y n1 ys' where
    fx: "f x n = Inr (y, n1)" and rest: "mapS f xs n1 = Inr (ys', n')" and ys: "ys = y # ys'"
    by (auto split: sum.splits prod.splits)
  show ?case
  proof (cases j)
    case 0
    then show ?thesis using fx ys by auto
  next
    case (Suc j')
    then have "j' < length xs" using Cons.prems(2) by simp
    from Cons.IH [OF rest this] show ?thesis using Suc ys by simp
  qed
qed

lemma indexOf_Some_less: "indexOf xs x = Some i \<Longrightarrow> i < length xs \<and> xs ! i = x"
  by (induction xs arbitrary: i) (auto split: if_splits)

lemma visit_never_recursive_message:
  "visit allTypeAliases typeAlias path \<noteq> Inl (ErrorAt ''Recursive type aliases are not allowed.'' loc)"
proof (induction allTypeAliases typeAlias path rule: visit.induct)
  case (1 allTypeAliases typeAlias path)
  have fe: "\<And>f xs e. forEachE f xs = Inl e \<Longrightarrow> \<exists>x \<in> set xs. f x = Inl e"
  proof -
    fix f :: "'a \<Rightarrow> error + unit" and xs e
    show "forEachE f xs = Inl e \<Longrightarrow> \<exists>x \<in> set xs. f x = Inl e"
      by (induction xs) (auto split: sum.splits)
  qed
  show ?case
  proof (cases "indexOf path typeAlias")
    case None
    show ?thesis
    proof
      assume a: "visit allTypeAliases typeAlias path = Inl (ErrorAt ''Recursive type aliases are not allowed.'' loc)"
      from a None have "forEachE (\<lambda>dep. case dep of
                            None \<Rightarrow> Inr ()
                          | Some d \<Rightarrow> visit allTypeAliases d (path @ [typeAlias]))
            (map (\<lambda>ud. find (\<lambda>x. name (aliasId x) = ud) allTypeAliases)
               (listTypeConstants (aliasDefinition typeAlias)))
           = Inl (ErrorAt ''Recursive type aliases are not allowed.'' loc)"
        by (subst (asm) visit.simps) simp
      from this obtain dep where
        dep: "dep \<in> set (map (\<lambda>ud. find (\<lambda>x. name (aliasId x) = ud) allTypeAliases)
               (listTypeConstants (aliasDefinition typeAlias)))"
        and err: "(case dep of None \<Rightarrow> Inr () | Some d \<Rightarrow> visit allTypeAliases d (path @ [typeAlias]))
                = Inl (ErrorAt ''Recursive type aliases are not allowed.'' loc)"
        by (blast dest!: fe)
      show False
      proof (cases dep)
        case dnone: None
        from err dnone show False by simp
      next
        case dsome: (Some d)
        from 1 [OF None dep dsome] err dsome show False by simp
      qed
    qed
  next
    case (Some index)
    then show ?thesis using indexOf_Some_less [OF Some]
      by (subst visit.simps) (simp add: Let_def)
  qed
qed

lemma mapS_fst:
  assumes "mapS (\<lambda>(x, v) k. case f v k of Inl err \<Rightarrow> Inl err | Inr (r, k1) \<Rightarrow> Inr ((x, r), k1)) xs n
           = Inr (ys, n')"
  shows "map fst ys = map fst xs"
  using assms
  by (induction xs arbitrary: n ys) (auto split: sum.splits prod.splits)

lemma find_first:
  "j < length xs \<Longrightarrow> P (xs ! j) \<Longrightarrow> (\<forall>j' < j. \<not> P (xs ! j')) \<Longrightarrow> find P xs = Some (xs ! j)"
  by (auto simp: find_Some_iff)

lemma inferModule_InrD:
  assumes "inferModule solve applySubstitutionToExpr inlinePrimitives m externalEnv n = Inr res"
  shows "\<exists>bodyInferences n1 solution.
           checkCircularTypes (typeAliasesOf (moduleBody m)) = Inr ()
         \<and> mapS (\<lambda>form k. inferSyntax form (internalTypesOf (moduleBody m)) k) (moduleBody m) n
             = Inr (bodyInferences, n1)
         \<and> solve (moduleConstraints inlinePrimitives bodyInferences
                    (InternalEnvironment (internalVariablesOf (map result bodyInferences))
                       (internalTypesOf (moduleBody m)))
                    externalEnv)
               Map.empty = Inr solution
         \<and> res = InferModuleResult
                   (Module (map (\<lambda>s. applySubstitutionToSyntax applySubstitutionToExpr s solution)
                              (map result bodyInferences)))
                   (map (\<lambda>v. applySubstitutionToExpr v solution)
                      (unknowns (groupAssumptions inlinePrimitives
                          (concat (map assumptions bodyInferences))
                          (InternalEnvironment (internalVariablesOf (map result bodyInferences))
                             (internalTypesOf (moduleBody m)))
                          externalEnv)))"
proof (cases "checkCircularTypes (typeAliasesOf (moduleBody m))")
  case (Inl e)
  with assms show ?thesis by (simp add: inferModule_def)
next
  case chk: (Inr u)
  show ?thesis
  proof (cases "mapS (\<lambda>form k. inferSyntax form (internalTypesOf (moduleBody m)) k) (moduleBody m) n")
    case (Inl e)
    with assms chk show ?thesis by (simp add: inferModule_def Let_def)
  next
    case (Inr p)
    obtain bodyInferences n1 where p: "p = (bodyInferences, n1)" by (cases p)
    show ?thesis
      using assms chk Inr p
      by (simp add: inferModule_def moduleConstraints_def Let_def split: sum.splits)
  qed
qed

lemma lookupVariableType_None:
  "lookupVariableType inlinePrimitives x env = None
   \<longleftrightarrow> x \<notin> dom (ext_variables env) \<and> x \<notin> set objectPrototypeMembers
       \<and> x \<notin> dom inlinePrimitives"
  by (auto simp: lookupVariableType_def getProperty_def split: option.splits if_splits)

lemma map_filter_eq: "List.map_filter f xs = map (\<lambda>x. the (f x)) (filter (\<lambda>x. f x \<noteq> None) xs)"
  by (induction xs) (auto simp: List.map_filter_simps split: option.splits)

lemma assumptionsToConstraints_eq:
  "assumptionsToConstraints inlinePrimitives assumps env =
     map (\<lambda>a. constExplicitInstance a (the (lookupVariableType inlinePrimitives (node_name a) env)))
       (filter (\<lambda>a. lookupVariableType inlinePrimitives (node_name a) env \<noteq> None) assumps)"
  unfolding assumptionsToConstraints_def maybeMap_def map_filter_eq
  by (auto intro!: map_cong filter_cong split: option.splits)

lemma mapS_total:
  assumes "\<forall>x \<in> set xs. \<forall>k. \<exists>y k'. f x k = Inr (y, k')"
  shows "\<exists>ys n'. mapS f xs n = Inr (ys, n')"
  using assms
proof (induction xs arbitrary: n)
  case Nil
  then show ?case by simp
next
  case (Cons x xs)
  then obtain y n1 where "f x n = Inr (y, n1)" by (meson list.set_intros(1))
  moreover from Cons obtain ys n2 where "mapS f xs n1 = Inr (ys, n2)"
    by (meson list.set_intros(2))
  ultimately show ?case by simp
qed

lemma mapE_total:
  assumes "\<forall>x \<in> set xs. \<exists>y. f x = Inr y"
  shows "\<exists>ys. mapE f xs = Inr ys"
  using assms
proof (induction xs)
  case Nil
  then show ?case by simp
next
  case (Cons x xs)
  then obtain y ys where "f x = Inr y" "mapE f xs = Inr ys" by auto
  then show ?case by simp
qed

lemma generateUniqueTVars_length: "length (fst (generateUniqueTVars k n)) = k"
  by (induction k arbitrary: n) (simp_all add: Let_def case_prod_unfold)

lemma inferMany_total:
  assumes "\<forall>e \<in> set es. \<forall>mv k. \<exists>r k'. infer e mv env k = Inr (r, k')"
  shows "\<exists>r n'. inferMany es mv env n = Inr (r, n') \<and> length (result r) = length es"
proof -
  from assms have "\<forall>e \<in> set es. \<forall>k. \<exists>r k'. infer e mv env k = Inr (r, k')" by blast
  from mapS_total [OF this] obtain results n1 where
    m: "mapS (\<lambda>e k. infer e mv env k) es n = Inr (results, n1)" by blast
  from mapS_length [OF m] m show ?thesis by (simp add: inferMany.simps)
qed

lemma inferMany_length:
  "inferMany es mv env n = Inr (r, n') \<Longrightarrow> length (result r) = length es"
  by (auto simp: inferMany.simps dest: mapS_length split: sum.splits prod.splits)

lemma mapS_labels:
  assumes "mapS (\<lambda>(label, variable, b) k.
              case f variable b k of
                Inl err \<Rightarrow> Inl err
              | Inr (r, k1) \<Rightarrow> Inr ((label, variable, r), k1)) xs n = Inr (ys, n')"
  shows "map fst ys = map fst xs"
  using assms
  by (induction xs arbitrary: n ys) (auto split: sum.splits prod.splits)

lemma instantiateType_constants:
  "\<forall>p \<in> set ws. listTypeConstants (snd p) = [] \<Longrightarrow>
     listTypeConstants (fst (instantiateType t ws n)) = listTypeConstants t
     \<and> (\<forall>p \<in> set (fst (snd (instantiateType t ws n))). listTypeConstants (snd p) = [])"
  "\<forall>p \<in> set ws. listTypeConstants (snd p) = [] \<Longrightarrow>
     map listTypeConstants (fst (instantiateTypes ts ws n)) = map listTypeConstants ts
     \<and> (\<forall>p \<in> set (fst (snd (instantiateTypes ts ws n))). listTypeConstants (snd p) = [])"
proof (induction t ws n and ts ws n rule: instantiateType_instantiateTypes.induct)
  case (2 nm us ws n)
  then show ?case
    by (auto simp: Let_def generateUniqueTVar_def tVar_def dest!: map_of_SomeD
             split: option.splits)
next
  case (4 label t r ws n)
  obtain t' ws1 n1 where a: "instantiateType t ws n = (t', ws1, n1)"
    by (cases "instantiateType t ws n")
  obtain r' ws2 n2 where b: "instantiateType r ws1 n1 = (r', ws2, n2)"
    by (cases "instantiateType r ws1 n1")
  from 4(1) [OF 4(3)] a have 1: "listTypeConstants t' = listTypeConstants t"
    and w1: "\<forall>p \<in> set ws1. listTypeConstants (snd p) = []" by simp_all
  from 4(2) [OF refl a [symmetric] refl w1] b have "listTypeConstants r' = listTypeConstants r"
    and "\<forall>p \<in> set ws2. listTypeConstants (snd p) = []" by simp_all
  with 1 a b show ?case by simp
next
  case (5 op args ws n)
  obtain op' ws1 n1 where a: "instantiateType op ws n = (op', ws1, n1)"
    by (cases "instantiateType op ws n")
  obtain args' ws2 n2 where b: "instantiateTypes args ws1 n1 = (args', ws2, n2)"
    by (cases "instantiateTypes args ws1 n1")
  from 5(1) [OF 5(3)] a have 1: "listTypeConstants op' = listTypeConstants op"
    and w1: "\<forall>p \<in> set ws1. listTypeConstants (snd p) = []" by simp_all
  from 5(2) [OF refl a [symmetric] refl w1] b
  have "map listTypeConstants args' = map listTypeConstants args"
    and "\<forall>p \<in> set ws2. listTypeConstants (snd p) = []" by simp_all
  with 1 a b show ?case by simp
next
  case (7 t ts ws n)
  obtain t' ws1 n1 where a: "instantiateType t ws n = (t', ws1, n1)"
    by (cases "instantiateType t ws n")
  obtain ts' ws2 n2 where b: "instantiateTypes ts ws1 n1 = (ts', ws2, n2)"
    by (cases "instantiateTypes ts ws1 n1")
  from 7(1) [OF 7(3)] a have 1: "listTypeConstants t' = listTypeConstants t"
    and w1: "\<forall>p \<in> set ws1. listTypeConstants (snd p) = []" by simp_all
  from 7(2) [OF refl a [symmetric] refl w1] b
  have "map listTypeConstants ts' = map listTypeConstants ts"
    and "\<forall>p \<in> set ws2. listTypeConstants (snd p) = []" by simp_all
  with 1 a b show ?case by simp
qed simp_all

lemma instantiate_constants:
  "listTypeConstants (fst (instantiate tw n)) = listTypeConstants (wildcardBody tw)"
  using instantiateType_constants(1) [of "[]" "wildcardBody tw" n]
  by (simp add: instantiate_def case_prod_unfold Let_def)

lemma infer_total:
  assumes fin: "finite (dom env)" and acyc: "acyclic (aliasReferences env)"
    and pf: "\<forall>d \<in> ran env. prototypeFree env d"
  shows "nonEmptyBodies e \<and> annotationsPrototypeFree env e
         \<Longrightarrow> \<exists>r n'. infer e mv env n = Inr (r, n')"
proof (induction e arbitrary: mv n)
  case (EUnknown l i)
  show ?case by (simp add: Let_def split: prod.splits)
next
  case (ENumber v l i)
  show ?case by (simp add: Let_def split: prod.splits)
next
  case (EString v l i)
  show ?case by (simp add: Let_def split: prod.splits)
next
  case (EVector vals l i)
  then have "\<forall>e \<in> set vals. \<forall>mv k. \<exists>r k'. infer e mv env k = Inr (r, k')"
    by (auto simp: list_all_iff)
  from inferMany_total [OF this, of mv n] show ?case
    by (auto simp: Let_def split: prod.splits)
next
  case (ERecord fields ext l i)
  have "\<forall>x \<in> set fields. \<forall>k. \<exists>y k'.
          (case x of (label, v) \<Rightarrow> \<lambda>k. case infer v mv env k of
                Inl e \<Rightarrow> Inl e
              | Inr (r, k1) \<Rightarrow> Inr ((label, r), k1)) k = Inr (y, k')"
  proof (intro ballI allI)
    fix x k assume x: "x \<in> set fields"
    obtain label v where xv: "x = (label, v)" by (cases x)
    with x ERecord.prems have "nonEmptyBodies v \<and> annotationsPrototypeFree env v"
      by (auto simp: list_all_iff)
    moreover have "v \<in> Basic_BNFs.snds x" using xv by simp
    ultimately obtain r k' where "infer v mv env k = Inr (r, k')"
      using ERecord.IH(1) [OF x] by blast
    then show "\<exists>y k'. (case x of (label, v) \<Rightarrow> \<lambda>k. case infer v mv env k of
                Inl e \<Rightarrow> Inl e
              | Inr (r, k1) \<Rightarrow> Inr ((label, r), k1)) k = Inr (y, k')"
      using xv by simp
  qed
  from mapS_total [OF this] obtain inferred n1 where
    m: "mapS (\<lambda>(label, v) k. case infer v mv env k of
                Inl e \<Rightarrow> Inl e
              | Inr (r, k1) \<Rightarrow> Inr ((label, r), k1)) fields n = Inr (inferred, n1)"
    by blast
  show ?case
  proof (cases ext)
    case None
    with m show ?thesis by (simp add: Let_def split: prod.splits)
  next
    case (Some x)
    with ERecord.prems have "nonEmptyBodies x \<and> annotationsPrototypeFree env x" by simp
    with ERecord.IH(2) [of x] Some obtain r k where "infer x mv env n1 = Inr (r, k)"
      by fastforce
    with m Some show ?thesis by (simp add: Let_def split: prod.splits)
  qed
next
  case (EVariableReference x l i)
  show ?case by (simp add: Let_def split: prod.splits)
next
  case (EConditional c t e l i)
  from EConditional obtain r1 n1 where 1: "infer c mv env n = Inr (r1, n1)" by fastforce
  from EConditional obtain r2 n2 where 2: "infer t mv env n1 = Inr (r2, n2)" by fastforce
  from EConditional obtain r3 n3 where 3: "infer e mv env n2 = Inr (r3, n3)" by fastforce
  from 1 2 3 show ?case by (simp add: Let_def split: prod.splits)
next
  case (EFunction positionalArgs b l i)
  then have ne: "b \<noteq> []"
    and "\<forall>e \<in> set b. \<forall>mv k. \<exists>r k'. infer e mv env k = Inr (r, k')"
    by (auto simp: list_all_iff)
  from inferMany_total [OF this(2)] obtain r n2 where
    "inferMany b (mv @ map tvar_name (fst (generateUniqueTVars (length (map name positionalArgs)) n)))
       env (snd (generateUniqueTVars (length (map name positionalArgs)) n)) = Inr (r, n2)"
    and "length (result r) = length b"
    by blast
  with ne show ?case
    by (auto simp: Let_def last_opt_def split: prod.splits)
next
  case (EFunctionCall fn args l i)
  from EFunctionCall obtain r1 n1 where 1: "infer fn mv env n = Inr (r1, n1)" by fastforce
  from EFunctionCall have "\<forall>e \<in> set args. \<forall>mv k. \<exists>r k'. infer e mv env k = Inr (r, k')"
    by (auto simp: list_all_iff)
  from inferMany_total [OF this, of mv n1] 1 show ?case
    by (auto simp: Let_def split: prod.splits)
next
  case (ELetBindings bindings b l i)
  have "\<forall>x \<in> set bindings. \<forall>k. \<exists>y k'.
          (case x of (variable, v) \<Rightarrow> \<lambda>k. case infer v mv env k of
                Inl e \<Rightarrow> Inl e
              | Inr (r, k1) \<Rightarrow> Inr ((variable, r), k1)) k = Inr (y, k')"
  proof (intro ballI allI)
    fix x k assume x: "x \<in> set bindings"
    obtain variable v where xv: "x = (variable, v)" by (cases x)
    with x ELetBindings.prems have "nonEmptyBodies v \<and> annotationsPrototypeFree env v"
      by (auto simp: list_all_iff)
    moreover have "v \<in> Basic_BNFs.snds x" using xv by simp
    ultimately obtain r k' where "infer v mv env k = Inr (r, k')"
      using ELetBindings.IH(1) [OF x] by blast
    then show "\<exists>y k'. (case x of (variable, v) \<Rightarrow> \<lambda>k. case infer v mv env k of
                Inl e \<Rightarrow> Inl e
              | Inr (r, k1) \<Rightarrow> Inr ((variable, r), k1)) k = Inr (y, k')"
      using xv by simp
  qed
  from mapS_total [OF this] obtain bindingsInfo n1 where
    m: "mapS (\<lambda>(variable, v) k. case infer v mv env k of
                Inl e \<Rightarrow> Inl e
              | Inr (r, k1) \<Rightarrow> Inr ((variable, r), k1)) bindings n = Inr (bindingsInfo, n1)"
    by blast
  from ELetBindings have ne: "b \<noteq> []"
    and "\<forall>e \<in> set b. \<forall>mv k. \<exists>r k'. infer e mv env k = Inr (r, k')"
    by (auto simp: list_all_iff)
  from inferMany_total [OF this(2), of mv n1] obtain r n2 where
    "inferMany b mv env n1 = Inr (r, n2)" and "length (result r) = length b"
    by blast
  with ne m show ?case
    by (auto simp: Let_def last_opt_def split: prod.splits)
next
  case (ETypeAnnotation typeWithWildcards v l i)
  then obtain r n1 where 1: "infer v mv env n = Inr (r, n1)" by fastforce
  from ETypeAnnotation.prems have "prototypeFree env (wildcardBody typeWithWildcards)" by simp
  then have "prototypeFree env (fst (instantiate typeWithWildcards n1))"
    by (simp add: prototypeFree_def instantiate_constants)
  from expandTypeAliases_total [OF fin acyc pf this]
  obtain t' where "expandTypeAliases (fst (instantiate typeWithWildcards n1)) env = Some (Inr t')"
    by blast
  with 1 show ?case by (auto simp: Let_def split: prod.splits)
next
  case (EDoBlock b returning l i)
  then have "\<forall>e \<in> set b. \<forall>mv k. \<exists>r k'. infer e mv env k = Inr (r, k')"
    by (auto simp: list_all_iff)
  from inferMany_total [OF this, of mv n] obtain r1 n1 where
    1: "inferMany b mv env n = Inr (r1, n1)" by blast
  from EDoBlock obtain r2 n2 where 2: "infer returning mv env n1 = Inr (r2, n2)" by fastforce
  from 1 2 show ?case by (simp add: Let_def split: prod.splits)
next
  case (EMatch v cases l i)
  from EMatch obtain val n1 where 1: "infer v mv env n = Inr (val, n1)" by fastforce
  let ?f = "\<lambda>(label, variable, b) k.
              case inferMany b (mv @ [name variable]) env k of
                Inl err \<Rightarrow> Inl err
              | Inr (r, k1) \<Rightarrow> Inr ((label, variable, r), k1)"
  have each: "\<exists>r k'. inferMany b (mv @ [name variable]) env k = Inr (r, k')
                \<and> length (result r) = length b \<and> b \<noteq> []"
    if x: "(label, variable, b) \<in> set cases" for label variable b k
  proof -
    from x EMatch.prems have ne: "b \<noteq> []" and all: "list_all nonEmptyBodies b"
      and all2: "list_all (annotationsPrototypeFree env) b"
      by (auto simp: list_all_iff)
    have "\<forall>e \<in> set b. \<forall>mv k. \<exists>r k'. infer e mv env k = Inr (r, k')"
    proof (intro ballI allI)
      fix e mv k assume e: "e \<in> set b"
      have "(variable, b) \<in> Basic_BNFs.snds (label, variable, b)" by simp
      moreover have "b \<in> Basic_BNFs.snds (variable, b)" by simp
      moreover have "nonEmptyBodies e \<and> annotationsPrototypeFree env e"
        using all all2 e by (simp add: list_all_iff)
      ultimately show "\<exists>r k'. infer e mv env k = Inr (r, k')"
        using EMatch.IH(2) [OF x _ _ e] by blast
    qed
    from inferMany_total [OF this] ne show ?thesis by blast
  qed
  have "\<forall>x \<in> set cases. \<forall>k. \<exists>y k'. ?f x k = Inr (y, k')"
  proof (intro ballI allI)
    fix x k assume x: "x \<in> set cases"
    obtain label variable b where xv: "x = (label, variable, b)" by (cases x)
    from each [of label variable b k] x xv show "\<exists>y k'. ?f x k = Inr (y, k')" by auto
  qed
  from mapS_total [OF this] obtain cs n2 where m: "mapS ?f cases n1 = Inr (cs, n2)"
    by blast
  have labels: "map fst cs = map fst cases" using m by (rule mapS_labels)
  have len: "length cs = length cases" using m by (rule mapS_length)
  define t where "t = fst (generateUniqueTVar n2)"
  define n3 where "n3 = snd (generateUniqueTVar n2)"
  define eff where "eff = fst (generateUniqueTVar n3)"
  define n4 where "n4 = snd (generateUniqueTVar n3)"
  define fresh where "fresh = fst (generateUniqueTVars (length cases) n4)"
  define n5 where "n5 = snd (generateUniqueTVars (length cases) n4)"
  define variantTypes where
    "variantTypes = zip (map (\<lambda>(label, variable, b). label) cases) fresh"
  have lf: "length fresh = length cases"
    by (simp add: fresh_def generateUniqueTVars_length)
  have vlabels: "map fst variantTypes = map fst cs"
    using lf labels by (simp add: variantTypes_def case_prod_unfold)
  let ?g = "\<lambda>(label, variable, r).
                     case last_opt (result r) of
                       None \<Rightarrow> Inl (InvariantViolation ''Missing returning form!'')
                     | Some returningForm \<Rightarrow>
                         (case mapE (\<lambda>a.
                                  if node_name a = name variable then
                                    (case find (\<lambda>(lab, vt). lab = label) variantTypes of
                                       None \<Rightarrow> Inl (InvariantViolation
                                                  (''Unknown invariant case '' @ label))
                                     | Some (lab, vt) \<Rightarrow> Inr [constEqual a vt])
                                  else Inr []) (assumptions r) of
                            Inl err \<Rightarrow> Inl err
                          | Inr css \<Rightarrow> Inr (constEqual returningForm t # concat css))"
  have "\<forall>x \<in> set cs. \<exists>y. ?g x = Inr y"
  proof
    fix x assume x: "x \<in> set cs"
    obtain label variable r where xv: "x = (label, variable, r)" by (cases x)
    from x obtain j where j: "j < length cs" "cs ! j = x" by (auto simp: in_set_conv_nth)
    have jc: "j < length cases" using j len by simp
    from mapS_nth [OF m jc] obtain k k' where "?f (cases ! j) k = Inr (cs ! j, k')" by blast
    then have "?f (cases ! j) k = Inr (x, k')" using j by simp
    moreover obtain label' variable' b where cj: "cases ! j = (label', variable', b)"
      by (cases "cases ! j")
    ultimately have r: "inferMany b (mv @ [name variable']) env k = Inr (r, k')"
      using xv by (auto split: sum.splits prod.splits)
    have "(label', variable', b) \<in> set cases" using jc cj by (metis nth_mem)
    from each [OF this, of k] r have "result r \<noteq> []" by auto
    then obtain rf where rf: "last_opt (result r) = Some rf" by (simp add: last_opt_def)
    have "label \<in> set (map fst variantTypes)"
      using x xv vlabels by force
    then obtain vt where "(label, vt) \<in> set variantTypes" by auto
    then have "find (\<lambda>(lab, vt). lab = label) variantTypes \<noteq> None"
      by (auto simp: find_None_iff)
    then obtain lab vt' where fd: "find (\<lambda>(lab, vt). lab = label) variantTypes = Some (lab, vt')"
      by auto
    have "\<exists>css. mapE (\<lambda>a.
                 if node_name a = name variable then
                   (case find (\<lambda>(lab, vt). lab = label) variantTypes of
                      None \<Rightarrow> Inl (InvariantViolation (''Unknown invariant case '' @ label))
                    | Some (lab, vt) \<Rightarrow> Inr [constEqual a vt])
                 else Inr []) (assumptions r) = Inr css"
      by (rule mapE_total) (simp add: fd)
    then show "\<exists>y. ?g x = Inr y" using xv rf by auto
  qed
  from mapE_total [OF this] obtain caseConstraints where cc: "mapE ?g cs = Inr caseConstraints"
    by blast
  have g1: "generateUniqueTVar n2 = (t, n3)" by (simp add: t_def n3_def)
  have g2: "generateUniqueTVar n3 = (eff, n4)" by (simp add: eff_def n4_def)
  have g3: "generateUniqueTVars (length cases) n4 = (fresh, n5)" by (simp add: fresh_def n5_def)
  show ?case
    apply (simp only: infer.simps 1 m g1 g2 g3 sum.case prod.case Let_def
        variantTypes_def [symmetric] cc)
    apply simp
    done
qed

lemma groupAssumptions_unknowns:
  "unknowns (groupAssumptions inlinePrimitives assumps internalEnv externalEnv)
     = filter (\<lambda>v. node_name v \<notin> dom (int_variables internalEnv)
                   \<and> node_name v \<notin> dom (ext_variables externalEnv)
                   \<and> node_name v \<notin> dom inlinePrimitives
                   \<and> node_name v \<notin> set objectPrototypeMembers) assumps"
  unfolding groupAssumptions_def Let_def difference_def GroupedAssumptions.sel
  by (rule filter_cong) (auto simp: lookupVariableType_None hasProperty_def)

lemma inferSyntax_total:
  assumes "finite (dom env)" and "acyclic (aliasReferences env)"
    and "\<forall>d \<in> ran env. prototypeFree env d"
    and "nonEmptyBodiesSyntax s" and "annotationsPrototypeFreeSyntax env s"
  shows "\<exists>r n'. inferSyntax s env n = Inr (r, n')"
proof (cases s)
  case (SExpression e)
  with assms infer_total [OF assms(1-3), of e "[]" n] show ?thesis by auto
next
  case (SDefinition variable v l)
  with assms infer_total [OF assms(1-3), of v "[]" n] show ?thesis by auto
qed auto

lemma aliasReferences_empty: "acyclic (aliasReferences Map.empty)"
  by (simp add: aliasReferences_def acyclic_def)

lemma digit_char_inj: "a < 10 \<Longrightarrow> b < 10 \<Longrightarrow> digit_char a = digit_char b \<Longrightarrow> a = b"
proof -
  assume a: "a < 10" and b: "b < 10" and e: "digit_char a = digit_char b"
  have d: "distinct ''0123456789''" by simp
  have "length ''0123456789'' = 10" by simp
  with a b e d show "a = b"
    unfolding digit_char_def by (metis nth_eq_iff_index_eq)
qed

lemma string_of_nat_length: "(length (string_of_nat n) = 1) = (n < 10)"
proof (cases "n < 10")
  case True
  then show ?thesis by (simp add: string_of_nat.simps)
next
  case False
  have "\<And>m. string_of_nat m \<noteq> []"
    by (subst string_of_nat.simps) simp
  then have "length (string_of_nat (n div 10)) > 0" by simp
  moreover have "string_of_nat n = string_of_nat (n div 10) @ [digit_char (n mod 10)]"
    using False by (subst string_of_nat.simps) simp
  ultimately show ?thesis using False by simp
qed

lemma string_of_nat_inj: "string_of_nat n = string_of_nat m \<Longrightarrow> n = m"
proof (induction n arbitrary: m rule: string_of_nat.induct)
  case (1 n)
  show ?case
  proof (cases "n < 10")
    case True
    with 1(2) have m: "m < 10" using string_of_nat_length by metis
    from 1(2) True m have "digit_char n = digit_char m"
      by (simp add: string_of_nat.simps)
    with True m show ?thesis by (rule digit_char_inj)
  next
    case False
    with 1(2) have m: "\<not> m < 10" using string_of_nat_length by metis
    from 1(2) False m have
      "string_of_nat (n div 10) @ [digit_char (n mod 10)]
       = string_of_nat (m div 10) @ [digit_char (m mod 10)]"
      by (simp add: string_of_nat.simps [of n] string_of_nat.simps [of m])
    then have a: "string_of_nat (n div 10) = string_of_nat (m div 10)"
      and b: "digit_char (n mod 10) = digit_char (m mod 10)" by simp_all
    from 1(1) [OF False a] have "n div 10 = m div 10" .
    moreover from b have "n mod 10 = m mod 10" by (intro digit_char_inj) simp_all
    ultimately show ?thesis by (metis div_mult_mod_eq)
  qed
qed

lemma tvarName_inj [simp]: "tvarName a = tvarName b \<longleftrightarrow> a = b"
  by (auto simp: tvarName_def dest: string_of_nat_inj)

lemma below_empty [simp]: "below n {}"
  by (simp add: below_def)

lemma below_Un [simp]: "below n (A \<union> B) \<longleftrightarrow> below n A \<and> below n B"
  by (auto simp: below_def)

lemma below_UN [simp]: "below n (\<Union>x \<in> S. f x) \<longleftrightarrow> (\<forall>x \<in> S. below n (f x))"
  by (auto simp: below_def)

lemma below_insert [simp]:
  "below n (insert x A) \<longleftrightarrow> (\<forall>k. x = tvarName k \<longrightarrow> k \<le> n) \<and> below n A"
  by (auto simp: below_def)

lemma below_tvarName: "below n {tvarName k} \<longleftrightarrow> k \<le> n"
  by simp

lemma below_mono: "below n X \<Longrightarrow> n \<le> m \<Longrightarrow> below m X"
  by (auto simp: below_def intro: order_trans)

lemma below_subset: "below n X \<Longrightarrow> Y \<subseteq> X \<Longrightarrow> below n Y"
  by (auto simp: below_def)

lemma generateUniqueTVar_eq:
  "generateUniqueTVar n = (TVar (tvarName (Suc n)) False, Suc n)"
  by (simp add: generateUniqueTVar_def tVar_def)

lemma generateUniqueTVars_below:
  "generateUniqueTVars k n = (ts, n') \<Longrightarrow>
     n' = n + k \<and> length ts = k \<and> (\<forall>t \<in> set ts. below n' (typeVariables t))
     \<and> below n' (set (map tvar_name ts))"
proof (induction k arbitrary: n ts n')
  case 0
  then show ?case by simp
next
  case (Suc k)
  from Suc.prems obtain ts' where
    r: "generateUniqueTVars k (Suc n) = (ts', n')" and ts: "ts = TVar (tvarName (Suc n)) False # ts'"
    by (auto simp: generateUniqueTVar_eq Let_def split: prod.splits)
  from Suc.IH [OF r] show ?case using ts by auto
qed

lemma exprVars_simps [simp]:
  "exprVars (EUnknown l i) = infoVars i"
  "exprVars (ENumber num l i) = infoVars i"
  "exprVars (EString s l i) = infoVars i"
  "exprVars (EVector vals l i) = infoVars i \<union> (\<Union>e \<in> set vals. exprVars e)"
  "exprVars (ERecord fields ext l i) =
     infoVars i \<union> (\<Union>f \<in> set fields. exprVars (snd f))
     \<union> (case ext of None \<Rightarrow> {} | Some x \<Rightarrow> exprVars x)"
  "exprVars (EVariableReference x l i) = infoVars i"
  "exprVars (EConditional c t e l i) = infoVars i \<union> exprVars c \<union> exprVars t \<union> exprVars e"
  "exprVars (EFunction positionalArgs b l i) = infoVars i \<union> (\<Union>e \<in> set b. exprVars e)"
  "exprVars (EFunctionCall fn args l i) = infoVars i \<union> exprVars fn \<union> (\<Union>e \<in> set args. exprVars e)"
  "exprVars (ELetBindings bindings b l i) =
     infoVars i \<union> (\<Union>f \<in> set bindings. exprVars (snd f)) \<union> (\<Union>e \<in> set b. exprVars e)"
  "exprVars (ETypeAnnotation tw av l i) = infoVars i \<union> exprVars av"
  "exprVars (EDoBlock b ret l i) = infoVars i \<union> (\<Union>e \<in> set b. exprVars e) \<union> exprVars ret"
  "exprVars (EMatch mv cases l i) =
     infoVars i \<union> exprVars mv \<union> (\<Union>c \<in> set cases. \<Union>e \<in> set (snd (snd c)). exprVars e)"
  by (auto simp: exprVars_def split: option.splits)

lemma infoVars_Typed [simp]: "infoVars (Typed t e) = typeVariables t \<union> typeVariables e"
  by (simp add: infoVars_def)

lemma exprVars_info: "infoVars (info e) \<subseteq> exprVars e"
  by (cases e) auto

lemma typeVariables_tRow [simp]:
  "typeVariables (tRow fields ext) = (\<Union>f \<in> set fields. typeVariables (snd f)) \<union> typeVariables ext"
  by (induction fields) (auto simp: tRow_def tRowExtension_def)

lemma typeVariables_constructors [simp]:
  "typeVariables tNumber = {}"
  "typeVariables tString = {}"
  "typeVariables tBoolean = {}"
  "typeVariables emptyRow = {}"
  "typeVariables (tVector t) = typeVariables t"
  "typeVariables (tFn args eff out) = (\<Union>a \<in> set args. typeVariables a) \<union> typeVariables eff \<union> typeVariables out"
  "typeVariables (tRecord fields ext) = (\<Union>f \<in> set fields. typeVariables (snd f)) \<union> typeVariables ext"
  "typeVariables (tVariant fields) = (\<Union>f \<in> set fields. typeVariables (snd f))"
  "typeVariables (tEffect []) = {}"
  by (auto simp: tNumber_def tString_def tBoolean_def emptyRow_def tVector_def tFn_def tRecord_def
        tVariant_def tEffect_def tApp_def tcVector_def tcArrow_def tcRecord_def tcVariant_def
        tcEffect_def)

lemma instantiateType_below:
  "instantiateType t ws n = (t', ws', n') \<Longrightarrow>
     n \<le> n' \<and> (\<forall>m \<le> n. below m (typeVariables t) \<longrightarrow> below n (wsVars ws)
                  \<longrightarrow> below n' (typeVariables t' \<union> wsVars ws'))"
  "instantiateTypes ts ws n = (ts', ws', n') \<Longrightarrow>
     n \<le> n' \<and> (\<forall>m \<le> n. below m (\<Union>t \<in> set ts. typeVariables t) \<longrightarrow> below n (wsVars ws)
                  \<longrightarrow> below n' ((\<Union>t \<in> set ts'. typeVariables t) \<union> wsVars ws'))"
proof (induction t ws n and ts ws n arbitrary: t' ws' n' and ts' ws' n'
        rule: instantiateType_instantiateTypes.induct)
  case (1 c ws n)
  then show ?case by (auto intro: below_mono)
next
  case (2 nm us ws n)
  show ?case
  proof (cases "nm = ''_''")
    case True
    with 2 show ?thesis
      by (auto simp: generateUniqueTVar_eq intro: below_mono)
  next
    case False
    show ?thesis
    proof (cases "isWildcardTypeVarName nm")
      case w: True
      show ?thesis
      proof (cases "map_of ws nm")
        case None
        with 2 False w show ?thesis
          by (auto simp: generateUniqueTVar_eq wsVars_def)
             (metis below_mono le_SucI order_refl snd_conv)
      next
        case (Some t)
        then have "(nm, t) \<in> set ws" by (rule map_of_SomeD)
        then have "typeVariables t \<subseteq> wsVars ws" by (force simp: wsVars_def)
        with 2 False w Some show ?thesis
          by (auto intro: below_subset)
      qed
    next
      case nw: False
      with 2 False show ?thesis by (auto intro: below_mono)
    qed
  qed
next
  case (3 ws n)
  then show ?case by auto
next
  case (4 label t r ws n)
  obtain t1 ws1 n1 where a: "instantiateType t ws n = (t1, ws1, n1)"
    by (cases "instantiateType t ws n") auto
  obtain r1 ws2 n2 where b: "instantiateType r ws1 n1 = (r1, ws2, n2)"
    by (cases "instantiateType r ws1 n1") auto
  from 4(3) a b have res: "t' = RExtension label t1 r1" "ws' = ws2" "n' = n2" by simp_all
  from 4(1) [OF a] have ia: "n \<le> n1"
    "\<forall>m \<le> n. below m (typeVariables t) \<longrightarrow> below n (wsVars ws)
          \<longrightarrow> below n1 (typeVariables t1 \<union> wsVars ws1)" by simp_all
  from 4(2) [OF refl a [symmetric] refl b] have ib: "n1 \<le> n2"
    "\<forall>m \<le> n1. below m (typeVariables r) \<longrightarrow> below n1 (wsVars ws1)
          \<longrightarrow> below n2 (typeVariables r1 \<union> wsVars ws2)" by simp_all
  show ?case unfolding res
  proof (intro conjI allI impI)
    show "n \<le> n2" using ia(1) ib(1) by simp
    fix m assume m: "m \<le> n" and bt: "below m (typeVariables (RExtension label t r))"
      and bw: "below n (wsVars ws)"
    from ia(2) m bt bw have 1: "below n1 (typeVariables t1 \<union> wsVars ws1)" by simp
    from m ia(1) have "m \<le> n1" by simp
    with ib(2) bt 1 have 2: "below n2 (typeVariables r1 \<union> wsVars ws2)" by simp
    from 1 ib(1) have "below n2 (typeVariables t1)" by (auto intro: below_mono)
    with 2 show "below n2 (typeVariables (RExtension label t1 r1) \<union> wsVars ws2)" by simp
  qed
next
  case (5 op args ws n)
  obtain t1 ws1 n1 where a: "instantiateType op ws n = (t1, ws1, n1)"
    by (cases "instantiateType op ws n") auto
  obtain r1 ws2 n2 where b: "instantiateTypes args ws1 n1 = (r1, ws2, n2)"
    by (cases "instantiateTypes args ws1 n1") auto
  from 5(3) a b have res: "t' = TApplication t1 r1" "ws' = ws2" "n' = n2" by simp_all
  from 5(1) [OF a] have ia: "n \<le> n1"
    "\<forall>m \<le> n. below m (typeVariables op) \<longrightarrow> below n (wsVars ws)
          \<longrightarrow> below n1 (typeVariables t1 \<union> wsVars ws1)" by simp_all
  from 5(2) [OF refl a [symmetric] refl b] have ib: "n1 \<le> n2"
    "\<forall>m \<le> n1. below m (\<Union>t \<in> set args. typeVariables t) \<longrightarrow> below n1 (wsVars ws1)
          \<longrightarrow> below n2 ((\<Union>t \<in> set r1. typeVariables t) \<union> wsVars ws2)" by simp_all
  show ?case unfolding res
  proof (intro conjI allI impI)
    show "n \<le> n2" using ia(1) ib(1) by simp
    fix m assume m: "m \<le> n" and bt: "below m (typeVariables (TApplication op args))"
      and bw: "below n (wsVars ws)"
    from ia(2) m bt bw have 1: "below n1 (typeVariables t1 \<union> wsVars ws1)" by simp
    from m ia(1) have "m \<le> n1" by simp
    with ib(2) bt 1 have 2: "below n2 ((\<Union>t \<in> set r1. typeVariables t) \<union> wsVars ws2)" by simp
    from 1 ib(1) have "below n2 (typeVariables t1)" by (auto intro: below_mono)
    with 2 show "below n2 (typeVariables (TApplication t1 r1) \<union> wsVars ws2)" by simp
  qed
next
  case (6 ws n)
  then show ?case by auto
next
  case (7 t ts ws n)
  obtain t1 ws1 n1 where a: "instantiateType t ws n = (t1, ws1, n1)"
    by (cases "instantiateType t ws n") auto
  obtain r1 ws2 n2 where b: "instantiateTypes ts ws1 n1 = (r1, ws2, n2)"
    by (cases "instantiateTypes ts ws1 n1") auto
  from 7(3) a b have res: "ts' = t1 # r1" "ws' = ws2" "n' = n2" by simp_all
  from 7(1) [OF a] have ia: "n \<le> n1"
    "\<forall>m \<le> n. below m (typeVariables t) \<longrightarrow> below n (wsVars ws)
          \<longrightarrow> below n1 (typeVariables t1 \<union> wsVars ws1)" by simp_all
  from 7(2) [OF refl a [symmetric] refl b] have ib: "n1 \<le> n2"
    "\<forall>m \<le> n1. below m (\<Union>t \<in> set ts. typeVariables t) \<longrightarrow> below n1 (wsVars ws1)
          \<longrightarrow> below n2 ((\<Union>t \<in> set r1. typeVariables t) \<union> wsVars ws2)" by simp_all
  show ?case unfolding res
  proof (intro conjI allI impI)
    show "n \<le> n2" using ia(1) ib(1) by simp
    fix m assume m: "m \<le> n" and bt: "below m (\<Union>t \<in> set (t # ts). typeVariables t)"
      and bw: "below n (wsVars ws)"
    from ia(2) m bt bw have 1: "below n1 (typeVariables t1 \<union> wsVars ws1)" by simp
    from m ia(1) have "m \<le> n1" by simp
    with ib(2) bt 1 have 2: "below n2 ((\<Union>t \<in> set r1. typeVariables t) \<union> wsVars ws2)" by simp
    from 1 ib(1) have "below n2 (typeVariables t1)" by (auto intro: below_mono)
    with 2 show "below n2 ((\<Union>t \<in> set (t1 # r1). typeVariables t) \<union> wsVars ws2)" by simp
  qed
qed

lemma instantiate_below:
  assumes "instantiate tw n = (t, n')" and "below n (typeVariables (wildcardBody tw))"
  shows "n \<le> n' \<and> below n' (typeVariables t)"
proof -
  from assms(1) obtain ws where i: "instantiateType (wildcardBody tw) [] n = (t, ws, n')"
    by (auto simp: instantiate_def Let_def split: prod.splits)
  from instantiateType_below(1) [OF i] assms(2) show ?thesis
    by (auto simp: wsVars_def)
qed

lemma bindO_SomeD:
  "bindO m f = Some (Inr y) \<Longrightarrow> \<exists>x. m = Some (Inr x) \<and> f x = Some (Inr y)"
  by (auto simp: bindO_def split: option.splits sum.splits)

lemma mapO_SomeD:
  "mapO f xs = Some (Inr ys) \<Longrightarrow> list_all2 (\<lambda>x y. f x = Some (Inr y)) xs ys"
proof (induction xs arbitrary: ys)
  case Nil
  then show ?case by simp
next
  case (Cons x xs)
  from Cons.prems obtain y where y: "f x = Some (Inr y)"
    and r: "bindO (mapO f xs) (\<lambda>ys. Some (Inr (y # ys))) = Some (Inr ys)"
    by (auto dest!: bindO_SomeD)
  from bindO_SomeD [OF r] obtain ys' where "mapO f xs = Some (Inr ys')" "ys = y # ys'"
    by auto
  with Cons.IH y show ?case by simp
qed

lemma transformRecurType_vars:
  assumes fn: "\<And>x y. fn x = Some (Inr y) \<Longrightarrow> typeVariables y \<subseteq> typeVariables x \<union> S"
  shows "transformRecurType t fn = Some (Inr t') \<Longrightarrow> typeVariables t' \<subseteq> typeVariables t \<union> S"
proof (induction t arbitrary: t')
  case (TConstant c)
  then have "fn (TConstant c) = Some (Inr t')" by simp
  from fn [OF this] show ?case by simp
next
  case (TApplication op args)
  from TApplication.prems obtain op' where
    op: "transformRecurType op fn = Some (Inr op')"
    and r1: "bindO (mapO (\<lambda>a. transformRecurType a fn) args)
               (\<lambda>args'. fn (TApplication op' args')) = Some (Inr t')"
    by (auto dest!: bindO_SomeD)
  from bindO_SomeD [OF r1] obtain args' where
    args: "mapO (\<lambda>a. transformRecurType a fn) args = Some (Inr args')"
    and r: "fn (TApplication op' args') = Some (Inr t')"
    by blast
  from TApplication.IH(1) [OF op] have 1: "typeVariables op' \<subseteq> typeVariables op \<union> S" .
  from mapO_SomeD [OF args]
  have l: "list_all2 (\<lambda>x y. transformRecurType x fn = Some (Inr y)) args args'" .
  have 2: "(\<Union>a \<in> set args'. typeVariables a) \<subseteq> (\<Union>a \<in> set args. typeVariables a) \<union> S"
  proof
    fix v assume "v \<in> (\<Union>a \<in> set args'. typeVariables a)"
    then obtain j where j: "j < length args'" "v \<in> typeVariables (args' ! j)"
      by (auto simp: in_set_conv_nth)
    with l have e: "transformRecurType (args ! j) fn = Some (Inr (args' ! j))"
      and jl: "j < length args"
      by (auto simp: list_all2_conv_all_nth)
    from TApplication.IH(2) [OF _ e] jl
    have "typeVariables (args' ! j) \<subseteq> typeVariables (args ! j) \<union> S"
      by simp
    with j jl show "v \<in> (\<Union>a \<in> set args. typeVariables a) \<union> S" by auto
  qed
  from fn [OF r] 1 2 show ?case by auto
next
  case (TVar nm us)
  then have "fn (TVar nm us) = Some (Inr t')" by simp
  from fn [OF this] show ?case by simp
next
  case REmpty
  then have "fn REmpty = Some (Inr t')" by simp
  from fn [OF this] show ?case by simp
next
  case (RExtension label t r)
  from RExtension.prems obtain t1 where
    a: "transformRecurType t fn = Some (Inr t1)"
    and r1: "bindO (transformRecurType r fn) (\<lambda>r'. fn (RExtension label t1 r')) = Some (Inr t')"
    by (auto dest!: bindO_SomeD)
  from bindO_SomeD [OF r1] obtain r1' where
    b: "transformRecurType r fn = Some (Inr r1')"
    and c: "fn (RExtension label t1 r1') = Some (Inr t')"
    by blast
  from RExtension.IH(1) [OF a] RExtension.IH(2) [OF b] fn [OF c] show ?case by auto
qed

lemma expandTypeAliases_vars:
  assumes "expandTypeAliases t env = Some (Inr t')"
  shows "typeVariables t' \<subseteq> typeVariables t \<union> envVars env"
proof -
  have "\<forall>t'. Inr t' = y \<longrightarrow> typeVariables t' \<subseteq> typeVariables t \<union> envVars env"
    if "expandTypeAliases t env = Some y" for y
  proof (rule expandTypeAliases.raw_induct
      [where P = "\<lambda>t env y. \<forall>t'. Inr t' = y
                     \<longrightarrow> typeVariables t' \<subseteq> typeVariables t \<union> envVars env", OF _ that])
    fix expand :: "ty \<Rightarrow> InternalTypeEnvironment \<Rightarrow> (error + ty) option" and t env y
    assume IH: "\<And>d e y. expand d e = Some y \<Longrightarrow>
                  \<forall>t'. Inr t' = y \<longrightarrow> typeVariables t' \<subseteq> typeVariables d \<union> envVars e"
      and tr: "transformRecurType t
        (\<lambda>t'. case t' of
              TConstant nm \<Rightarrow>
                (case getProperty env nm of
                   None \<Rightarrow> Some (Inr t')
                 | Some d \<Rightarrow>
                     (case d of
                        Value def \<Rightarrow> expand def env
                      | PrototypeMember member \<Rightarrow>
                          Some (Inl (TypeError ''Cannot read property 'tag' of undefined''))))
              | _ \<Rightarrow> Some (Inr t')) = Some y"
    show "\<forall>t'. Inr t' = y \<longrightarrow> typeVariables t' \<subseteq> typeVariables t \<union> envVars env"
    proof (intro allI impI)
      fix t' assume y: "Inr t' = y"
      show "typeVariables t' \<subseteq> typeVariables t \<union> envVars env"
      proof (rule transformRecurType_vars [OF _ tr [folded y]])
        fix x z
        assume s: "(case x of
              TConstant nm \<Rightarrow>
                (case getProperty env nm of
                   None \<Rightarrow> Some (Inr x)
                 | Some d \<Rightarrow>
                     (case d of
                        Value def \<Rightarrow> expand def env
                      | PrototypeMember member \<Rightarrow>
                          Some (Inl (TypeError ''Cannot read property 'tag' of undefined''))))
              | _ \<Rightarrow> Some (Inr x)) = Some (Inr z)"
        show "typeVariables z \<subseteq> typeVariables x \<union> envVars env"
        proof (cases x)
          case (TConstant nm)
          show ?thesis
          proof (cases "getProperty env nm")
            case None
            with s TConstant show ?thesis by simp
          next
            case (Some d)
            show ?thesis
            proof (cases d)
              case (Value def)
              with s TConstant Some have "expand def env = Some (Inr z)" by simp
              from IH [OF this] have "typeVariables z \<subseteq> typeVariables def \<union> envVars env"
                by simp
              moreover have "env nm = Some def"
                using Some Value by (auto simp: getProperty_def split: option.splits if_splits)
              then have "typeVariables def \<subseteq> envVars env"
                by (auto simp: envVars_def ran_def)
              ultimately show ?thesis by auto
            next
              case (PrototypeMember member)
              with s TConstant Some show ?thesis by simp
            qed
          qed
        qed (use s in auto)
      qed
    qed
  qed
  from this [OF assms] show ?thesis by simp
qed

lemma mapS_below:
  assumes "mapS f xs n = Inr (ys, n')"
    and "\<And>x k y k'. x \<in> set xs \<Longrightarrow> n \<le> k \<Longrightarrow> f x k = Inr (y, k') \<Longrightarrow> k \<le> k' \<and> below k' (V y)"
  shows "n \<le> n' \<and> (\<forall>y \<in> set ys. below n' (V y))"
  using assms
proof (induction xs arbitrary: n ys)
  case Nil
  then show ?case by simp
next
  case (Cons x xs)
  from Cons.prems(1) obtain y n1 ys' where
    fx: "f x n = Inr (y, n1)" and rest: "mapS f xs n1 = Inr (ys', n')" and ys: "ys = y # ys'"
    by (auto split: sum.splits prod.splits)
  from Cons.prems(2) [OF _ _ fx] have 1: "n \<le> n1" "below n1 (V y)" by simp_all
  have "n1 \<le> n' \<and> (\<forall>y \<in> set ys'. below n' (V y))"
  proof (rule Cons.IH [OF rest])
    fix x' k y' k'
    assume "x' \<in> set xs" "n1 \<le> k" "f x' k = Inr (y', k')"
    with Cons.prems(2) [of x' k y' k'] 1(1) show "k \<le> k' \<and> below k' (V y')" by simp
  qed
  with 1 ys show ?case by (auto intro: below_mono)
qed

lemma outVarsMany_results:
  "outVarsMany (InferResult (map result rs) (concat (map constraints rs)) (concat (map assumptions rs)))
   = (\<Union>r \<in> set rs. outVars r)"
  by (auto simp: outVarsMany_def outVars_def)

lemma inferMany_below:
  assumes im: "inferMany es mv env n = Inr (r, n')"
    and IH: "\<And>e mv k y k'. e \<in> set es \<Longrightarrow> infer e mv env k = Inr (y, k')
              \<Longrightarrow> below k (inputNames e) \<Longrightarrow> below k (set mv) \<Longrightarrow> below k (envVars env)
              \<Longrightarrow> k \<le> k' \<and> below k' (outVars y)"
    and b: "below n (\<Union>e \<in> set es. inputNames e)" "below n (set mv)" "below n (envVars env)"
  shows "n \<le> n' \<and> below n' (outVarsMany r)"
proof -
  from im obtain results where
    m: "mapS (\<lambda>e k. infer e mv env k) es n = Inr (results, n')"
    and r: "r = InferResult (map result results) (concat (map constraints results))
                  (concat (map assumptions results))"
    by (auto simp: inferMany.simps split: sum.splits prod.splits)
  have "n \<le> n' \<and> (\<forall>y \<in> set results. below n' (outVars y))"
  proof (rule mapS_below [OF m])
    fix x k y k'
    assume x: "x \<in> set es" and k: "n \<le> k" and i: "infer x mv env k = Inr (y, k')"
    from b x k have "below k (inputNames x)" "below k (set mv)" "below k (envVars env)"
      by (auto intro: below_mono)
    from IH [OF x i this] show "k \<le> k' \<and> below k' (outVars y)" .
  qed
  then show ?thesis unfolding r outVarsMany_results by simp
qed

lemma indexOf_mem: "x \<in> set xs \<Longrightarrow> \<exists>i. indexOf xs x = Some i \<and> i < length xs"
  by (induction xs) auto

lemma mapE_InrD: "mapE f xs = Inr ys \<Longrightarrow> list_all2 (\<lambda>x y. f x = Inr y) xs ys"
  by (induction xs arbitrary: ys) (auto split: sum.splits)

lemma function_constraints_below:
  assumes i: "infer (EFunction positionalArgs b l i) mv env n = Inr (r, n')"
    and IH: "\<And>e mv k y k'. e \<in> set b \<Longrightarrow> infer e mv env k = Inr (y, k')
              \<Longrightarrow> below k (inputNames e) \<Longrightarrow> below k (set mv) \<Longrightarrow> below k (envVars env)
              \<Longrightarrow> k \<le> k' \<and> below k' (outVars y)"
    and bs: "below n (\<Union>e \<in> set b. inputNames e)" "below n (set mv)" "below n (envVars env)"
  shows "\<exists>n3. n \<le> n3 \<and> n' = Suc n3
           \<and> effect (info (result r)) = TVar (tvarName n') False
           \<and> below n3 (typeVariables (type (info (result r))))
           \<and> (\<forall>c \<in> set (constraints r). below n3 (constraintVars c))
           \<and> (\<forall>a \<in> set (assumptions r). below n3 (exprVars a))
           \<and> (\<exists>body. result r = EFunction positionalArgs body l (info (result r))
                  \<and> (\<forall>e \<in> set body. below n3 (exprVars e)))"
proof -
  let ?k = "length (map name positionalArgs)"
  obtain argtypes n1 where g: "generateUniqueTVars ?k n = (argtypes, n1)"
    by (cases "generateUniqueTVars ?k n") auto
  from generateUniqueTVars_below [OF g] have g': "n1 = n + ?k" "length argtypes = ?k"
    "\<forall>t \<in> set argtypes. below n1 (typeVariables t)" "below n1 (set (map tvar_name argtypes))"
    by blast+
  from i g obtain bi n2 where
    im: "inferMany b (mv @ map tvar_name argtypes) env n1 = Inr (bi, n2)"
    by (auto simp: Let_def split: sum.splits prod.splits)
  have b1: "below n1 (\<Union>e \<in> set b. inputNames e)" "below n1 (set (mv @ map tvar_name argtypes))"
    "below n1 (envVars env)"
    using bs g' by (auto intro: below_mono)
  from inferMany_below [OF im IH b1] have ib: "n1 \<le> n2" "below n2 (outVarsMany bi)" by simp_all
  from i g im obtain lastForm where lf: "last_opt (result bi) = Some lastForm"
    by (auto simp: Let_def split: sum.splits prod.splits option.splits)
  then have lfm: "lastForm \<in> set (result bi)"
    by (auto simp: last_opt_def split: if_splits)
  let ?bodyEffect = "TVar (tvarName (Suc n2)) False"
  let ?fnargs = "map name positionalArgs"
  let ?newConstraints = "map (\<lambda>v. case indexOf ?fnargs (node_name v) of
                                Some varIndex \<Rightarrow> constEqual v (argtypes ! varIndex))
                      (filter (\<lambda>v. node_name v \<in> set ?fnargs) (assumptions bi))
                    @ map (\<lambda>form. constEffect form ?bodyEffect) (result bi)"
  from i g im lf have r: "r = InferResult
                           (EFunction positionalArgs (result bi) l
                              (Typed (tFn argtypes ?bodyEffect (type (info lastForm)))
                                 (TVar (tvarName (Suc (Suc n2))) False)))
                           (constraints bi @ ?newConstraints)
                           (filter (\<lambda>v. node_name v \<notin> set ?fnargs) (assumptions bi))"
    and n': "n' = Suc (Suc n2)"
    by (auto simp: Let_def generateUniqueTVar_eq)
  have le: "n2 \<le> Suc n2" by simp
  have B: "below (Suc n2) (outVarsMany bi)" using ib(2) le by (rule below_mono)
  have A: "\<forall>t \<in> set argtypes. below (Suc n2) (typeVariables t)"
    using g'(3) ib(1) by (auto intro: below_mono)
  have nc: "\<forall>c \<in> set ?newConstraints. below (Suc n2) (constraintVars c)"
  proof
    fix c assume "c \<in> set ?newConstraints"
    then consider
      (arg) v where "v \<in> set (assumptions bi)" "node_name v \<in> set ?fnargs"
        "c = (case indexOf ?fnargs (node_name v) of
                Some varIndex \<Rightarrow> constEqual v (argtypes ! varIndex))"
      | (eff) form where "form \<in> set (result bi)" "c = constEffect form ?bodyEffect"
      by auto
    then show "below (Suc n2) (constraintVars c)"
    proof cases
      case arg
      from indexOf_mem [OF arg(2)] obtain j where
        j: "indexOf ?fnargs (node_name v) = Some j" "j < length ?fnargs" by blast
      then have "argtypes ! j \<in> set argtypes" using g'(2) by simp
      with A have "below (Suc n2) (typeVariables (argtypes ! j))" by blast
      moreover have "below (Suc n2) (exprVars v)" using B arg(1) by (simp add: outVarsMany_def)
      ultimately show ?thesis using arg(3) j by simp
    next
      case eff
      then show ?thesis using B by (simp add: outVarsMany_def)
    qed
  qed
  have ty: "below (Suc n2) (typeVariables (tFn argtypes ?bodyEffect (type (info lastForm))))"
  proof -
    have "infoVars (info lastForm) \<subseteq> exprVars lastForm" by (rule exprVars_info)
    moreover have "below (Suc n2) (exprVars lastForm)"
      using B lfm by (simp add: outVarsMany_def)
    ultimately have "below (Suc n2) (typeVariables (type (info lastForm)))"
      by (auto simp: infoVars_def intro: below_subset)
    with A show ?thesis by simp
  qed
  show ?thesis
    apply (rule exI [of _ "Suc n2"])
    using r n' nc ty B g'(1) ib(1)
    by (auto simp: outVarsMany_def)
qed

lemma list_all2_in_right:
  "list_all2 P xs ys \<Longrightarrow> y \<in> set ys \<Longrightarrow> \<exists>x \<in> set xs. P x y"
  by (metis in_set_conv_nth list_all2_conv_all_nth)

lemma infer_below:
  "infer e mv env n = Inr (r, n') \<Longrightarrow> below n (inputNames e) \<Longrightarrow> below n (set mv)
   \<Longrightarrow> below n (envVars env) \<Longrightarrow> n \<le> n' \<and> below n' (outVars r)"
proof (induction e arbitrary: mv n r n')
  case (EUnknown l i)
  then show ?case by (auto simp: generateUniqueTVar_eq outVars_def)
next
  case (ENumber v l i)
  then show ?case by (auto simp: generateUniqueTVar_eq outVars_def)
next
  case (EString v l i)
  then show ?case by (auto simp: generateUniqueTVar_eq outVars_def)
next
  case (EVariableReference x l i)
  then show ?case by (auto simp: generateUniqueTVar_eq outVars_def Let_def)
next
  case (EVector vals l i)
  from EVector.prems(1) obtain iv n1 where
    im: "inferMany vals mv env n = Inr (iv, n1)"
    by (auto simp: Let_def split: sum.splits prod.splits)
  have b: "below n (\<Union>e \<in> set vals. inputNames e)" using EVector.prems(2) by simp
  from inferMany_below [OF im EVector.IH b EVector.prems(3,4)]
  have 1: "n \<le> n1" "below n1 (outVarsMany iv)" by simp_all
  have B: "below (Suc (Suc n1)) (outVarsMany iv)" using 1(2) by (rule below_mono) simp
  from EVector.prems(1) im 1(1) B show ?case
    by (auto simp: generateUniqueTVar_eq outVars_def outVarsMany_def)
next
  case (EConditional c t e l i)
  from EConditional.prems(1) obtain r1 n1 r2 n2 r3 n3 where
    i1: "infer c mv env n = Inr (r1, n1)" and i2: "infer t mv env n1 = Inr (r2, n2)"
    and i3: "infer e mv env n2 = Inr (r3, n3)"
    by (auto simp: Let_def split: sum.splits prod.splits)
  from EConditional.IH(1) [OF i1] EConditional.prems have 1: "n \<le> n1" "below n1 (outVars r1)"
    by simp_all
  have "below n1 (inputNames t)" "below n1 (set mv)" "below n1 (envVars env)"
    using EConditional.prems 1(1) by (auto intro: below_mono)
  from EConditional.IH(2) [OF i2 this] have 2: "n1 \<le> n2" "below n2 (outVars r2)" by simp_all
  have "below n2 (inputNames e)" "below n2 (set mv)" "below n2 (envVars env)"
    using EConditional.prems 1(1) 2(1) by (auto intro: below_mono)
  from EConditional.IH(3) [OF i3 this] have 3: "n2 \<le> n3" "below n3 (outVars r3)" by simp_all
  have B: "below (Suc (Suc n3)) (outVars r1)" "below (Suc (Suc n3)) (outVars r2)"
    "below (Suc (Suc n3)) (outVars r3)"
    using 1 2 3 by (auto intro: below_mono)
  from EConditional.prems(1) i1 i2 i3 1(1) 2(1) 3(1) B show ?case
    by (auto simp: generateUniqueTVar_eq outVars_def)
next
  case (EFunction positionalArgs b l i)
  have b: "below n (\<Union>e \<in> set b. inputNames e)" using EFunction.prems(2) by simp
  have IH: "\<And>e mv k y k'. e \<in> set b \<Longrightarrow> infer e mv env k = Inr (y, k')
              \<Longrightarrow> below k (inputNames e) \<Longrightarrow> below k (set mv) \<Longrightarrow> below k (envVars env)
              \<Longrightarrow> k \<le> k' \<and> below k' (outVars y)"
    using EFunction.IH by blast
  have "\<exists>n3. n \<le> n3 \<and> n' = Suc n3
           \<and> effect (info (result r)) = TVar (tvarName n') False
           \<and> below n3 (typeVariables (type (info (result r))))
           \<and> (\<forall>c \<in> set (constraints r). below n3 (constraintVars c))
           \<and> (\<forall>a \<in> set (assumptions r). below n3 (exprVars a))
           \<and> (\<exists>body. result r = EFunction positionalArgs body l (info (result r))
                  \<and> (\<forall>e \<in> set body. below n3 (exprVars e)))"
    by (rule function_constraints_below [OF EFunction.prems(1) _ b EFunction.prems(3,4)])
       (rule IH; assumption)
  then obtain n3 body where
    f: "n \<le> n3" "n' = Suc n3" "effect (info (result r)) = TVar (tvarName n') False"
    "below n3 (typeVariables (type (info (result r))))"
    "\<forall>c \<in> set (constraints r). below n3 (constraintVars c)"
    "\<forall>a \<in> set (assumptions r). below n3 (exprVars a)"
    "result r = EFunction positionalArgs body l (info (result r))"
    "\<forall>e \<in> set body. below n3 (exprVars e)"
    by blast
  have "exprVars (result r) = infoVars (info (result r)) \<union> (\<Union>e \<in> set body. exprVars e)"
    by (subst f(7)) simp
  then have "below n' (exprVars (result r))"
    using f by (auto simp: infoVars_def intro: below_mono)
  with f show ?case by (auto simp: outVars_def intro: below_mono)
next
  case (EFunctionCall fn args l i)
  from EFunctionCall.prems(1) obtain r1 n1 r2 n2 where
    i1: "infer fn mv env n = Inr (r1, n1)" and i2: "inferMany args mv env n1 = Inr (r2, n2)"
    by (auto simp: Let_def split: sum.splits prod.splits)
  from EFunctionCall.IH(1) [OF i1] EFunctionCall.prems have 1: "n \<le> n1" "below n1 (outVars r1)"
    by simp_all
  have "below n1 (\<Union>e \<in> set args. inputNames e)" "below n1 (set mv)" "below n1 (envVars env)"
    using EFunctionCall.prems 1(1) by (auto intro: below_mono)
  from inferMany_below [OF i2 EFunctionCall.IH(2) this]
  have 2: "n1 \<le> n2" "below n2 (outVarsMany r2)" by simp_all
  have B: "below (Suc (Suc n2)) (outVars r1)" "below (Suc (Suc n2)) (outVarsMany r2)"
    using 1 2 by (auto intro: below_mono)
  have T: "\<forall>a \<in> set (result r2). below (Suc (Suc n2)) (typeVariables (type (info a)))"
  proof
    fix a assume "a \<in> set (result r2)"
    then have "below (Suc (Suc n2)) (exprVars a)" using B(2) by (simp add: outVarsMany_def)
    then show "below (Suc (Suc n2)) (typeVariables (type (info a)))"
      using exprVars_info [of a] by (auto simp: infoVars_def intro: below_subset)
  qed
  from EFunctionCall.prems(1) i1 i2 1(1) 2(1) B T show ?case
    by (auto simp: generateUniqueTVar_eq outVars_def outVarsMany_def Let_def)
next
  case (EDoBlock b returning l i)
  from EDoBlock.prems(1) obtain r1 n1 r2 n2 where
    i1: "inferMany b mv env n = Inr (r1, n1)" and i2: "infer returning mv env n1 = Inr (r2, n2)"
    by (auto simp: Let_def split: sum.splits prod.splits)
  have "below n (\<Union>e \<in> set b. inputNames e)" using EDoBlock.prems by simp
  from inferMany_below [OF i1 EDoBlock.IH(1) this EDoBlock.prems(3,4)]
  have 1: "n \<le> n1" "below n1 (outVarsMany r1)" by simp_all
  have "below n1 (inputNames returning)" "below n1 (set mv)" "below n1 (envVars env)"
    using EDoBlock.prems 1(1) by (auto intro: below_mono)
  from EDoBlock.IH(2) [OF i2 this] have 2: "n1 \<le> n2" "below n2 (outVars r2)" by simp_all
  have B: "below (Suc n2) (outVarsMany r1)" "below (Suc n2) (outVars r2)"
    using 1 2 by (auto intro: below_mono)
  have T: "below (Suc n2) (typeVariables (type (info (result r2))))"
    using B(2) exprVars_info [of "result r2"]
    by (auto simp: infoVars_def outVars_def intro: below_subset)
  from EDoBlock.prems(1) i1 i2 1(1) 2(1) B T show ?case
    by (auto simp: generateUniqueTVar_eq outVars_def outVarsMany_def Let_def)
next
  case (ETypeAnnotation tw v l i)
  from ETypeAnnotation.prems(1) obtain r1 n1 where
    i1: "infer v mv env n = Inr (r1, n1)"
    by (auto simp: Let_def split: sum.splits prod.splits)
  from ETypeAnnotation.IH [OF i1] ETypeAnnotation.prems have 1: "n \<le> n1" "below n1 (outVars r1)"
    by simp_all
  obtain t0 n2 where ins: "instantiate tw n1 = (t0, n2)" by (cases "instantiate tw n1") auto
  have "below n1 (typeVariables (wildcardBody tw))"
    using ETypeAnnotation.prems(2) 1(1) by (auto intro: below_mono)
  from instantiate_below [OF ins this] have 2: "n1 \<le> n2" "below n2 (typeVariables t0)" by simp_all
  from ETypeAnnotation.prems(1) i1 ins obtain t where
    ex: "expandTypeAliases t0 env = Some (Inr t)"
    and r: "r = InferResult (ETypeAnnotation tw (result r1) l (Typed t (effect (info (result r1)))))
                  (constraints r1 @ [constEqual (result r1) t]) (assumptions r1)"
    and n': "n' = n2"
    by (auto simp: Let_def split: option.splits sum.splits)
  have "below n2 (envVars env)" using ETypeAnnotation.prems(4) 1(1) 2(1) by (auto intro: below_mono)
  with 2(2) expandTypeAliases_vars [OF ex] have T: "below n2 (typeVariables t)"
    by (auto intro: below_subset [of n2 "typeVariables t0 \<union> envVars env"])
  have B: "below n2 (outVars r1)" using 1(2) 2(1) by (rule below_mono)
  have E: "below n2 (typeVariables (effect (info (result r1))))"
    using B exprVars_info [of "result r1"]
    by (auto simp: infoVars_def outVars_def intro: below_subset)
  show ?case unfolding r n' using 1(1) 2(1) B T E by (auto simp: outVars_def)
next
  case (ERecord fields ext l i)
  let ?f = "\<lambda>(label, v) k.
              case infer v mv env k of
                Inl e \<Rightarrow> Inl e
              | Inr (r, k1) \<Rightarrow> Inr ((label, r), k1)"
  from ERecord.prems(1) obtain inferred n1 where
    m: "mapS ?f fields n = Inr (inferred, n1)"
    by (auto simp: Let_def split: sum.splits prod.splits)
  have 1: "n \<le> n1 \<and> (\<forall>y \<in> set inferred. below n1 (outVars (snd y)))"
  proof (rule mapS_below [OF m])
    fix x k y k'
    assume x: "x \<in> set fields" and k: "n \<le> k" and fx: "?f x k = Inr (y, k')"
    obtain label v where xv: "x = (label, v)" by (cases x)
    from fx xv obtain rr where i: "infer v mv env k = Inr (rr, k')" and y: "y = (label, rr)"
      by (auto split: sum.splits prod.splits)
    have v: "v \<in> Basic_BNFs.snds x" using xv by simp
    have "below n (inputNames v)" using ERecord.prems(2) x xv by auto
    then have "below k (inputNames v)" "below k (set mv)" "below k (envVars env)"
      using ERecord.prems(3,4) k by (auto intro: below_mono)
    from ERecord.IH(1) [OF x v i this] y show "k \<le> k' \<and> below k' (outVars (snd y))" by simp
  qed
  then have n1: "n \<le> n1" and F1: "\<forall>y \<in> set inferred. below n1 (outVars (snd y))" by simp_all
  have T1: "\<forall>y \<in> set inferred. below n1 (typeVariables (type (info (result (snd y)))))"
  proof
    fix y assume "y \<in> set inferred"
    with F1 have "below n1 (exprVars (result (snd y)))" by (simp add: outVars_def)
    then show "below n1 (typeVariables (type (info (result (snd y)))))"
      using exprVars_info [of "result (snd y)"] by (auto simp: infoVars_def intro: below_subset)
  qed
  show ?case
  proof (cases ext)
    case None
    from ERecord.prems(1) m None have
      r: "r = InferResult
                     (ERecord (map (\<lambda>(label, r). (label, result r)) inferred) None l
                        (Typed
                           (tRecord
                              (map (\<lambda>(label, r). (name label, type (info (result r)))) inferred)
                              emptyRow)
                           (TVar (tvarName (Suc (Suc n1))) False)))
                     (concat (map (\<lambda>(label, r). constraints r) inferred)
                       @ map (\<lambda>(label, r). constEffect (result r) (TVar (tvarName (Suc (Suc n1))) False))
                           inferred)
                     (concat (map (\<lambda>(label, r). assumptions r) inferred))"
      and n': "n' = Suc (Suc n1)"
      by (auto simp: Let_def generateUniqueTVar_eq)
    have F: "\<forall>y \<in> set inferred. below n' (outVars (snd y))"
      and T: "\<forall>y \<in> set inferred. below n' (typeVariables (type (info (result (snd y)))))"
      using F1 T1 n' by (auto intro: below_mono)
    show ?thesis unfolding r using n1 n' F T
      by (auto simp: outVars_def case_prod_unfold)
  next
    case (Some x)
    from ERecord.prems(1) m Some obtain rt n2 where
      i: "infer x mv env n1 = Inr (rt, n2)"
      by (auto simp: Let_def split: sum.splits prod.splits)
    have "below n1 (inputNames x)" "below n1 (set mv)" "below n1 (envVars env)"
      using ERecord.prems(2,3,4) Some n1 by (auto intro: below_mono)
    from ERecord.IH(2) [OF _ i this] Some have 2: "n1 \<le> n2" "below n2 (outVars rt)" by simp_all
    obtain fresh n5 where g: "generateUniqueTVars (length inferred) (Suc (Suc n2)) = (fresh, n5)"
      by (cases "generateUniqueTVars (length inferred) (Suc (Suc n2))") auto
    from generateUniqueTVars_below [OF g] have g': "n5 = Suc (Suc n2) + length inferred"
      "\<forall>t \<in> set fresh. below n5 (typeVariables t)" by blast+
    from ERecord.prems(1) m Some i g have
      r: "r = InferResult
                     (ERecord (map (\<lambda>(label, r). (label, result r)) inferred) (Some (result rt)) l
                        (Typed
                           (tRecord
                              (map (\<lambda>(label, r). (name label, type (info (result r)))) inferred)
                              (TVar (tvarName (Suc n2)) False))
                           (TVar (tvarName (Suc (Suc n2))) False)))
                     (concat (map (\<lambda>(label, r). constraints r) inferred)
                       @ constraints rt
                       @ [constEqual (result rt)
                                 (tRecord (zip (map (\<lambda>(label, r). name label) inferred) fresh)
                                    (TVar (tvarName (Suc n2)) False))]
                       @ map (\<lambda>(label, r). constEffect (result r) (TVar (tvarName (Suc (Suc n2))) False))
                           inferred
                       @ [constEffect (result rt) (TVar (tvarName (Suc (Suc n2))) False)])
                     (concat (map (\<lambda>(label, r). assumptions r) inferred) @ assumptions rt)"
      and n': "n' = n5"
      by (auto simp: Let_def generateUniqueTVar_eq)
    have le: "n1 \<le> n5" "n2 \<le> n5" "Suc n2 \<le> n5" "Suc (Suc n2) \<le> n5" using 2(1) g'(1) by simp_all
    have F: "\<forall>y \<in> set inferred. below n5 (outVars (snd y))"
      and T: "\<forall>y \<in> set inferred. below n5 (typeVariables (type (info (result (snd y)))))"
      and R: "below n5 (outVars rt)"
      using F1 T1 2(2) le by (auto intro: below_mono)
    have Z: "\<forall>p \<in> set (zip (map (\<lambda>(label, r). name label) inferred) fresh).
               below n5 (typeVariables (snd p))"
      using g'(2) by (auto dest: set_zip_rightD)
    show ?thesis unfolding r n' using n1 le F T R Z
      by (auto simp: outVars_def case_prod_unfold)
  qed
next
  case (ELetBindings bindings b l i)
  let ?f = "\<lambda>(variable, v) k.
                 case infer v mv env k of
                   Inl err \<Rightarrow> Inl err
                 | Inr (r, k1) \<Rightarrow> Inr ((variable, r), k1)"
  from ELetBindings.prems(1) obtain bindingsInfo n1 where
    m: "mapS ?f bindings n = Inr (bindingsInfo, n1)"
    by (auto simp: Let_def split: sum.splits prod.splits)
  have 1: "n \<le> n1 \<and> (\<forall>y \<in> set bindingsInfo. below n1 (outVars (snd y)))"
  proof (rule mapS_below [OF m])
    fix x k y k'
    assume x: "x \<in> set bindings" and k: "n \<le> k" and fx: "?f x k = Inr (y, k')"
    obtain variable v where xv: "x = (variable, v)" by (cases x)
    from fx xv obtain rr where i: "infer v mv env k = Inr (rr, k')" and y: "y = (variable, rr)"
      by (auto split: sum.splits prod.splits)
    have v: "v \<in> Basic_BNFs.snds x" using xv by simp
    have "below n (inputNames v)" using ELetBindings.prems(2) x xv by auto
    then have "below k (inputNames v)" "below k (set mv)" "below k (envVars env)"
      using ELetBindings.prems(3,4) k by (auto intro: below_mono)
    from ELetBindings.IH(1) [OF x v i this] y show "k \<le> k' \<and> below k' (outVars (snd y))" by simp
  qed
  then have n1: "n \<le> n1" and F1: "\<forall>y \<in> set bindingsInfo. below n1 (outVars (snd y))" by simp_all
  from ELetBindings.prems(1) m obtain bo n2 where
    im: "inferMany b mv env n1 = Inr (bo, n2)"
    by (auto simp: Let_def split: sum.splits prod.splits)
  have b1: "below n1 (\<Union>e \<in> set b. inputNames e)" "below n1 (set mv)" "below n1 (envVars env)"
    using ELetBindings.prems(2,3,4) n1 by (auto intro: below_mono)
  have 2: "n1 \<le> n2 \<and> below n2 (outVarsMany bo)"
    by (rule inferMany_below [OF im _ b1]) (rule ELetBindings.IH(2); assumption)
  from ELetBindings.prems(1) m im obtain lastForm where lf: "last_opt (result bo) = Some lastForm"
    by (auto simp: Let_def split: sum.splits prod.splits option.splits)
  then have lfm: "lastForm \<in> set (result bo)"
    by (auto simp: last_opt_def split: if_splits)
  let ?bound = "set (map (\<lambda>(variable, v). name variable) bindings)"
  let ?eff = "TVar (tvarName (Suc n2)) False"
  define inst where
    "inst = map (\<lambda>v. case find (\<lambda>(variable, r). name variable = node_name v) bindingsInfo of
                                       Some (variable, r) \<Rightarrow>
                                         constImplicitInstance v mv (Value (type (info (result r)))))
                             (filter (\<lambda>v. node_name v \<in> ?bound) (assumptions bo))"
  from ELetBindings.prems(1) m im lf have
    r: "r = InferResult
                       (ELetBindings (map (\<lambda>(variable, r). (variable, result r)) bindingsInfo)
                          (result bo) l
                          (Typed (type (info lastForm)) ?eff))
                       (constraints bo
                         @ concat (map (\<lambda>(variable, r). constraints r) bindingsInfo)
                         @ inst
                         @ map (\<lambda>(variable, r). constEffect (result r) (tEffect [])) bindingsInfo
                         @ map (\<lambda>form. constEffect form ?eff) (result bo))
                       (filter (\<lambda>v. node_name v \<notin> ?bound) (assumptions bo)
                         @ concat (map (\<lambda>(variable, r). assumptions r) bindingsInfo))"
    and n': "n' = Suc n2"
    by (auto simp: Let_def generateUniqueTVar_eq inst_def)
  have le: "n1 \<le> Suc n2" "n2 \<le> Suc n2" "n \<le> Suc n2" using n1 2 by simp_all
  have F: "\<forall>y \<in> set bindingsInfo. below (Suc n2) (outVars (snd y))"
    and B: "below (Suc n2) (outVarsMany bo)"
    and M: "below (Suc n2) (set mv)"
    using F1 2 le ELetBindings.prems(3) by (auto intro: below_mono)
  have T: "below (Suc n2) (typeVariables (type (info lastForm)))"
  proof -
    have "below (Suc n2) (exprVars lastForm)" using B lfm by (simp add: outVarsMany_def)
    then show ?thesis
      using exprVars_info [of lastForm] by (auto simp: infoVars_def intro: below_subset)
  qed
  have fsts: "map fst bindingsInfo = map fst bindings" using m by (rule mapS_fst)
  have I: "\<forall>c \<in> set inst. below (Suc n2) (constraintVars c)"
  proof
    fix c assume "c \<in> set inst"
    then have "c \<in> (\<lambda>v. case find (\<lambda>(variable, r). name variable = node_name v) bindingsInfo of
                     Some (variable, r) \<Rightarrow> constImplicitInstance v mv (Value (type (info (result r)))))
                 ` set (filter (\<lambda>v. node_name v \<in> ?bound) (assumptions bo))"
      by (simp only: inst_def set_map)
    then obtain v where vf: "v \<in> set (filter (\<lambda>v. node_name v \<in> ?bound) (assumptions bo))"
      and c: "c = (case find (\<lambda>(variable, r). name variable = node_name v) bindingsInfo of
                     Some (variable, r) \<Rightarrow> constImplicitInstance v mv (Value (type (info (result r)))))"
      by (rule imageE)
    from vf have v: "v \<in> set (assumptions bo)" "node_name v \<in> ?bound" by simp_all
    from v(2) have "node_name v \<in> name ` set (map fst bindings)" by (force simp: case_prod_unfold)
    then have "node_name v \<in> name ` set (map fst bindingsInfo)" using fsts by simp
    then have "\<exists>x \<in> set bindingsInfo. (case x of (variable, r) \<Rightarrow> name variable = node_name v)"
      by (force simp: case_prod_unfold)
    then have "find (\<lambda>(variable, r). name variable = node_name v) bindingsInfo \<noteq> None"
      by (auto simp: find_None_iff)
    then obtain variable rr where
      fd: "find (\<lambda>(variable, r). name variable = node_name v) bindingsInfo = Some (variable, rr)"
      by auto
    from find_SomeD [OF fd] have "(variable, rr) \<in> set bindingsInfo" by simp
    with F have "below (Suc n2) (outVars rr)" by force
    then have "below (Suc n2) (typeVariables (type (info (result rr))))"
      using exprVars_info [of "result rr"]
      by (auto simp: infoVars_def outVars_def intro: below_subset)
    moreover have "below (Suc n2) (exprVars v)" using B v(1) by (simp add: outVarsMany_def)
    ultimately show "below (Suc n2) (constraintVars c)" using c fd M by simp
  qed
  show ?case unfolding r n'
    using le F B T I
    by (auto simp: outVars_def outVarsMany_def case_prod_unfold)
next
  case (EMatch v cases l i)
  from EMatch.prems(1) obtain val n1 where i1: "infer v mv env n = Inr (val, n1)"
    by (auto simp: Let_def split: sum.splits prod.splits)
  from EMatch.IH(1) [OF i1] EMatch.prems have 1: "n \<le> n1" "below n1 (outVars val)" by simp_all
  let ?f = "\<lambda>(label, variable, b) k.
              case inferMany b (mv @ [name variable]) env k of
                Inl err \<Rightarrow> Inl err
              | Inr (r, k1) \<Rightarrow> Inr ((label, variable, r), k1)"
  from EMatch.prems(1) i1 obtain cs n2 where m: "mapS ?f cases n1 = Inr (cs, n2)"
    by (auto simp: Let_def split: sum.splits prod.splits)
  have 2: "n1 \<le> n2 \<and> (\<forall>y \<in> set cs. below n2 (outVarsMany (snd (snd y))))"
  proof (rule mapS_below [OF m])
    fix x k y k'
    assume x: "x \<in> set cases" and k: "n1 \<le> k" and fx: "?f x k = Inr (y, k')"
    obtain label variable b where xv: "x = (label, variable, b)" by (cases x)
    from fx xv obtain rr where
      im: "inferMany b (mv @ [name variable]) env k = Inr (rr, k')" and y: "y = (label, variable, rr)"
      by (auto split: sum.splits prod.splits)
    have nk: "n \<le> k" using 1(1) k by simp
    have "below n ({name variable} \<union> (\<Union>e \<in> set b. inputNames e))"
      using EMatch.prems(2) x xv by (auto simp del: below_insert)
    then have bk: "below k (\<Union>e \<in> set b. inputNames e)" "below k (set (mv @ [name variable]))"
      "below k (envVars env)"
      using EMatch.prems(3,4) nk by (auto intro: below_mono)
    have s1: "(variable, b) \<in> Basic_BNFs.snds x" using xv by simp
    have s2: "b \<in> Basic_BNFs.snds (variable, b)" by simp
    have "k \<le> k' \<and> below k' (outVarsMany rr)"
      by (rule inferMany_below [OF im _ bk]) (rule EMatch.IH(2) [OF x s1 s2]; assumption)
    with y show "k \<le> k' \<and> below k' (outVarsMany (snd (snd y)))" by simp
  qed
  then have n2: "n1 \<le> n2" and F2: "\<forall>y \<in> set cs. below n2 (outVarsMany (snd (snd y)))" by simp_all
  let ?t = "TVar (tvarName (Suc n2)) False"
  let ?eff = "TVar (tvarName (Suc (Suc n2))) False"
  obtain fresh n5 where g: "generateUniqueTVars (length cases) (Suc (Suc n2)) = (fresh, n5)"
    by (cases "generateUniqueTVars (length cases) (Suc (Suc n2))") auto
  from generateUniqueTVars_below [OF g] have g': "n5 = Suc (Suc n2) + length cases"
    "\<forall>t \<in> set fresh. below n5 (typeVariables t)" by blast+
  let ?variantTypes = "zip (map (\<lambda>(label, variable, b). label) cases) fresh"
  let ?inner = "\<lambda>label variable. (\<lambda>a.
                                  if node_name a = name variable then
                                    (case find (\<lambda>(lab, vt). lab = label) ?variantTypes of
                                       None \<Rightarrow> Inl (InvariantViolation
                                                  (''Unknown invariant case '' @ label))
                                     | Some (lab, vt) \<Rightarrow> Inr [constEqual a vt])
                                  else Inr [])"
  let ?g = "\<lambda>(label, variable, r).
                     case last_opt (result r) of
                       None \<Rightarrow> Inl (InvariantViolation ''Missing returning form!'')
                     | Some returningForm \<Rightarrow>
                         (case mapE (?inner label variable) (assumptions r) of
                            Inl err \<Rightarrow> Inl err
                          | Inr css \<Rightarrow> Inr (constEqual returningForm ?t # concat css))"
  from EMatch.prems(1) i1 m g obtain caseConstraints where
    cc: "mapE ?g cs = Inr caseConstraints"
    and r: "r = InferResult
                    (EMatch (result val)
                       (map (\<lambda>(label, variable, r). (label, variable, result r)) cs) l
                       (Typed ?t ?eff))
                    (constraints val
                      @ concat (map (\<lambda>(label, variable, r). constraints r) cs)
                      @ [constEqual (result val) (tVariant ?variantTypes)]
                      @ concat caseConstraints)
                    (assumptions val
                      @ concat (map (\<lambda>(label, variable, r).
                                  filter (\<lambda>a. node_name a \<noteq> name variable) (assumptions r)) cs))"
    and n': "n' = n5"
    by (auto simp: Let_def generateUniqueTVar_eq split: sum.splits)
  have le: "n \<le> n5" "n1 \<le> n5" "n2 \<le> n5" "Suc n2 \<le> n5" "Suc (Suc n2) \<le> n5"
    using 1(1) n2 g'(1) by simp_all
  have V: "below n5 (outVars val)"
    and F: "\<forall>y \<in> set cs. below n5 (outVarsMany (snd (snd y)))"
    using 1(2) F2 le by (auto intro: below_mono)
  have Z: "\<forall>p \<in> set ?variantTypes. below n5 (typeVariables (snd p))"
    using g'(2) by (auto dest: set_zip_rightD)
  have C: "\<forall>c \<in> set (concat caseConstraints). below n5 (constraintVars c)"
  proof
    fix c assume "c \<in> set (concat caseConstraints)"
    then obtain ys where ys: "ys \<in> set caseConstraints" "c \<in> set ys" by auto
    from list_all2_in_right [OF mapE_InrD [OF cc] ys(1)]
    obtain x where x: "x \<in> set cs" "?g x = Inr ys"
      by blast
    obtain label variable rr where xv: "x = (label, variable, rr)" by (cases x)
    from x(2) xv obtain rf css where
      rf: "last_opt (result rr) = Some rf"
      and ie: "mapE (?inner label variable) (assumptions rr) = Inr css"
      and yse: "ys = constEqual rf ?t # concat css"
      by (auto split: option.splits sum.splits)
    from F x(1) xv have Br: "below n5 (outVarsMany rr)" by force
    from rf have "rf \<in> set (result rr)" by (auto simp: last_opt_def split: if_splits)
    with Br have rfb: "below n5 (exprVars rf)" by (simp add: outVarsMany_def)
    show "below n5 (constraintVars c)"
    proof (cases "c = constEqual rf ?t")
      case True
      with rfb le show ?thesis by simp
    next
      case False
      with ys(2) yse obtain zs where zs: "zs \<in> set css" "c \<in> set zs" by auto
      from list_all2_in_right [OF mapE_InrD [OF ie] zs(1)]
      obtain a where
        a: "a \<in> set (assumptions rr)" "?inner label variable a = Inr zs"
        by blast
      from a(2) zs(2) obtain lab vt where
        fd: "find (\<lambda>(lab, vt). lab = label) ?variantTypes = Some (lab, vt)"
        and ce: "c = constEqual a vt"
        by (auto split: if_splits option.splits)
      from find_SomeD [OF fd] have "(lab, vt) \<in> set ?variantTypes" by blast
      with Z have "below n5 (typeVariables vt)" by force
      moreover from Br a(1) have "below n5 (exprVars a)" by (simp add: outVarsMany_def)
      ultimately show ?thesis using ce by simp
    qed
  qed
  show ?case unfolding r n'
    using le V F Z C
    by (auto simp: outVars_def outVarsMany_def case_prod_unfold)
qed

lemma forEachE_Inr: "forEachE f xs = Inr u \<longleftrightarrow> (\<forall>x \<in> set xs. f x = Inr ())"
  by (induction xs) (auto split: sum.splits)

lemma visit_Inr:
  "visit allTypeAliases a path = Inr u \<longleftrightarrow>
     a \<notin> set path
     \<and> (\<forall>d. (a, d) \<in> declEdges allTypeAliases \<longrightarrow> visit allTypeAliases d (path @ [a]) = Inr ())"
proof (cases "indexOf path a")
  case None
  then have np: "a \<notin> set path" by (simp add: indexOf_None)
  have "visit allTypeAliases a path = Inr u \<longleftrightarrow>
        (\<forall>dep \<in> set (map (\<lambda>ud. find (\<lambda>x. name (aliasId x) = ud) allTypeAliases)
               (listTypeConstants (aliasDefinition a))).
           (case dep of None \<Rightarrow> Inr () | Some d \<Rightarrow> visit allTypeAliases d (path @ [a])) = Inr ())"
    using None by (subst visit.simps) (simp add: forEachE_Inr)
  also have "\<dots> \<longleftrightarrow> (\<forall>d. (a, d) \<in> declEdges allTypeAliases
                        \<longrightarrow> visit allTypeAliases d (path @ [a]) = Inr ())"
    by (auto simp: declEdges_def split: option.splits)
  finally show ?thesis using np by simp
next
  case (Some index)
  then have "a \<in> set path"
    using indexOf_None [of path a] by auto
  moreover have "visit allTypeAliases a path \<noteq> Inr u"
    using Some by (subst visit.simps) (simp add: Let_def)
  ultimately show ?thesis by simp
qed

lemma visit_reach:
  assumes "(a, b) \<in> (declEdges allTypeAliases)\<^sup>*" and "visit allTypeAliases a path = Inr ()"
  shows "\<exists>path'. visit allTypeAliases b path' = Inr () \<and> set path \<subseteq> set path'
                 \<and> (a = b \<or> a \<in> set path')"
  using assms
proof (induction rule: rtrancl_induct)
  case base
  then show ?case by blast
next
  case (step b c)
  then obtain path' where p: "visit allTypeAliases b path' = Inr ()" "set path \<subseteq> set path'"
    "a = b \<or> a \<in> set path'" by blast
  from p(1) step.hyps(2) have "visit allTypeAliases c (path' @ [b]) = Inr ()"
    using visit_Inr [of allTypeAliases b path' "()"] by blast
  moreover have "set path \<subseteq> set (path' @ [b])" using p(2) by auto
  moreover have "a \<in> set (path' @ [b])" using p(3) by auto
  ultimately show ?case by blast
qed

lemma visit_no_cycle:
  assumes "visit allTypeAliases a [] = Inr ()"
  shows "(a, a) \<notin> (declEdges allTypeAliases)\<^sup>+"
proof
  assume "(a, a) \<in> (declEdges allTypeAliases)\<^sup>+"
  then obtain c where c: "(a, c) \<in> declEdges allTypeAliases"
    "(c, a) \<in> (declEdges allTypeAliases)\<^sup>*"
    by (meson tranclD)
  from assms c(1) have "visit allTypeAliases c ([] @ [a]) = Inr ()"
    using visit_Inr [of allTypeAliases a "[]" "()"] by blast
  from visit_reach [OF c(2) this] obtain path' where
    p: "visit allTypeAliases a path' = Inr ()" "set ([] @ [a]) \<subseteq> set path'" by blast
  from p(1) have "a \<notin> set path'" using visit_Inr [of allTypeAliases a path' "()"] by blast
  with p(2) show False by simp
qed

lemma checkCircularTypes_acyclic:
  assumes "checkCircularTypes allTypeAliases = Inr ()"
  shows "acyclic (declEdges allTypeAliases)"
  unfolding acyclic_def
proof (intro allI notI)
  fix x assume x: "(x, x) \<in> (declEdges allTypeAliases)\<^sup>+"
  then obtain y where "(y, x) \<in> declEdges allTypeAliases" by (meson tranclE)
  then have "x \<in> set allTypeAliases" by (auto simp: declEdges_def dest: find_SomeD)
  with assms have "visit allTypeAliases x [] = Inr ()"
    by (simp add: checkCircularTypes_def forEachE_Inr)
  from visit_no_cycle [OF this] x show False by simp
qed

lemma foldl_upd_map_of:
  "foldl (\<lambda>env a. env(k a \<mapsto> v a)) m xs = m ++ map_of (rev (map (\<lambda>a. (k a, v a)) xs))"
  by (induction xs arbitrary: m) (auto simp: map_add_upd_left fun_eq_iff map_add_def split: option.splits)

lemma internalTypesOf_aliasTable:
  "internalTypesOf forms = aliasTable (typeAliasesOf forms)"
proof -
  have "foldl (\<lambda>env s. case s of
                      STypeAliasDecl a \<Rightarrow> env(name (aliasId a) \<mapsto> aliasDefinition a)
                    | _ \<Rightarrow> env) m forms
        = foldl (\<lambda>env a. env(name (aliasId a) \<mapsto> aliasDefinition a)) m
            (List.map_filter (\<lambda>s. case s of STypeAliasDecl a \<Rightarrow> Some a | _ \<Rightarrow> None) forms)"
    for m :: InternalTypeEnvironment
    by (induction forms arbitrary: m) (auto simp: List.map_filter_simps split: Syntax.splits)
  then show ?thesis by (simp add: internalTypesOf_def aliasTable_def typeAliasesOf_def)
qed

lemma aliasTable_lookup:
  assumes "distinct (map (\<lambda>a. name (aliasId a)) aliases)"
  shows "aliasTable aliases nm = Some d
         \<longleftrightarrow> (\<exists>a \<in> set aliases. name (aliasId a) = nm \<and> aliasDefinition a = d)"
proof -
  have d: "distinct (map fst (rev (map (\<lambda>a. (name (aliasId a), aliasDefinition a)) aliases)))"
    using assms by (simp add: rev_map [symmetric] comp_def distinct_rev)
  show ?thesis
    unfolding aliasTable_def foldl_upd_map_of
    using map_of_eq_Some_iff [OF d] by auto
qed

lemma aliasTable_finite: "finite (dom (aliasTable aliases))"
  unfolding aliasTable_def foldl_upd_map_of by (simp add: finite_dom_map_of)

lemma find_by_name:
  assumes "distinct (map (\<lambda>a. name (aliasId a)) aliases)" and "a \<in> set aliases"
  shows "find (\<lambda>x. name (aliasId x) = name (aliasId a)) aliases = Some a"
  using assms
proof (induction aliases)
  case Nil
  then show ?case by simp
next
  case (Cons x xs)
  then show ?case by (cases "x = a") (auto simp: image_iff)
qed

lemma aliasReferences_declEdges:
  assumes dist: "distinct (map (\<lambda>a. name (aliasId a)) aliases)"
    and e: "(b, a) \<in> aliasReferences (aliasTable aliases)"
  shows "\<exists>da db. da \<in> set aliases \<and> db \<in> set aliases
           \<and> name (aliasId da) = a \<and> name (aliasId db) = b \<and> (da, db) \<in> declEdges aliases"
proof -
  from e obtain d d2 where d: "aliasTable aliases a = Some d" "b \<in> set (listTypeConstants d)"
    "aliasTable aliases b = Some d2"
    by (auto simp: aliasReferences_def)
  from d(1) aliasTable_lookup [OF dist] obtain da where
    da: "da \<in> set aliases" "name (aliasId da) = a" "aliasDefinition da = d" by blast
  from d(3) aliasTable_lookup [OF dist] obtain db where
    db: "db \<in> set aliases" "name (aliasId db) = b" by blast
  from find_by_name [OF dist db(1)] db(2)
  have "find (\<lambda>x. name (aliasId x) = b) aliases = Some db" by simp
  with d(2) da(3) have "(da, db) \<in> declEdges aliases" by (auto simp: declEdges_def)
  with da db show ?thesis by blast
qed

lemma aliasReferences_acyclic:
  assumes dist: "distinct (map (\<lambda>a. name (aliasId a)) aliases)"
    and acyc: "acyclic (declEdges aliases)"
  shows "acyclic (aliasReferences (aliasTable aliases))"
  unfolding acyclic_def
proof (intro allI notI)
  fix x assume x: "(x, x) \<in> (aliasReferences (aliasTable aliases))\<^sup>+"
  have "(b, a) \<in> (aliasReferences (aliasTable aliases))\<^sup>+ \<Longrightarrow>
        \<exists>da db. da \<in> set aliases \<and> db \<in> set aliases
           \<and> name (aliasId da) = a \<and> name (aliasId db) = b \<and> (da, db) \<in> (declEdges aliases)\<^sup>+"
    for a b
  proof (induction rule: trancl_induct)
    case (base a)
    from aliasReferences_declEdges [OF dist base] show ?case by blast
  next
    case (step a c)
    then obtain da db where 1: "da \<in> set aliases" "db \<in> set aliases"
      "name (aliasId da) = a" "name (aliasId db) = b" "(da, db) \<in> (declEdges aliases)\<^sup>+"
      by blast
    from aliasReferences_declEdges [OF dist step.hyps(2)] obtain dc da' where
      2: "dc \<in> set aliases" "da' \<in> set aliases" "name (aliasId dc) = c" "name (aliasId da') = a"
      "(dc, da') \<in> declEdges aliases" by blast
    from 1(1,3) 2(2,4) dist have "da' = da"
      by (metis find_by_name option.inject)
    with 1(5) 2(5) have "(dc, db) \<in> (declEdges aliases)\<^sup>+"
      by (auto intro: trancl_into_trancl2)
    with 1(2,4) 2(1,3) show ?case by blast
  qed
  from this [OF x] obtain da db where
    "da \<in> set aliases" "db \<in> set aliases" "name (aliasId da) = x" "name (aliasId db) = x"
    "(da, db) \<in> (declEdges aliases)\<^sup>+" by blast
  moreover then have "da = db" using dist by (metis find_by_name option.inject)
  ultimately show False using acyc by (auto simp: acyclic_def)
qed

lemma checked_module_aliases_acyclic:
  assumes "checkCircularTypes (typeAliasesOf forms) = Inr ()"
    and "distinct (map (\<lambda>a. name (aliasId a)) (typeAliasesOf forms))"
  shows "finite (dom (internalTypesOf forms)) \<and> acyclic (aliasReferences (internalTypesOf forms))"
  unfolding internalTypesOf_aliasTable
  using aliasTable_finite aliasReferences_acyclic [OF assms(2) checkCircularTypes_acyclic [OF assms(1)]]
  by blast

lemma internalTypesOf_ran:
  "d \<in> ran (internalTypesOf forms) \<Longrightarrow> d \<in> aliasDefinition ` set (typeAliasesOf forms)"
  unfolding internalTypesOf_aliasTable aliasTable_def foldl_upd_map_of
  by (auto simp: ran_def dest!: map_of_SomeD)

lemmas eval_simps = generateUniqueTVar_def tVar_def tvarName_def string_of_nat.simps digit_char_def
  Let_def last_opt_def inferMany.simps

section \<open>Literals\<close>

text \<open>
  C6 (as amended). For every number literal and every string literal, \<^verbatim>\<open>infer\<close>
  returns the node typed with the constant type \<^verbatim>\<open>number\<close>, respectively
  \<^verbatim>\<open>string\<close>, and with the variable drawn from the counter as its effect; it emits
  no constraint and no assumption. There is no boolean literal among the forms
  \<^verbatim>\<open>infer\<close> dispatches on.
\<close>

theorem infer_literal_number_string:
  "infer (ENumber v l i) monovars internalTypes n =
     Inr (InferResult (ENumber v l (Typed tNumber (fst (generateUniqueTVar n)))) [] [],
          snd (generateUniqueTVar n))
   \<and> infer (EString s l i) monovars internalTypes n =
     Inr (InferResult (EString s l (Typed tString (fst (generateUniqueTVar n)))) [] [],
          snd (generateUniqueTVar n))"
  by (simp add: generateUniqueTVar_def)

text \<open>
  C6 as stated fails for booleans: \<^verbatim>\<open>true\<close> reaches \<^verbatim>\<open>infer\<close> as a variable
  reference. Its type is a fresh variable, not \<^verbatim>\<open>boolean\<close>, and one assumption is
  emitted for it.
\<close>

theorem infer_boolean_literal_counterexample:
  "infer (EVariableReference ''true'' (0, 0) ()) [] Map.empty 0 =
     Inr (InferResult
            (EVariableReference ''true'' (0, 0) (Typed (TVar ''t1'' False) (TVar ''t2'' False)))
            []
            [EVariableReference ''true'' (0, 0) (Typed (TVar ''t1'' False) (TVar ''t2'' False))],
          2)
   \<and> TVar ''t1'' False \<noteq> tBoolean"
  by (simp add: eval_simps tBoolean_def numeral_2_eq_2)

section \<open>Cycle check: the message for a self-loop\<close>

text \<open>
  C7. On a module whose only alias refers to itself, \<^verbatim>\<open>checkCircularTypes\<close> throws,
  but with the message of a longer cycle (\<^verbatim>\<open>A -> A\<close>): the cycle it builds always
  holds the alias twice, so the branch for \<^verbatim>\<open>cycle.length === 1\<close> is never taken.
\<close>

theorem checkCircularTypes_self_loop:
  "checkCircularTypes [STypeAlias (Identifier ''A'' (0, 0)) (TConstant ''A'') (0, 0)]
   = Inl (ErrorAt (''Cicular dependency in type aliases found'' @ [CHR 0x0A] @ ''  A -> A''
                    @ [CHR 0x0A]) (0, 0))"
  by (simp add: checkCircularTypes_def visit.simps [of _ _ "[]"] visit.simps [of _ _ "[x]" for x])

section \<open>Let bindings\<close>

text \<open>
  The let case when the generator returns on the binding values, in order, and on the
  body forms: the result is given in full.
\<close>

lemma let_bindings_result:
  assumes "mapS (\<lambda>(variable, v) k.
                   case infer v monovars internalTypes k of
                     Inl err \<Rightarrow> Inl err
                   | Inr (r, k1) \<Rightarrow> Inr ((variable, r), k1)) bindings n
           = Inr (bindingsInfo, n1)"
    and "inferMany body monovars internalTypes n1 = Inr (bodyInference, n2)"
  shows "(body = [] \<longrightarrow>
            infer (ELetBindings bindings body l i) monovars internalTypes n
            = Inl (TypeError ''Cannot read property 'info' of undefined''))
       \<and> (body \<noteq> [] \<longrightarrow>
            infer (ELetBindings bindings body l i) monovars internalTypes n
            = Inr (InferResult
                    (ELetBindings (map (\<lambda>(variable, b). (variable, result b)) bindingsInfo)
                       (result bodyInference) l
                       (Typed (type (info (last (result bodyInference))))
                          (TVar (tvarName (Suc n2)) False)))
                    (constraints bodyInference
                      @ concat (map (\<lambda>(variable, b). constraints b) bindingsInfo)
                      @ map (\<lambda>a. case find (\<lambda>(variable, b). name variable = node_name a)
                                          bindingsInfo of
                                    Some (variable, b) \<Rightarrow>
                                      constImplicitInstance a monovars
                                        (Value (type (info (result b)))))
                          (filter (\<lambda>a. node_name a \<in> set (map (\<lambda>(variable, v). name variable)
                                                              bindings))
                             (assumptions bodyInference))
                      @ map (\<lambda>(variable, b). constEffect (result b) (tEffect [])) bindingsInfo
                      @ map (\<lambda>form. constEffect form (TVar (tvarName (Suc n2)) False))
                          (result bodyInference))
                    (filter (\<lambda>a. node_name a \<notin> set (map (\<lambda>(variable, v). name variable)
                                                        bindings))
                       (assumptions bodyInference)
                      @ concat (map (\<lambda>(variable, b). assumptions b) bindingsInfo)),
                  Suc n2))
       \<and> map fst bindingsInfo = map fst bindings
       \<and> (\<forall>r n'. infer (ELetBindings bindings body l i) monovars internalTypes n = Inr (r, n')
            \<longrightarrow> (\<forall>j < length bindingsInfo.
                    constEffect (result (snd (bindingsInfo ! j))) (tEffect [])
                      \<in> set (constraints r))
              \<and> (\<forall>a \<in> set (assumptions bodyInference). \<forall>j < length bindings.
                    name (fst (bindings ! j)) = node_name a \<longrightarrow>
                    (\<forall>j' < j. name (fst (bindings ! j')) \<noteq> node_name a) \<longrightarrow>
                    constImplicitInstance a monovars
                      (Value (type (info (result (snd (bindingsInfo ! j))))))
                      \<in> set (constraints r)))"
proof -
  let ?bound = "set (map (\<lambda>(variable, v). name variable) bindings)"
  let ?eff = "TVar (tvarName (Suc n2)) False"
  let ?cs = "constraints bodyInference
      @ concat (map (\<lambda>(variable, b). constraints b) bindingsInfo)
      @ map (\<lambda>a. case find (\<lambda>(variable, b). name variable = node_name a) bindingsInfo of
                    Some (variable, b) \<Rightarrow>
                      constImplicitInstance a monovars (Value (type (info (result b)))))
          (filter (\<lambda>a. node_name a \<in> ?bound) (assumptions bodyInference))
      @ map (\<lambda>(variable, b). constEffect (result b) (tEffect [])) bindingsInfo
      @ map (\<lambda>form. constEffect form ?eff) (result bodyInference)"
  let ?as = "filter (\<lambda>a. node_name a \<notin> ?bound) (assumptions bodyInference)
      @ concat (map (\<lambda>(variable, b). assumptions b) bindingsInfo)"
  let ?res = "InferResult
                (ELetBindings (map (\<lambda>(variable, b). (variable, result b)) bindingsInfo)
                   (result bodyInference) l
                   (Typed (type (info (last (result bodyInference)))) ?eff))
                ?cs ?as"
  have lenb: "length (result bodyInference) = length body"
    using assms(2) by (rule inferMany_length)
  have empty: "infer (ELetBindings bindings body l i) monovars internalTypes n
               = Inl (TypeError ''Cannot read property 'info' of undefined'')"
    if "body = []"
  proof -
    from that lenb have "result bodyInference = []" by simp
    then show ?thesis
      using assms by (simp add: Let_def last_opt_def generateUniqueTVar_def)
  qed
  have nonempty: "infer (ELetBindings bindings body l i) monovars internalTypes n
                  = Inr (?res, Suc n2)"
    if "body \<noteq> []"
  proof -
    from that lenb have "result bodyInference \<noteq> []" by auto
    then show ?thesis
      using assms by (simp add: Let_def last_opt_def generateUniqueTVar_def tVar_def)
  qed
  have len: "length bindingsInfo = length bindings" using assms(1) by (rule mapS_length)
  have fsts: "map fst bindingsInfo = map fst bindings" using assms(1) by (rule mapS_fst)
  have fstj: "\<And>j. j < length bindings \<Longrightarrow> fst (bindingsInfo ! j) = fst (bindings ! j)"
    using fsts len by (metis nth_map)
  have members: "(\<forall>j < length bindingsInfo.
                    constEffect (result (snd (bindingsInfo ! j))) (tEffect [])
                      \<in> set (constraints r))
              \<and> (\<forall>a \<in> set (assumptions bodyInference). \<forall>j < length bindings.
                    name (fst (bindings ! j)) = node_name a \<longrightarrow>
                    (\<forall>j' < j. name (fst (bindings ! j')) \<noteq> node_name a) \<longrightarrow>
                    constImplicitInstance a monovars
                      (Value (type (info (result (snd (bindingsInfo ! j))))))
                      \<in> set (constraints r))"
    if h: "infer (ELetBindings bindings body l i) monovars internalTypes n = Inr (r, n')"
    for r n'
  proof -
    have ne: "body \<noteq> []"
    proof
      assume "body = []"
      from empty [OF this] h show False by simp
    qed
    from nonempty [OF ne] h have cs: "constraints r = ?cs" by auto
    have eff: "\<forall>j < length bindingsInfo.
                 constEffect (result (snd (bindingsInfo ! j))) (tEffect []) \<in> set (constraints r)"
    proof (intro allI impI)
      fix j assume j: "j < length bindingsInfo"
      then have "bindingsInfo ! j \<in> set bindingsInfo" by simp
      then have "(case bindingsInfo ! j of (variable, b) \<Rightarrow> constEffect (result b) (tEffect []))
                   \<in> set (constraints r)"
        unfolding cs by (auto intro!: imageI)
      then show "constEffect (result (snd (bindingsInfo ! j))) (tEffect []) \<in> set (constraints r)"
        by (simp add: case_prod_beta)
    qed
    have imp: "\<forall>a \<in> set (assumptions bodyInference). \<forall>j < length bindings.
                 name (fst (bindings ! j)) = node_name a \<longrightarrow>
                 (\<forall>j' < j. name (fst (bindings ! j')) \<noteq> node_name a) \<longrightarrow>
                 constImplicitInstance a monovars
                   (Value (type (info (result (snd (bindingsInfo ! j))))))
                   \<in> set (constraints r)"
    proof (intro ballI allI impI)
      fix a j
      assume a: "a \<in> set (assumptions bodyInference)" and j: "j < length bindings"
        and nm: "name (fst (bindings ! j)) = node_name a"
        and first: "\<forall>j' < j. name (fst (bindings ! j')) \<noteq> node_name a"
      have bound: "node_name a \<in> ?bound"
      proof -
        have "bindings ! j \<in> set bindings" using j by simp
        then have "name (fst (bindings ! j)) \<in> ?bound" by (force simp: case_prod_beta)
        then show ?thesis using nm by simp
      qed
      have "find (\<lambda>(variable, b). name variable = node_name a) bindingsInfo
            = Some (bindingsInfo ! j)"
      proof (rule find_first)
        show "j < length bindingsInfo" using j len by simp
        show "case bindingsInfo ! j of (variable, b) \<Rightarrow> name variable = node_name a"
          using fstj [OF j] nm by (simp add: case_prod_beta)
        show "\<forall>j'<j. \<not> (case bindingsInfo ! j' of (variable, b) \<Rightarrow> name variable = node_name a)"
          using first fstj j by (simp add: case_prod_beta)
      qed
      then have "(case find (\<lambda>(variable, b). name variable = node_name a) bindingsInfo of
                      Some (variable, b) \<Rightarrow>
                        constImplicitInstance a monovars (Value (type (info (result b)))))
                 = constImplicitInstance a monovars
                     (Value (type (info (result (snd (bindingsInfo ! j))))))"
        by (simp add: case_prod_beta)
      moreover have "(case find (\<lambda>(variable, b). name variable = node_name a) bindingsInfo of
                      Some (variable, b) \<Rightarrow>
                        constImplicitInstance a monovars (Value (type (info (result b)))))
                 \<in> set (constraints r)"
        unfolding cs using a bound by (auto intro!: imageI)
      ultimately show "constImplicitInstance a monovars
                         (Value (type (info (result (snd (bindingsInfo ! j))))))
                   \<in> set (constraints r)" by simp
    qed
    from eff imp show ?thesis by blast
  qed
  show ?thesis
  proof (intro conjI)
    show "body = [] \<longrightarrow>
            infer (ELetBindings bindings body l i) monovars internalTypes n
            = Inl (TypeError ''Cannot read property 'info' of undefined'')"
      using empty by blast
    show "body \<noteq> [] \<longrightarrow>
            infer (ELetBindings bindings body l i) monovars internalTypes n = Inr (?res, Suc n2)"
      using nonempty by blast
    show "map fst bindingsInfo = map fst bindings" by (rule fsts)
    show "\<forall>r n'. infer (ELetBindings bindings body l i) monovars internalTypes n = Inr (r, n')
            \<longrightarrow> (\<forall>j < length bindingsInfo.
                    constEffect (result (snd (bindingsInfo ! j))) (tEffect [])
                      \<in> set (constraints r))
              \<and> (\<forall>a \<in> set (assumptions bodyInference). \<forall>j < length bindings.
                    name (fst (bindings ! j)) = node_name a \<longrightarrow>
                    (\<forall>j' < j. name (fst (bindings ! j')) \<noteq> node_name a) \<longrightarrow>
                    constImplicitInstance a monovars
                      (Value (type (info (result (snd (bindingsInfo ! j))))))
                      \<in> set (constraints r))"
      by (intro allI impI) (rule members)
  qed
qed

text \<open>
  C1 (as amended). For every let expression: if the generator throws on a binding
  value or on a body form, \<^verbatim>\<open>infer\<close> throws the same exception; if it returns on
  all of them and the body is empty, \<^verbatim>\<open>infer\<close> throws a \<^verbatim>\<open>TypeError\<close>;
  otherwise \<^verbatim>\<open>infer\<close> returns, and the constraints it emits are exactly: those of
  the body, those of the binding values, one implicit-instance constraint for every
  assumption of the body whose name is bound (carrying that use, the current monovars
  and the type of the value bound to that name, the first binding of that name being
  the one \<^verbatim>\<open>find\<close> picks), one effect constraint forcing every binding value to the
  empty effect row, and one effect constraint for every body form. The assumptions
  returned are the assumptions of the body whose name is not bound, followed by all
  assumptions of the binding values, unchanged.
\<close>

theorem infer_let_bindings:
  "(mapS (\<lambda>(variable, v) k.
              case infer v monovars internalTypes k of
                Inl err \<Rightarrow> Inl err
              | Inr (r, k1) \<Rightarrow> Inr ((variable, r), k1)) bindings n = Inl err
      \<longrightarrow> infer (ELetBindings bindings body l i) monovars internalTypes n = Inl err)
   \<and> (mapS (\<lambda>(variable, v) k.
              case infer v monovars internalTypes k of
                Inl err \<Rightarrow> Inl err
              | Inr (r, k1) \<Rightarrow> Inr ((variable, r), k1)) bindings n = Inr (bindingsInfo, n1)
      \<longrightarrow> (inferMany body monovars internalTypes n1 = Inl err
            \<longrightarrow> infer (ELetBindings bindings body l i) monovars internalTypes n = Inl err)
        \<and> (inferMany body monovars internalTypes n1 = Inr (bodyInference, n2)
            \<longrightarrow> (body = [] \<longrightarrow>
                    infer (ELetBindings bindings body l i) monovars internalTypes n
                    = Inl (TypeError ''Cannot read property 'info' of undefined''))
               \<and> (body \<noteq> [] \<longrightarrow>
                    infer (ELetBindings bindings body l i) monovars internalTypes n
                    = Inr (InferResult
                            (ELetBindings (map (\<lambda>(variable, b). (variable, result b)) bindingsInfo)
                               (result bodyInference) l
                               (Typed (type (info (last (result bodyInference))))
                                  (TVar (tvarName (Suc n2)) False)))
                            (constraints bodyInference
                              @ concat (map (\<lambda>(variable, b). constraints b) bindingsInfo)
                              @ map (\<lambda>a. case find (\<lambda>(variable, b). name variable = node_name a)
                                                  bindingsInfo of
                                            Some (variable, b) \<Rightarrow>
                                              constImplicitInstance a monovars
                                                (Value (type (info (result b)))))
                                  (filter (\<lambda>a. node_name a \<in> set (map (\<lambda>(variable, v). name variable)
                                                                      bindings))
                                     (assumptions bodyInference))
                              @ map (\<lambda>(variable, b). constEffect (result b) (tEffect [])) bindingsInfo
                              @ map (\<lambda>form. constEffect form (TVar (tvarName (Suc n2)) False))
                                  (result bodyInference))
                            (filter (\<lambda>a. node_name a \<notin> set (map (\<lambda>(variable, v). name variable)
                                                                bindings))
                               (assumptions bodyInference)
                              @ concat (map (\<lambda>(variable, b). assumptions b) bindingsInfo)),
                          Suc n2))
               \<and> map fst bindingsInfo = map fst bindings
               \<and> (\<forall>r n'. infer (ELetBindings bindings body l i) monovars internalTypes n = Inr (r, n')
                    \<longrightarrow> (\<forall>j < length bindingsInfo.
                            constEffect (result (snd (bindingsInfo ! j))) (tEffect [])
                              \<in> set (constraints r))
                      \<and> (\<forall>a \<in> set (assumptions bodyInference). \<forall>j < length bindings.
                            name (fst (bindings ! j)) = node_name a \<longrightarrow>
                            (\<forall>j' < j. name (fst (bindings ! j')) \<noteq> node_name a) \<longrightarrow>
                            constImplicitInstance a monovars
                              (Value (type (info (result (snd (bindingsInfo ! j))))))
                              \<in> set (constraints r)))))"
  apply (rule conjI)
   apply (simp add: Let_def)
  apply (rule impI)
  apply (rule conjI)
   apply (simp add: Let_def)
  apply (rule impI)
  apply (rule let_bindings_result)
   apply assumption+
  done

text \<open>
  Witness for C1: \<^verbatim>\<open>(let {x y} x)\<close>. The use of \<^verbatim>\<open>x\<close> in the body gets the
  implicit-instance constraint with the type of \<^verbatim>\<open>y\<close>, the value \<^verbatim>\<open>y\<close> gets the
  empty effect, and the assumption of \<^verbatim>\<open>y\<close> is the only one that leaves the let.
\<close>

theorem infer_let_bindings_witness:
  "mapS (\<lambda>(variable, v) k.
           case infer v [] Map.empty k of
             Inl err \<Rightarrow> Inl err
           | Inr (r, k1) \<Rightarrow> Inr ((variable, r), k1))
     [(Identifier ''x'' (0, 0), EVariableReference ''y'' (1, 1) ())] 0
   = Inr ([(Identifier ''x'' (0, 0),
            InferResult
              (EVariableReference ''y'' (1, 1) (Typed (TVar ''t1'' False) (TVar ''t2'' False)))
              []
              [EVariableReference ''y'' (1, 1) (Typed (TVar ''t1'' False) (TVar ''t2'' False))])],
          2)
   \<and> inferMany [EVariableReference ''x'' (2, 2) ()] [] Map.empty 2
     = Inr (InferResult
              [EVariableReference ''x'' (2, 2) (Typed (TVar ''t3'' False) (TVar ''t4'' False))]
              []
              [EVariableReference ''x'' (2, 2) (Typed (TVar ''t3'' False) (TVar ''t4'' False))],
            4)
   \<and> infer (ELetBindings [(Identifier ''x'' (0, 0), EVariableReference ''y'' (1, 1) ())]
              [EVariableReference ''x'' (2, 2) ()] (3, 3) ()) [] Map.empty 0
     = Inr (InferResult
              (ELetBindings
                 [(Identifier ''x'' (0, 0),
                   EVariableReference ''y'' (1, 1) (Typed (TVar ''t1'' False) (TVar ''t2'' False)))]
                 [EVariableReference ''x'' (2, 2) (Typed (TVar ''t3'' False) (TVar ''t4'' False))]
                 (3, 3) (Typed (TVar ''t3'' False) (TVar ''t5'' False)))
              [constImplicitInstance
                 (EVariableReference ''x'' (2, 2) (Typed (TVar ''t3'' False) (TVar ''t4'' False)))
                 [] (Value (TVar ''t1'' False)),
               constEffect
                 (EVariableReference ''y'' (1, 1) (Typed (TVar ''t1'' False) (TVar ''t2'' False)))
                 (tEffect []),
               constEffect
                 (EVariableReference ''x'' (2, 2) (Typed (TVar ''t3'' False) (TVar ''t4'' False)))
                 (TVar ''t5'' False)]
              [EVariableReference ''y'' (1, 1) (Typed (TVar ''t1'' False) (TVar ''t2'' False))],
            5)"
proof -
  let ?y = "EVariableReference ''y'' (1, 1) (Typed (TVar ''t1'' False) (TVar ''t2'' False))"
  let ?x = "EVariableReference ''x'' (2, 2) (Typed (TVar ''t3'' False) (TVar ''t4'' False))"
  have 1: "mapS (\<lambda>(variable, v) k.
           case infer v [] Map.empty k of
             Inl err \<Rightarrow> Inl err
           | Inr (r, k1) \<Rightarrow> Inr ((variable, r), k1))
     [(Identifier ''x'' (0, 0), EVariableReference ''y'' (1, 1) ())] 0
   = Inr ([(Identifier ''x'' (0, 0), InferResult ?y [] [?y])], 2)"
    by (simp add: eval_simps numeral_2_eq_2)
  have 2: "inferMany [EVariableReference ''x'' (2, 2) ()] [] Map.empty 2
     = Inr (InferResult [?x] [] [?x], 4)"
    by (simp add: eval_simps numeral_eq_Suc)
  have 3: "tvarName 5 = ''t5''"
    by (simp add: eval_simps)
  have ne: "[EVariableReference ''x'' (2, 2) ()] \<noteq> ([] :: unit expr list)" by simp
  from infer_let_bindings [where l = "(3, 3)" and i = "()", THEN conjunct2, rule_format, OF 1,
      THEN conjunct2, rule_format, OF 2, THEN conjunct2, THEN conjunct1, rule_format, OF ne]
  have "infer (ELetBindings [(Identifier ''x'' (0, 0), EVariableReference ''y'' (1, 1) ())]
              [EVariableReference ''x'' (2, 2) ()] (3, 3) ()) [] Map.empty 0
     = Inr (InferResult
              (ELetBindings [(Identifier ''x'' (0, 0), ?y)] [?x] (3, 3)
                 (Typed (TVar ''t3'' False) (TVar ''t5'' False)))
              [constImplicitInstance ?x [] (Value (TVar ''t1'' False)),
               constEffect ?y (tEffect []),
               constEffect ?x (TVar ''t5'' False)]
              [?y],
            5)"
    by (simp add: 3 del: infer.simps)
  then show ?thesis
    apply (intro conjI)
      apply (rule 1)
     apply (rule 2)
    apply assumption
    done
qed

text \<open>
  C1 as stated fails for a let whose body is empty: on \<^verbatim>\<open>(let {x 1})\<close> the
  generator throws and emits no constraint at all.
\<close>

theorem infer_let_empty_body_counterexample:
  "infer (ELetBindings [(Identifier ''x'' (0, 0), ENumber 1 (1, 1) ())] [] (2, 2) ())
     [] Map.empty 0
   = Inl (TypeError ''Cannot read property 'info' of undefined'')"
  by (simp add: eval_simps)

section \<open>Export and type-alias forms\<close>

text \<open>
  C10. For an export form and for a type-alias form, \<^verbatim>\<open>inferSyntax\<close> returns the form
  itself with no constraints and no assumptions, and \<^verbatim>\<open>applySubstitutionToSyntax\<close>
  returns it as it is; so whenever \<^verbatim>\<open>inferModule\<close> returns, the typed module has as
  many forms as the input and, at each position where the input has an export or a
  type alias, the same form.
\<close>

theorem export_and_alias_forms_unchanged:
  "inferSyntax (SExport identifiers l) internalTypes n
     = Inr (InferResult (SExport identifiers l) [] [], n)
   \<and> inferSyntax (STypeAliasDecl a) internalTypes n
     = Inr (InferResult (STypeAliasDecl a) [] [], n)
   \<and> applySubstitutionToSyntax applySubstitutionToExpr (SExport identifiers l) s
     = SExport identifiers l
   \<and> applySubstitutionToSyntax applySubstitutionToExpr (STypeAliasDecl a) s
     = STypeAliasDecl a
   \<and> (inferModule solve applySubstitutionToExpr inlinePrimitives m externalEnv k = Inr res \<longrightarrow>
        length (moduleBody (typedModule res)) = length (moduleBody m)
        \<and> (\<forall>j < length (moduleBody m).
              (moduleBody m ! j = SExport identifiers l \<longrightarrow>
                 moduleBody (typedModule res) ! j = SExport identifiers l)
            \<and> (moduleBody m ! j = STypeAliasDecl a \<longrightarrow>
                 moduleBody (typedModule res) ! j = STypeAliasDecl a)))"
proof -
  have m: "length (moduleBody (typedModule res)) = length (moduleBody m)
        \<and> (\<forall>j < length (moduleBody m).
              (moduleBody m ! j = SExport identifiers l \<longrightarrow>
                 moduleBody (typedModule res) ! j = SExport identifiers l)
            \<and> (moduleBody m ! j = STypeAliasDecl a \<longrightarrow>
                 moduleBody (typedModule res) ! j = STypeAliasDecl a))"
    if h: "inferModule solve applySubstitutionToExpr inlinePrimitives m externalEnv k = Inr res"
  proof -
    let ?it = "internalTypesOf (moduleBody m)"
    from inferModule_InrD [OF h] obtain bodyInferences n1 solution where
      ms: "mapS (\<lambda>form k. inferSyntax form ?it k) (moduleBody m) k = Inr (bodyInferences, n1)"
      and tm: "moduleBody (typedModule res) =
             map (\<lambda>s. applySubstitutionToSyntax applySubstitutionToExpr s solution)
               (map result bodyInferences)"
      by force
    have len: "length bodyInferences = length (moduleBody m)" using ms by (rule mapS_length)
    have "moduleBody (typedModule res) ! j = SExport identifiers l"
      if j: "j < length (moduleBody m)" and e: "moduleBody m ! j = SExport identifiers l" for j
    proof -
      from mapS_nth [OF ms j] e have "bodyInferences ! j = InferResult (SExport identifiers l) [] []"
        by auto
      then have "result (bodyInferences ! j) = SExport identifiers l" by simp
      then show ?thesis using tm j len by simp
    qed
    moreover have "moduleBody (typedModule res) ! j = STypeAliasDecl a"
      if j: "j < length (moduleBody m)" and e: "moduleBody m ! j = STypeAliasDecl a" for j
    proof -
      from mapS_nth [OF ms j] e have "bodyInferences ! j = InferResult (STypeAliasDecl a) [] []"
        by auto
      then have "result (bodyInferences ! j) = STypeAliasDecl a" by simp
      then show ?thesis using tm j len by simp
    qed
    ultimately show ?thesis using tm len by simp
  qed
  show ?thesis using m by simp
qed

text \<open>
  Witness for C10: a module with an export, a type alias and an expression, a solver
  that returns the substitution it is given, and the identity in place of the
  application of the substitution.
\<close>

theorem export_and_alias_forms_unchanged_witness:
  "\<exists>res. inferModule (\<lambda>cs s. Inr s) (\<lambda>e s. e) Map.empty
            (Module [SExport [Identifier ''f'' (0, 0)] (0, 0),
                     STypeAliasDecl (STypeAlias (Identifier ''ID'' (1, 1)) tNumber (1, 1)),
                     SExpression (ENumber 1 (2, 2) ())])
            (ExternalEnvironment Map.empty Map.empty) 0 = Inr res
        \<and> moduleBody (typedModule res) ! 0 = SExport [Identifier ''f'' (0, 0)] (0, 0)
        \<and> moduleBody (typedModule res) ! 1
            = STypeAliasDecl (STypeAlias (Identifier ''ID'' (1, 1)) tNumber (1, 1))"
proof -
  let ?m = "Module [SExport [Identifier ''f'' (0, 0)] (0, 0),
                     STypeAliasDecl (STypeAlias (Identifier ''ID'' (1, 1)) tNumber (1, 1)),
                     SExpression (ENumber 1 (2, 2) ())]"
  obtain res where h: "inferModule (\<lambda>cs s. Inr s) (\<lambda>e s. e) Map.empty ?m
            (ExternalEnvironment Map.empty Map.empty) 0 = Inr res"
    by (simp add: inferModule_def checkCircularTypes_def typeAliasesOf_def List.map_filter_simps
          visit.simps [of _ _ "[]"] tNumber_def eval_simps)
  from export_and_alias_forms_unchanged [where identifiers = "[Identifier ''f'' (0, 0)]"
      and l = "(0, 0)" and a = "STypeAlias (Identifier ''ID'' (1, 1)) tNumber (1, 1)"
      and solve = "\<lambda>cs s. Inr s" and applySubstitutionToExpr = "\<lambda>e s. e"
      and inlinePrimitives = Map.empty and m = ?m
      and externalEnv = "ExternalEnvironment Map.empty Map.empty" and k = 0 and res = res] h
  show ?thesis by (intro exI [of _ res]) force
qed

section \<open>Grouping of assumptions\<close>

text \<open>
  C3. \<^verbatim>\<open>groupAssumptions\<close> does not partition the assumptions. A use of
  \<^verbatim>\<open>toString\<close>, which is neither a definition of the module, nor in the external
  environment, nor an inline primitive, is put among the internals and among the
  externals and not among the unknowns, because \<^verbatim>\<open>in\<close> and the lookup find the
  member every plain object inherits; only \<^verbatim>\<open>y\<close> is unknown. And a use of
  \<^verbatim>\<open>x\<close>, where \<^verbatim>\<open>x\<close> is a definition of the module and is also bound in the
  external environment, is among the internals and among the externals.
\<close>

theorem groupAssumptions_not_a_partition:
  "groupAssumptions Map.empty
     [EVariableReference ''toString'' (0, 0) (Typed (TVar ''t1'' False) (TVar ''t2'' False)),
      EVariableReference ''y'' (1, 1) (Typed (TVar ''t3'' False) (TVar ''t4'' False))]
     (InternalEnvironment Map.empty Map.empty)
     (ExternalEnvironment Map.empty Map.empty)
   = GroupedAssumptions
       [EVariableReference ''toString'' (0, 0) (Typed (TVar ''t1'' False) (TVar ''t2'' False))]
       [EVariableReference ''toString'' (0, 0) (Typed (TVar ''t1'' False) (TVar ''t2'' False))]
       [EVariableReference ''y'' (1, 1) (Typed (TVar ''t3'' False) (TVar ''t4'' False))]
   \<and> groupAssumptions Map.empty
       [EVariableReference ''x'' (0, 0) (Typed (TVar ''t1'' False) (TVar ''t2'' False))]
       (InternalEnvironment [''x'' \<mapsto> tNumber] Map.empty)
       (ExternalEnvironment [''x'' \<mapsto> TypeSchema [] tString] Map.empty)
     = GroupedAssumptions
         [EVariableReference ''x'' (0, 0) (Typed (TVar ''t1'' False) (TVar ''t2'' False))]
         [EVariableReference ''x'' (0, 0) (Typed (TVar ''t1'' False) (TVar ''t2'' False))]
         []"
  by (simp add: groupAssumptions_def Let_def lookupVariableType_def hasProperty_def
        getProperty_def objectPrototypeMembers_def difference_def)

section \<open>Unknown names at the expression-level entry point\<close>

text \<open>
  C9 (as amended). When the generator returns on the expression given to
  \<^verbatim>\<open>inferType\<close>, \<^verbatim>\<open>assumptionsToConstraints\<close> yields one explicit-instance
  constraint for each assumption whose name is an own property of the variables of
  the external environment, or the name of a member of \<^verbatim>\<open>Object.prototype\<close>, or
  an inline primitive, carrying what the lookup found; it yields none for an
  assumption whose name is none of these. \<^verbatim>\<open>inferType\<close> hands to the solver the
  generator's constraints followed by those explicit-instance constraints, and returns
  the solver's error or the substituted expression and nothing else. Nothing is said
  of the constraints the generator itself emitted for the forms that enclose the use.
\<close>

theorem inferType_drops_unknown_assumptions:
  assumes "infer e [] internalTypes n = Inr (r, n')"
  shows "assumptionsToConstraints inlinePrimitives (assumptions r) env =
           map (\<lambda>a. constExplicitInstance a
                      (case ext_variables env (node_name a) of
                         Some t \<Rightarrow> Value t
                       | None \<Rightarrow>
                           if node_name a \<in> set objectPrototypeMembers
                           then PrototypeMember (node_name a)
                           else Value (the (inlinePrimitives (node_name a)))))
             (filter (\<lambda>a. node_name a \<in> dom (ext_variables env)
                           \<or> node_name a \<in> set objectPrototypeMembers
                           \<or> node_name a \<in> dom inlinePrimitives)
                (assumptions r))
       \<and> (\<forall>a \<in> set (assumptions r).
             node_name a \<notin> dom (ext_variables env)
             \<and> node_name a \<notin> set objectPrototypeMembers
             \<and> node_name a \<notin> dom inlinePrimitives \<longrightarrow>
             (\<forall>s. constExplicitInstance a s
                    \<notin> set (assumptionsToConstraints inlinePrimitives (assumptions r) env)))
       \<and> inferType solve applySubstitutionToExpr inlinePrimitives e env internalTypes n =
           (case solve (constraints r
                        @ map (\<lambda>a. constExplicitInstance a
                                     (case ext_variables env (node_name a) of
                                        Some t \<Rightarrow> Value t
                                      | None \<Rightarrow>
                                          if node_name a \<in> set objectPrototypeMembers
                                          then PrototypeMember (node_name a)
                                          else Value (the (inlinePrimitives (node_name a)))))
                            (filter (\<lambda>a. node_name a \<in> dom (ext_variables env)
                                          \<or> node_name a \<in> set objectPrototypeMembers
                                          \<or> node_name a \<in> dom inlinePrimitives)
                               (assumptions r))) Map.empty of
              Inl err \<Rightarrow> Inl err
            | Inr s \<Rightarrow> Inr (applySubstitutionToExpr (result r) s))"
proof -
  let ?found = "\<lambda>a. case ext_variables env (node_name a) of
                         Some t \<Rightarrow> Value t
                       | None \<Rightarrow>
                           if node_name a \<in> set objectPrototypeMembers
                           then PrototypeMember (node_name a)
                           else Value (the (inlinePrimitives (node_name a)))"
  let ?resolvable = "\<lambda>a. node_name a \<in> dom (ext_variables env)
                           \<or> node_name a \<in> set objectPrototypeMembers
                           \<or> node_name a \<in> dom inlinePrimitives"
  have f: "(lookupVariableType inlinePrimitives (node_name a) env \<noteq> None) = ?resolvable a" for a
    by (auto simp: lookupVariableType_None)
  have t: "the (lookupVariableType inlinePrimitives (node_name a) env) = ?found a"
    if "?resolvable a" for a
    using that
    by (auto simp: lookupVariableType_def getProperty_def split: option.splits)
  have 1: "assumptionsToConstraints inlinePrimitives (assumptions r) env =
           map (\<lambda>a. constExplicitInstance a (?found a)) (filter ?resolvable (assumptions r))"
    unfolding assumptionsToConstraints_eq f
    by (rule map_cong) (simp_all add: t)
  have 2: "\<forall>a \<in> set (assumptions r).
             node_name a \<notin> dom (ext_variables env)
             \<and> node_name a \<notin> set objectPrototypeMembers
             \<and> node_name a \<notin> dom inlinePrimitives \<longrightarrow>
             (\<forall>s. constExplicitInstance a s
                    \<notin> set (assumptionsToConstraints inlinePrimitives (assumptions r) env))"
    unfolding 1 by auto
  have 3: "inferType solve applySubstitutionToExpr inlinePrimitives e env internalTypes n =
           (case solve (constraints r
                        @ assumptionsToConstraints inlinePrimitives (assumptions r) env)
                   Map.empty of
              Inl err \<Rightarrow> Inl err
            | Inr s \<Rightarrow> Inr (applySubstitutionToExpr (result r) s))"
    using assms by (simp add: inferType_def)
  show ?thesis
    apply (intro conjI)
      apply (rule 1)
     apply (rule 2)
    apply (rule 3 [unfolded 1])
    done
qed

text \<open>
  Witness for C9: in \<^verbatim>\<open>(f y)\<close> with only \<^verbatim>\<open>f\<close> in the environment, the single
  instance constraint is the one of \<^verbatim>\<open>f\<close>.
\<close>

theorem inferType_drops_unknown_assumptions_witness:
  "\<exists>r n'. infer (EFunctionCall (EVariableReference ''f'' (0, 0) ())
                    [EVariableReference ''y'' (1, 1) ()] (2, 2) ()) [] Map.empty 0 = Inr (r, n')
     \<and> assumptions r =
         [EVariableReference ''f'' (0, 0) (Typed (TVar ''t1'' False) (TVar ''t2'' False)),
          EVariableReference ''y'' (1, 1) (Typed (TVar ''t3'' False) (TVar ''t4'' False))]
     \<and> assumptionsToConstraints Map.empty (assumptions r)
          (ExternalEnvironment [''f'' \<mapsto> TypeSchema [] tNumber] Map.empty)
        = [constExplicitInstance
             (EVariableReference ''f'' (0, 0) (Typed (TVar ''t1'' False) (TVar ''t2'' False)))
             (Value (TypeSchema [] tNumber))]"
proof -
  let ?e = "EFunctionCall (EVariableReference ''f'' (0, 0) ())
                    [EVariableReference ''y'' (1, 1) ()] (2, 2) ()"
  obtain r n' where h: "infer ?e [] Map.empty 0 = Inr (r, n')"
    by (simp add: eval_simps)
  have a: "assumptions r =
      [EVariableReference ''f'' (0, 0) (Typed (TVar ''t1'' False) (TVar ''t2'' False)),
       EVariableReference ''y'' (1, 1) (Typed (TVar ''t3'' False) (TVar ''t4'' False))]"
    using h by (auto simp: eval_simps)
  from inferType_drops_unknown_assumptions [OF h, of Map.empty
     "ExternalEnvironment [''f'' \<mapsto> TypeSchema [] tNumber] Map.empty"]
  have "assumptionsToConstraints Map.empty (assumptions r)
          (ExternalEnvironment [''f'' \<mapsto> TypeSchema [] tNumber] Map.empty)
        = [constExplicitInstance
             (EVariableReference ''f'' (0, 0) (Typed (TVar ''t1'' False) (TVar ''t2'' False)))
             (Value (TypeSchema [] tNumber))]"
    unfolding a by (simp add: objectPrototypeMembers_def)
  with h a show ?thesis by blast
qed

text \<open>
  C9 as stated fails: in \<^verbatim>\<open>(if y 1 2)\<close> with \<^verbatim>\<open>y\<close> unknown, the constraints of the
  generator, which go to the solver, mention the use of \<^verbatim>\<open>y\<close>: its type must equal
  \<^verbatim>\<open>boolean\<close> and its effect the effect of the conditional.
\<close>

theorem inferType_unknown_use_constrained_counterexample:
  "lookupVariableType Map.empty ''y'' (ExternalEnvironment Map.empty Map.empty) = None
   \<and> infer (EConditional (EVariableReference ''y'' (0, 0) ()) (ENumber 1 (1, 1) ())
               (ENumber 2 (2, 2) ()) (3, 3) ()) [] Map.empty 0
     = Inr (InferResult
         (EConditional
            (EVariableReference ''y'' (0, 0) (Typed (TVar ''t1'' False) (TVar ''t2'' False)))
            (ENumber 1 (1, 1) (Typed tNumber (TVar ''t3'' False)))
            (ENumber 2 (2, 2) (Typed tNumber (TVar ''t4'' False)))
            (3, 3) (Typed (TVar ''t5'' False) (TVar ''t6'' False)))
         [constEqual
            (EVariableReference ''y'' (0, 0) (Typed (TVar ''t1'' False) (TVar ''t2'' False)))
            tBoolean,
          constEqual (ENumber 1 (1, 1) (Typed tNumber (TVar ''t3'' False))) (TVar ''t5'' False),
          constEqual (ENumber 2 (2, 2) (Typed tNumber (TVar ''t4'' False))) (TVar ''t5'' False),
          constEffect
            (EVariableReference ''y'' (0, 0) (Typed (TVar ''t1'' False) (TVar ''t2'' False)))
            (TVar ''t6'' False),
          constEffect (ENumber 1 (1, 1) (Typed tNumber (TVar ''t3'' False))) (TVar ''t6'' False),
          constEffect (ENumber 2 (2, 2) (Typed tNumber (TVar ''t4'' False))) (TVar ''t6'' False)]
         [EVariableReference ''y'' (0, 0) (Typed (TVar ''t1'' False) (TVar ''t2'' False))],
         6)"
  by (simp add: lookupVariableType_def getProperty_def objectPrototypeMembers_def eval_simps)

section \<open>Expansion of type aliases\<close>

text \<open>
  C8. With the empty environment, which is finite and whose alias references are
  acyclic, \<^verbatim>\<open>expandTypeAliases\<close> does not leave the constant \<^verbatim>\<open>constructor\<close>
  unchanged, although it is outside the environment: the lookup finds the member
  that the environment inherits from \<^verbatim>\<open>Object.prototype\<close>, the function calls
  itself on it and a \<^verbatim>\<open>TypeError\<close> is thrown; so is it by \<^verbatim>\<open>infer\<close> on
  \<^verbatim>\<open>(the constructor 1)\<close>.
\<close>

theorem expandTypeAliases_inherited_name:
  "finite (dom (Map.empty :: InternalTypeEnvironment))
   \<and> acyclic (aliasReferences Map.empty)
   \<and> expandTypeAliases (TConstant ''constructor'') Map.empty
     = Some (Inl (TypeError ''Cannot read property 'tag' of undefined''))
   \<and> infer (ETypeAnnotation (TypeWithWildcards (TConstant ''constructor''))
              (ENumber 1 (0, 0) ()) (1, 1) ()) [] Map.empty 0
     = Inl (TypeError ''Cannot read property 'tag' of undefined'')"
proof -
  have e: "expandTypeAliases (TConstant ''constructor'') Map.empty
           = Some (Inl (TypeError ''Cannot read property 'tag' of undefined''))"
    by (simp add: expandTypeAliases_unfold expandStep_simps getProperty_def
          objectPrototypeMembers_def)
  have "infer (ETypeAnnotation (TypeWithWildcards (TConstant ''constructor''))
              (ENumber 1 (0, 0) ()) (1, 1) ()) [] Map.empty 0
     = Inl (TypeError ''Cannot read property 'tag' of undefined'')"
    by (simp add: eval_simps instantiate_def e)
  with e aliasReferences_empty show ?thesis by simp
qed

text \<open>
  Apart from the inherited names the expansion is as the spec has it: for a finite
  environment with acyclic alias references, and types in which every constant
  bearing the name of a member of \<^verbatim>\<open>Object.prototype\<close> is declared,
  \<^verbatim>\<open>expandTypeAliases\<close> returns; its result is the expansion of the type in which
  every constant declared in the environment is replaced by the expansion of its
  definition and every other constant is left as it is, and no declared constant
  remains.
\<close>

lemma expandTypeAliases_expands:
  assumes "finite (dom env)" and "acyclic (aliasReferences env)"
    and "\<forall>d \<in> ran env. prototypeFree env d" and "prototypeFree env t"
  shows "\<exists>t'. expandTypeAliases t env = Some (Inr t')
            \<and> expandsTo env t t'
            \<and> set (listTypeConstants t') \<inter> dom env = {}"
  using expandTypeAliases_total [OF assms] by (simp add: expandsWell_def)

lemma expandTypeAliases_expands_example:
  "\<exists>t'. expandTypeAliases (tVector (TConstant ''Person''))
               [''ID'' \<mapsto> tNumber, ''Person'' \<mapsto> tRecord [(''id'', TConstant ''ID'')] emptyRow]
             = Some (Inr t')
           \<and> expandsTo
               [''ID'' \<mapsto> tNumber, ''Person'' \<mapsto> tRecord [(''id'', TConstant ''ID'')] emptyRow]
               (tVector (TConstant ''Person'')) t'
           \<and> set (listTypeConstants t')
               \<inter> dom [''ID'' \<mapsto> tNumber,
                       ''Person'' \<mapsto> tRecord [(''id'', TConstant ''ID'')] emptyRow] = {}"
proof -
  let ?env = "[''ID'' \<mapsto> tNumber, ''Person'' \<mapsto> tRecord [(''id'', TConstant ''ID'')] emptyRow]"
  have fin: "finite (dom ?env)" by simp
  have "aliasReferences ?env = {(''ID'', ''Person'')}"
    by (auto simp: aliasReferences_def tNumber_def tRecord_def tApp_def tcRecord_def tRow_def
          tRowExtension_def emptyRow_def split: if_splits)
  moreover have "acyclic ({} :: (string \<times> string) set)"
    by (simp add: acyclic_def)
  ultimately have acyc: "acyclic (aliasReferences ?env)"
    by (simp add: acyclic_insert)
  have pf: "\<forall>d \<in> ran ?env. prototypeFree ?env d"
    by (auto simp: ran_def prototypeFree_def objectPrototypeMembers_def tNumber_def tRecord_def
          tApp_def tcRecord_def tRow_def tRowExtension_def emptyRow_def split: if_splits)
  have pt: "prototypeFree ?env (tVector (TConstant ''Person''))"
    by (simp add: prototypeFree_def objectPrototypeMembers_def tVector_def tApp_def tcVector_def)
  from expandTypeAliases_expands [OF fin acyc pf pt] show ?thesis .
qed

section \<open>The generator does not throw on well-formed input\<close>

text \<open>
  C2 (as amended). Call a type free of inherited names when every constant in it that
  bears the name of a member of \<^verbatim>\<open>Object.prototype\<close> is a declared alias. Let the
  internal type environment be finite, with acyclic alias references and definitions
  free of inherited names. For every expression in which the body of every lambda, of
  every let and of every match case is non-empty and every annotation is free of
  inherited names, \<^verbatim>\<open>infer\<close> returns a typed tree with a constraint list and an
  assumption list and throws nothing, and \<^verbatim>\<open>inferType\<close> fails only with an error
  of the solver. For every module whose forms are such expressions and whose aliases
  have distinct names and definitions free of inherited names, \<^verbatim>\<open>inferModule\<close>
  fails only with the error of the alias cycle check or with an error of the solver.
\<close>

theorem infer_returns_on_nonempty_bodies:
  "(finite (dom internalTypes) \<and> acyclic (aliasReferences internalTypes)
      \<and> (\<forall>d \<in> ran internalTypes. prototypeFree internalTypes d)
      \<and> nonEmptyBodies e \<and> annotationsPrototypeFree internalTypes e \<longrightarrow>
        (\<exists>r n'. infer e monovars internalTypes n = Inr (r, n'))
      \<and> (\<forall>err. inferType solve applySubstitutionToExpr inlinePrimitives e env internalTypes n
                  = Inl err
             \<longrightarrow> (\<exists>cs. solve cs Map.empty = Inl err)))
   \<and> (distinct (map (\<lambda>a. name (aliasId a)) (typeAliasesOf (moduleBody m)))
      \<and> (\<forall>a \<in> set (typeAliasesOf (moduleBody m)).
            prototypeFree (internalTypesOf (moduleBody m)) (aliasDefinition a))
      \<and> list_all nonEmptyBodiesSyntax (moduleBody m)
      \<and> list_all (annotationsPrototypeFreeSyntax (internalTypesOf (moduleBody m))) (moduleBody m)
      \<longrightarrow>
        (\<forall>err. inferModule solve applySubstitutionToExpr inlinePrimitives m env n = Inl err
             \<longrightarrow> checkCircularTypes (typeAliasesOf (moduleBody m)) = Inl err
                 \<or> (\<exists>cs. solve cs Map.empty = Inl err)))"
proof (intro conjI impI allI)
  assume h: "finite (dom internalTypes) \<and> acyclic (aliasReferences internalTypes)
      \<and> (\<forall>d \<in> ran internalTypes. prototypeFree internalTypes d)
      \<and> nonEmptyBodies e \<and> annotationsPrototypeFree internalTypes e"
  then have fin: "finite (dom internalTypes)" and acyc: "acyclic (aliasReferences internalTypes)"
    and pf: "\<forall>d \<in> ran internalTypes. prototypeFree internalTypes d"
    and wf: "nonEmptyBodies e \<and> annotationsPrototypeFree internalTypes e"
    by simp_all
  from infer_total [OF fin acyc pf wf]
  show "\<exists>r n'. infer e monovars internalTypes n = Inr (r, n')" .
next
  fix err
  assume h: "finite (dom internalTypes) \<and> acyclic (aliasReferences internalTypes)
      \<and> (\<forall>d \<in> ran internalTypes. prototypeFree internalTypes d)
      \<and> nonEmptyBodies e \<and> annotationsPrototypeFree internalTypes e"
    and f: "inferType solve applySubstitutionToExpr inlinePrimitives e env internalTypes n = Inl err"
  from h have fin: "finite (dom internalTypes)" and acyc: "acyclic (aliasReferences internalTypes)"
    and pf: "\<forall>d \<in> ran internalTypes. prototypeFree internalTypes d"
    and wf: "nonEmptyBodies e \<and> annotationsPrototypeFree internalTypes e"
    by simp_all
  from infer_total [OF fin acyc pf wf] obtain r n' where "infer e [] internalTypes n = Inr (r, n')"
    by blast
  with f show "\<exists>cs. solve cs Map.empty = Inl err"
    by (auto simp: inferType_def split: sum.splits)
next
  fix err
  let ?it = "internalTypesOf (moduleBody m)"
  assume h: "distinct (map (\<lambda>a. name (aliasId a)) (typeAliasesOf (moduleBody m)))
      \<and> (\<forall>a \<in> set (typeAliasesOf (moduleBody m)). prototypeFree ?it (aliasDefinition a))
      \<and> list_all nonEmptyBodiesSyntax (moduleBody m)
      \<and> list_all (annotationsPrototypeFreeSyntax ?it) (moduleBody m)"
    and f: "inferModule solve applySubstitutionToExpr inlinePrimitives m env n = Inl err"
  show "checkCircularTypes (typeAliasesOf (moduleBody m)) = Inl err
        \<or> (\<exists>cs. solve cs Map.empty = Inl err)"
  proof (cases "checkCircularTypes (typeAliasesOf (moduleBody m))")
    case (Inl e')
    with f show ?thesis by (simp add: inferModule_def)
  next
    case (Inr u)
    then have chk: "checkCircularTypes (typeAliasesOf (moduleBody m)) = Inr ()" by simp
    from h have dist: "distinct (map (\<lambda>a. name (aliasId a)) (typeAliasesOf (moduleBody m)))"
      by simp
    from checked_module_aliases_acyclic [OF chk dist]
    have fin: "finite (dom ?it)" and acyc: "acyclic (aliasReferences ?it)" by simp_all
    have pf: "\<forall>d \<in> ran ?it. prototypeFree ?it d"
      using h internalTypesOf_ran by blast
    have "\<forall>x \<in> set (moduleBody m). \<forall>k. \<exists>y k'. inferSyntax x ?it k = Inr (y, k')"
      using h inferSyntax_total [OF fin acyc pf] by (auto simp: list_all_iff)
    from mapS_total [OF this] obtain bodyInferences n1 where
      m: "mapS (\<lambda>form k. inferSyntax form ?it k) (moduleBody m) n = Inr (bodyInferences, n1)"
      by blast
    with f chk have "\<exists>cs. solve cs Map.empty = Inl err"
      by (auto simp: inferModule_def Let_def split: sum.splits)
    then show ?thesis ..
  qed
qed

text \<open>
  Witness for C2: \<^verbatim>\<open>(lambda (x) (the ID x))\<close> where \<^verbatim>\<open>ID\<close> is an alias of
  \<^verbatim>\<open>number\<close>, as an expression and as the second form of a module that declares
  the alias, with a solver that returns the substitution it is given.
\<close>

theorem infer_returns_on_nonempty_bodies_witness:
  "(\<exists>r n'. infer (EFunction [Identifier ''x'' (0, 0)]
                    [ETypeAnnotation (TypeWithWildcards (TConstant ''ID''))
                       (EVariableReference ''x'' (1, 1) ()) (2, 2) ()] (3, 3) ())
             [] [''ID'' \<mapsto> tNumber] 0 = Inr (r, n'))
   \<and> (\<exists>res. inferModule (\<lambda>cs s. Inr s) (\<lambda>e s. e) Map.empty
               (Module [STypeAliasDecl (STypeAlias (Identifier ''ID'' (4, 4)) tNumber (4, 4)),
                        SExpression
                          (EFunction [Identifier ''x'' (0, 0)]
                             [ETypeAnnotation (TypeWithWildcards (TConstant ''ID''))
                                (EVariableReference ''x'' (1, 1) ()) (2, 2) ()] (3, 3) ())])
               (ExternalEnvironment Map.empty Map.empty) 0 = Inr res)"
proof -
  let ?e = "EFunction [Identifier ''x'' (0, 0)]
              [ETypeAnnotation (TypeWithWildcards (TConstant ''ID''))
                 (EVariableReference ''x'' (1, 1) ()) (2, 2) ()] (3, 3) ()"
  let ?env = "[''ID'' \<mapsto> tNumber] :: InternalTypeEnvironment"
  let ?m = "Module [STypeAliasDecl (STypeAlias (Identifier ''ID'' (4, 4)) tNumber (4, 4)),
                    SExpression ?e] :: unit Module"
  let ?solve = "(\<lambda>cs s. Inr s) :: TConstraint list \<Rightarrow> Substitution \<Rightarrow> error + Substitution"
  have env: "internalTypesOf (moduleBody ?m) = ?env"
    by (simp add: internalTypesOf_def)
  have al: "typeAliasesOf (moduleBody ?m) = [STypeAlias (Identifier ''ID'' (4, 4)) tNumber (4, 4)]"
    by (simp add: typeAliasesOf_def List.map_filter_simps)
  have fin: "finite (dom ?env)" by simp
  have "aliasReferences ?env = {}"
    by (auto simp: aliasReferences_def tNumber_def split: if_splits)
  then have acyc: "acyclic (aliasReferences ?env)" by (simp add: acyclic_def)
  have pf: "\<forall>d \<in> ran ?env. prototypeFree ?env d"
    by (simp add: prototypeFree_def objectPrototypeMembers_def tNumber_def)
  have ne: "nonEmptyBodies ?e" by simp
  have an: "annotationsPrototypeFree ?env ?e"
    by (simp add: prototypeFree_def objectPrototypeMembers_def)
  have chk: "checkCircularTypes (typeAliasesOf (moduleBody ?m)) = Inr ()"
    unfolding al
    by (simp add: checkCircularTypes_def visit.simps [of _ _ "[]"] tNumber_def)
  note t = infer_returns_on_nonempty_bodies [where internalTypes = ?env and e = ?e
      and monovars = "[]" and n = 0 and m = ?m and solve = ?solve
      and applySubstitutionToExpr = "\<lambda>e s. e" and inlinePrimitives = Map.empty
      and env = "ExternalEnvironment Map.empty Map.empty"]
  from t fin acyc pf ne an have 1: "\<exists>r n'. infer ?e [] ?env 0 = Inr (r, n')"
    by blast
  have hyp: "distinct (map (\<lambda>a. name (aliasId a)) (typeAliasesOf (moduleBody ?m)))
      \<and> (\<forall>a \<in> set (typeAliasesOf (moduleBody ?m)).
            prototypeFree (internalTypesOf (moduleBody ?m)) (aliasDefinition a))
      \<and> list_all nonEmptyBodiesSyntax (moduleBody ?m)
      \<and> list_all (annotationsPrototypeFreeSyntax (internalTypesOf (moduleBody ?m))) (moduleBody ?m)"
    unfolding env al
    by (simp add: prototypeFree_def objectPrototypeMembers_def tNumber_def)
  from t hyp have 2: "\<forall>err. inferModule ?solve (\<lambda>e s. e) Map.empty ?m
                            (ExternalEnvironment Map.empty Map.empty) 0 = Inl err
             \<longrightarrow> checkCircularTypes (typeAliasesOf (moduleBody ?m)) = Inl err
                 \<or> (\<exists>cs. ?solve cs Map.empty = Inl err)"
    by blast
  have "\<exists>res. inferModule ?solve (\<lambda>e s. e) Map.empty ?m
                (ExternalEnvironment Map.empty Map.empty) 0 = Inr res"
  proof (cases "inferModule ?solve (\<lambda>e s. e) Map.empty ?m
                  (ExternalEnvironment Map.empty Map.empty) 0")
    case (Inl err)
    with 2 chk show ?thesis by simp
  next
    case (Inr res)
    then show ?thesis by blast
  qed
  with 1 show ?thesis by blast
qed

text \<open>
  C2 as stated fails: on a match with a case whose body is empty the generator itself
  throws an \<^verbatim>\<open>InvariantViolation\<close>.
\<close>

theorem infer_match_empty_case_counterexample:
  "infer (EMatch (ENumber 1 (0, 0) ()) [(''a'', Identifier ''x'' (0, 0), [])] (0, 0) ())
     [] Map.empty 0
   = Inl (InvariantViolation ''Missing returning form!'')"
  by (simp add: eval_simps)

section \<open>Unknown variable uses of a module\<close>


section \<open>The effect of a lambda expression\<close>

text \<open>
  C5 (as amended). When \<^verbatim>\<open>infer\<close> returns on a lambda expression (so its body is
  not empty), and
  neither the annotations and match variables of the expression, nor the monovars,
  nor the alias definitions hold a name that the counter has yet to generate, then
  the effect of the lambda expression itself is the variable generated last, by the
  final step of the counter; it occurs in none of the constraints emitted for the
  lambda, in none of the assumptions that escape it, and not in its own arrow type.
\<close>

theorem lambda_effect_is_fresh:
  assumes "infer (EFunction positionalArgs b l i) monovars internalTypes n = Inr (r, n')"
    and "below n (inputNames (EFunction positionalArgs b l i))"
    and "below n (set monovars)"
    and "below n (envVars internalTypes)"
  shows "effect (info (result r)) = fst (generateUniqueTVar (n' - 1))
       \<and> effect (info (result r)) = TVar (tvarName n') False
       \<and> n < n'
       \<and> (\<forall>c \<in> set (constraints r). tvarName n' \<notin> constraintVars c)
       \<and> (\<forall>a \<in> set (assumptions r). tvarName n' \<notin> exprVars a)
       \<and> tvarName n' \<notin> typeVariables (type (info (result r)))"
proof -
  have b: "below n (\<Union>e \<in> set b. inputNames e)" using assms(2) by simp
  have "\<exists>n3. n \<le> n3 \<and> n' = Suc n3
           \<and> effect (info (result r)) = TVar (tvarName n') False
           \<and> below n3 (typeVariables (type (info (result r))))
           \<and> (\<forall>c \<in> set (constraints r). below n3 (constraintVars c))
           \<and> (\<forall>a \<in> set (assumptions r). below n3 (exprVars a))
           \<and> (\<exists>body. result r = EFunction positionalArgs body l (info (result r))
                  \<and> (\<forall>e \<in> set body. below n3 (exprVars e)))"
    by (rule function_constraints_below [OF assms(1) _ b assms(3,4)])
       (rule infer_below; assumption)
  then obtain n3 where
    f: "n \<le> n3" "n' = Suc n3" "effect (info (result r)) = TVar (tvarName n') False"
    "below n3 (typeVariables (type (info (result r))))"
    "\<forall>c \<in> set (constraints r). below n3 (constraintVars c)"
    "\<forall>a \<in> set (assumptions r). below n3 (exprVars a)"
    by blast
  have fresh: "\<And>X. below n3 X \<Longrightarrow> tvarName n' \<notin> X"
    using f(2) by (auto simp: below_def)
  show ?thesis
    using f fresh by (auto simp: generateUniqueTVar_eq)
qed

text \<open>Witness for C5: \<^verbatim>\<open>(lambda (x) x)\<close> with the counter at zero.\<close>

theorem lambda_effect_is_fresh_witness:
  "\<exists>r n'. infer (EFunction [Identifier ''x'' (0, 0)] [EVariableReference ''x'' (1, 1) ()] (2, 2) ())
             [] Map.empty 0 = Inr (r, n')
     \<and> effect (info (result r)) = TVar (tvarName n') False
     \<and> (\<forall>c \<in> set (constraints r). tvarName n' \<notin> constraintVars c)"
proof -
  let ?e = "EFunction [Identifier ''x'' (0, 0)] [EVariableReference ''x'' (1, 1) ()] (2, 2) ()"
  obtain r n' where h: "infer ?e [] Map.empty 0 = Inr (r, n')"
    by (simp add: eval_simps)
  have 1: "below 0 (inputNames ?e)" by simp
  have 2: "below 0 (set ([] :: string list))" by simp
  have 3: "below 0 (envVars Map.empty)" by (simp add: envVars_def)
  from lambda_effect_is_fresh [OF h 1 2 3] h show ?thesis by blast
qed

text \<open>
  C5 as stated fails when the program writes a type variable with a name the counter
  has yet to reach: in \<^verbatim>\<open>(lambda (x) (the t5 x))\<close>, with the counter at zero, the
  effect of the lambda is the variable \<^verbatim>\<open>t5\<close>, generated last, and that name
  occurs in the constraint that equates the type of \<^verbatim>\<open>x\<close> with the annotation,
  and in the arrow type.
\<close>

theorem lambda_effect_collision_counterexample:
  "infer (EFunction [Identifier ''x'' (0, 0)]
            [ETypeAnnotation (TypeWithWildcards (TVar ''t5'' True))
               (EVariableReference ''x'' (1, 1) ()) (2, 2) ()] (3, 3) ())
     [] Map.empty 0
   = Inr (InferResult
            (EFunction [Identifier ''x'' (0, 0)]
               [ETypeAnnotation (TypeWithWildcards (TVar ''t5'' True))
                  (EVariableReference ''x'' (1, 1) (Typed (TVar ''t2'' False) (TVar ''t3'' False)))
                  (2, 2) (Typed (TVar ''t5'' True) (TVar ''t3'' False))]
               (3, 3)
               (Typed (tFn [TVar ''t1'' False] (TVar ''t4'' False) (TVar ''t5'' True))
                  (TVar ''t5'' False)))
            [constEqual
               (EVariableReference ''x'' (1, 1) (Typed (TVar ''t2'' False) (TVar ''t3'' False)))
               (TVar ''t5'' True),
             constEqual
               (EVariableReference ''x'' (1, 1) (Typed (TVar ''t2'' False) (TVar ''t3'' False)))
               (TVar ''t1'' False),
             constEffect
               (ETypeAnnotation (TypeWithWildcards (TVar ''t5'' True))
                  (EVariableReference ''x'' (1, 1) (Typed (TVar ''t2'' False) (TVar ''t3'' False)))
                  (2, 2) (Typed (TVar ''t5'' True) (TVar ''t3'' False)))
               (TVar ''t4'' False)]
            [],
          5)
   \<and> ''t5'' \<in> constraintVars
        (constEqual
           (EVariableReference ''x'' (1, 1) (Typed (TVar ''t2'' False) (TVar ''t3'' False)))
           (TVar ''t5'' True))
   \<and> ''t5'' \<in> typeVariables (tFn [TVar ''t1'' False] (TVar ''t4'' False) (TVar ''t5'' True))"
  by (simp add: eval_simps numeral_eq_Suc instantiate_def isWildcardTypeVarName_def
        expandTypeAliases_unfold expandStep_simps)

end
